(* ===== verification/Router_Prelude.thy ===== *)
theory Router_Prelude
  imports Main "HOL-Library.AList"
begin

text \<open>
  Shared vocabulary of the development: the fixed-width integers of the Rust
  sources over \<open>int\<close> with their checked and saturating operations, decimal
  text as the standard library reads and prints it, hash maps as association
  lists with distinct keys, and generic list lemmas. The named collections
  declared here carry the component proofs.
\<close>

named_theorems i64_simps
named_theorems tx_simps
named_theorems tx_defs


section \<open>Fixed-width integers\<close>

text \<open>
  An \<open>i64\<close>, \<open>i128\<close> or \<open>u64\<close> of the source is an \<open>int\<close> of the model. Every
  operation whose overflow the source handles is one of the functions below;
  plain arithmetic is used only where its operands are bounded.
\<close>

definition i64_max :: int where
  "i64_max = 9223372036854775807"

definition i64_min :: int where
  "i64_min = - 9223372036854775808"

definition in_i64 :: "int \<Rightarrow> bool" where
  "in_i64 n \<longleftrightarrow> i64_min \<le> n \<and> n \<le> i64_max"

definition i128_max :: int where
  "i128_max = 170141183460469231731687303715884105727"

definition i128_min :: int where
  "i128_min = - 170141183460469231731687303715884105728"

definition in_i128 :: "int \<Rightarrow> bool" where
  "in_i128 n \<longleftrightarrow> i128_min \<le> n \<and> n \<le> i128_max"

definition u64_max :: int where
  "u64_max = 18446744073709551615"

definition checked_i64 :: "int \<Rightarrow> int option" where
  "checked_i64 n = (if in_i64 n then Some n else None)"

definition checked_add64 :: "int \<Rightarrow> int \<Rightarrow> int option" where
  "checked_add64 a b = checked_i64 (a + b)"

definition checked_mul64 :: "int \<Rightarrow> int \<Rightarrow> int option" where
  "checked_mul64 a b = checked_i64 (a * b)"

definition checked_neg64 :: "int \<Rightarrow> int option" where
  "checked_neg64 a = checked_i64 (- a)"

definition saturating_sub64 :: "int \<Rightarrow> int \<Rightarrow> int" where
  "saturating_sub64 a b = max i64_min (min i64_max (a - b))"

definition checked_i128 :: "int \<Rightarrow> int option" where
  "checked_i128 n = (if in_i128 n then Some n else None)"

definition checked_add128 :: "int \<Rightarrow> int \<Rightarrow> int option" where
  "checked_add128 a b = checked_i128 (a + b)"

definition checked_mul128 :: "int \<Rightarrow> int \<Rightarrow> int option" where
  "checked_mul128 a b = checked_i128 (a * b)"

definition checked_addu64 :: "int \<Rightarrow> int \<Rightarrow> int option" where
  "checked_addu64 a b = (if a + b \<le> u64_max then Some (a + b) else None)"

lemmas i64_defs = i64_max_def i64_min_def in_i64_def

lemma checked_i64_Some_iff [i64_simps]:
  "checked_i64 n = Some m \<longleftrightarrow> in_i64 n \<and> m = n"
  by (auto simp: checked_i64_def)

lemma checked_i64_None_iff [i64_simps]: "checked_i64 n = None \<longleftrightarrow> \<not> in_i64 n"
  by (simp add: checked_i64_def)

lemma checked_add64_Some_iff [i64_simps]:
  "checked_add64 a b = Some m \<longleftrightarrow> in_i64 (a + b) \<and> m = a + b"
  by (simp add: checked_add64_def i64_simps)

lemma checked_add64_None_iff [i64_simps]:
  "checked_add64 a b = None \<longleftrightarrow> \<not> in_i64 (a + b)"
  by (simp add: checked_add64_def i64_simps)

lemma checked_mul64_Some_iff [i64_simps]:
  "checked_mul64 a b = Some m \<longleftrightarrow> in_i64 (a * b) \<and> m = a * b"
  by (simp add: checked_mul64_def i64_simps)

lemma checked_mul64_None_iff [i64_simps]:
  "checked_mul64 a b = None \<longleftrightarrow> \<not> in_i64 (a * b)"
  by (simp add: checked_mul64_def i64_simps)

lemma checked_neg64_Some_iff [i64_simps]:
  "checked_neg64 a = Some m \<longleftrightarrow> in_i64 (- a) \<and> m = - a"
  by (simp add: checked_neg64_def i64_simps)

lemma checked_neg64_None_iff [i64_simps]:
  "checked_neg64 a = None \<longleftrightarrow> \<not> in_i64 (- a)"
  by (simp add: checked_neg64_def i64_simps)

lemma checked_add128_Some_iff [i64_simps]:
  "checked_add128 a b = Some m \<longleftrightarrow> in_i128 (a + b) \<and> m = a + b"
  by (auto simp: checked_add128_def checked_i128_def)

lemma checked_mul128_Some_iff [i64_simps]:
  "checked_mul128 a b = Some m \<longleftrightarrow> in_i128 (a * b) \<and> m = a * b"
  by (auto simp: checked_mul128_def checked_i128_def)

lemma in_i64_0 [simp]: "in_i64 0"
  by (simp add: i64_defs)

lemma in_i64_between: "in_i64 a \<Longrightarrow> in_i64 b \<Longrightarrow> a \<le> n \<Longrightarrow> n \<le> b \<Longrightarrow> in_i64 n"
  by (simp add: in_i64_def)


section \<open>Text\<close>

text \<open>The string methods the sources use, on ASCII text.\<close>

definition is_space :: "char \<Rightarrow> bool" where
  "is_space c \<longleftrightarrow> (let n = (of_char c :: nat) in n = 32 \<or> (9 \<le> n \<and> n \<le> 13))"

definition trim :: "string \<Rightarrow> string" where
  "trim s = rev (dropWhile is_space (rev (dropWhile is_space s)))"

definition ascii_lower :: "char \<Rightarrow> char" where
  "ascii_lower c = (let n = (of_char c :: nat) in if 65 \<le> n \<and> n \<le> 90 then char_of (n + 32) else c)"

definition to_ascii_lowercase :: "string \<Rightarrow> string" where
  "to_ascii_lowercase = map ascii_lower"

definition starts_with :: "string \<Rightarrow> string \<Rightarrow> bool" where
  "starts_with pre s \<longleftrightarrow> take (length pre) s = pre"

definition ends_with :: "string \<Rightarrow> string \<Rightarrow> bool" where
  "ends_with suf s \<longleftrightarrow> length suf \<le> length s \<and> drop (length s - length suf) s = suf"

definition strip_prefix :: "string \<Rightarrow> string \<Rightarrow> string option" where
  "strip_prefix pre s = (if starts_with pre s then Some (drop (length pre) s) else None)"

lemma strip_prefix_Some: "strip_prefix pre s = Some k \<longleftrightarrow> s = pre @ k"
  by (auto simp: strip_prefix_def starts_with_def) (metis append_take_drop_id)


section \<open>Decimal text\<close>

definition is_ascii_digit :: "char \<Rightarrow> bool" where
  "is_ascii_digit c \<longleftrightarrow> 48 \<le> (of_char c :: nat) \<and> (of_char c :: nat) \<le> 57"

definition digit_of :: "char \<Rightarrow> int" where
  "digit_of c = int (of_char c) - 48"

definition all_digits :: "string \<Rightarrow> bool" where
  "all_digits s \<longleftrightarrow> list_all is_ascii_digit s"

definition digits_val :: "string \<Rightarrow> int" where
  "digits_val s = foldl (\<lambda>n c. 10 * n + digit_of c) 0 s"

text \<open>
  \<open>str::parse\<close> for a signed integer type: an optional sign, at least one digit,
  and a value the type can hold (\<open>ok\<close>).
\<close>

definition parse_signed :: "(int \<Rightarrow> bool) \<Rightarrow> string \<Rightarrow> int option" where
  "parse_signed ok s =
     (let neg = (s \<noteq> [] \<and> hd s = CHR ''-'');
          body = (if s \<noteq> [] \<and> (hd s = CHR ''-'' \<or> hd s = CHR ''+'') then tl s else s);
          v = (if neg then - digits_val body else digits_val body)
      in if body \<noteq> [] \<and> all_digits body \<and> ok v then Some v else None)"

definition parse_i64 :: "string \<Rightarrow> int option" where
  "parse_i64 = parse_signed in_i64"

definition parse_i128 :: "string \<Rightarrow> int option" where
  "parse_i128 = parse_signed in_i128"

definition digit_char :: "nat \<Rightarrow> char" where
  "digit_char d = char_of (48 + d)"

fun show_nat :: "nat \<Rightarrow> string" where
  "show_nat n = (if n < 10 then [digit_char n] else show_nat (n div 10) @ [digit_char (n mod 10)])"

declare show_nat.simps [simp del]

definition show_int :: "int \<Rightarrow> string" where
  "show_int n = (if n < 0 then CHR ''-'' # show_nat (nat (- n)) else show_nat (nat n))"

lemma digits_val_Nil [simp]: "digits_val [] = 0"
  by (simp add: digits_val_def)

lemma digits_val_snoc [simp]: "digits_val (s @ [c]) = 10 * digits_val s + digit_of c"
  by (simp add: digits_val_def)

lemma all_digits_simps [simp]:
  "all_digits []"
  "all_digits (c # s) \<longleftrightarrow> is_ascii_digit c \<and> all_digits s"
  "all_digits (s @ t) \<longleftrightarrow> all_digits s \<and> all_digits t"
  by (auto simp: all_digits_def)

lemma digit_of_nonneg: "is_ascii_digit c \<Longrightarrow> 0 \<le> digit_of c \<and> digit_of c \<le> 9"
  by (auto simp: is_ascii_digit_def digit_of_def)

lemma digits_val_bounds: "all_digits s \<Longrightarrow> 0 \<le> digits_val s \<and> digits_val s < 10 ^ length s"
proof (induction s rule: rev_induct)
  case Nil
  then show ?case by simp
next
  case (snoc c s)
  then have "0 \<le> digits_val s" "digits_val s < 10 ^ length s" "0 \<le> digit_of c" "digit_of c \<le> 9"
    using digit_of_nonneg [of c] by auto
  then show ?case by simp
qed

text \<open>Evaluation of \<open>show_int\<close> on binary integers.\<close>

function show_pos :: "int \<Rightarrow> string" where
  "show_pos n = (if n < 10 then [digit_char (nat n)] else show_pos (n div 10) @ [digit_char (nat (n mod 10))])"
  by auto
termination by (relation "measure nat") auto

declare show_pos.simps [simp del]

lemma show_pos_nat: "0 \<le> n \<Longrightarrow> show_pos n = show_nat (nat n)"
proof (induction n rule: show_pos.induct)
  case (1 n)
  then show ?case
    by (subst show_pos.simps, subst show_nat.simps) (auto simp: nat_div_distrib nat_mod_distrib nat_less_iff)
qed

lemma show_int_code [code]:
  "show_int n = (if n < 0 then CHR ''-'' # show_pos (- n) else show_pos n)"
  by (simp add: show_int_def show_pos_nat)

lemma of_char_digit_char: "d < 10 \<Longrightarrow> (of_char (digit_char d) :: nat) = 48 + d"
  by (simp add: digit_char_def)

lemma digit_char_props [simp]:
  assumes "d < 10"
  shows "is_ascii_digit (digit_char d)" "digit_of (digit_char d) = int d"
  using assms by (simp_all add: is_ascii_digit_def digit_of_def of_char_digit_char)

lemma show_nat_digits: "show_nat n \<noteq> [] \<and> all_digits (show_nat n) \<and> digits_val (show_nat n) = int n"
proof (induction n rule: show_nat.induct)
  case (1 n)
  show ?case
  proof (cases "n < 10")
    case True
    then have "show_nat n = [] @ [digit_char n]" by (simp add: show_nat.simps [of n])
    with True show ?thesis by (simp only: digits_val_snoc all_digits_simps) simp
  next
    case False
    then have eq: "show_nat n = show_nat (n div 10) @ [digit_char (n mod 10)]"
      by (simp add: show_nat.simps [of n])
    from False 1 have "digits_val (show_nat (n div 10)) = int (n div 10)"
      and "all_digits (show_nat (n div 10))" by simp_all
    then show ?thesis by (simp add: eq) presburger
  qed
qed

lemma show_nat_props [simp]:
  "show_nat n \<noteq> []" "all_digits (show_nat n)" "digits_val (show_nat n) = int n"
  using show_nat_digits [of n] by auto

lemma digit_ne_sep: "is_ascii_digit c \<Longrightarrow> c \<noteq> CHR '':'' \<and> c \<noteq> CHR ''-'' \<and> c \<noteq> CHR ''+'' \<and> c \<noteq> CHR ''.''"
  by (auto simp: is_ascii_digit_def)

lemma all_digits_hd: "all_digits s \<Longrightarrow> s \<noteq> [] \<Longrightarrow> is_ascii_digit (hd s)"
  by (cases s) auto

lemma parse_signed_digits:
  assumes "all_digits s" "s \<noteq> []"
  shows "parse_signed ok s = (if ok (digits_val s) then Some (digits_val s) else None)"
  using assms digit_ne_sep [OF all_digits_hd [OF assms]] by (simp add: parse_signed_def Let_def)

lemma parse_i64_show_int:
  assumes "in_i64 n"
  shows "parse_i64 (show_int n) = Some n"
proof (cases "n < 0")
  case True
  with assms show ?thesis by (simp add: parse_i64_def show_int_def parse_signed_def)
next
  case False
  with assms show ?thesis by (simp add: parse_i64_def show_int_def parse_signed_digits)
qed

lemma show_int_inj: "show_int a = show_int b \<longleftrightarrow> a = b"
proof
  assume eq: "show_int a = show_int b"
  have shape: "\<And>n. parse_signed (\<lambda>_. True) (show_int n) = Some n"
    by (auto simp: show_int_def parse_signed_digits) (simp add: parse_signed_def)
  from eq have "parse_signed (\<lambda>_. True) (show_int a) = parse_signed (\<lambda>_. True) (show_int b)"
    by simp
  then show "a = b" by (simp add: shape)
qed simp

lemma all_digits_no_colon: "all_digits s \<Longrightarrow> CHR '':'' \<notin> set s"
  by (induction s) (auto dest: digit_ne_sep)

lemma show_int_no_colon: "CHR '':'' \<notin> set (show_int n)"
  by (simp add: show_int_def all_digits_no_colon)

text \<open>Fields joined by a separator that no field but the last contains are read back uniquely.\<close>

lemma sep_inj:
  assumes "x \<notin> set a" "x \<notin> set b" "a @ x # c = b @ x # d"
  shows "a = b \<and> c = d"
  using assms
proof (induction a arbitrary: b)
  case Nil
  then show ?case by (cases b) auto
next
  case (Cons y a)
  then show ?case by (cases b) auto
qed

text \<open>\<open>str::split_once\<close> for a single character.\<close>

fun split_once :: "char \<Rightarrow> string \<Rightarrow> (string \<times> string) option" where
  "split_once c [] = None"
| "split_once c (x # s) =
     (if x = c then Some ([], s)
      else (case split_once c s of None \<Rightarrow> None | Some (a, b) \<Rightarrow> Some (x # a, b)))"

lemma split_once_None: "split_once c s = None \<longleftrightarrow> c \<notin> set s"
  by (induction s) (auto split: option.splits)

lemma split_once_append: "c \<notin> set a \<Longrightarrow> split_once c (a @ c # b) = Some (a, b)"
  by (induction a) auto

lemma split_once_SomeD: "split_once c s = Some (a, b) \<Longrightarrow> s = a @ c # b \<and> c \<notin> set a"
  by (induction s arbitrary: a) (auto split: if_splits option.splits)


section \<open>Sums and prefixes\<close>

text \<open>
  SQLite's \<open>SUM\<close> over an integer column adds in row order and raises an error when
  an intermediate sum leaves the 64-bit range.
\<close>

fun sql_sum_from :: "int \<Rightarrow> int list \<Rightarrow> int option" where
  "sql_sum_from acc [] = Some acc"
| "sql_sum_from acc (x # xs) =
     (case checked_add64 acc x of None \<Rightarrow> None | Some acc' \<Rightarrow> sql_sum_from acc' xs)"

definition sql_sum :: "int list \<Rightarrow> int option" where
  "sql_sum xs = sql_sum_from 0 xs"

fun prefixes_ok :: "(int \<Rightarrow> bool) \<Rightarrow> int \<Rightarrow> int list \<Rightarrow> bool" where
  "prefixes_ok P acc [] = P acc"
| "prefixes_ok P acc (x # xs) = (P acc \<and> prefixes_ok P (acc + x) xs)"

lemma sql_sum_from_Some: "sql_sum_from acc xs = Some n \<Longrightarrow> n = acc + sum_list xs"
  by (induction xs arbitrary: acc) (fastforce simp: i64_simps split: option.splits)+

lemma sql_sum_Some: "sql_sum xs = Some n \<Longrightarrow> n = sum_list xs"
  using sql_sum_from_Some [of 0 xs n] by (simp add: sql_sum_def)

lemma prefixes_ok_start: "prefixes_ok P acc xs \<Longrightarrow> P acc"
  by (cases xs) auto

lemma sql_sum_from_ok:
  "prefixes_ok in_i64 acc xs \<Longrightarrow> sql_sum_from acc xs = Some (acc + sum_list xs)"
proof (induction xs arbitrary: acc)
  case Nil
  then show ?case by simp
next
  case (Cons x xs)
  then have "in_i64 (acc + x)" by (auto dest: prefixes_ok_start)
  with Cons show ?case by (simp add: checked_add64_def checked_i64_def algebra_simps)
qed

lemma sql_sum_ok: "prefixes_ok in_i64 0 xs \<Longrightarrow> sql_sum xs = Some (sum_list xs)"
  using sql_sum_from_ok [of 0 xs] by (simp add: sql_sum_def)

lemma prefixes_ok_append [simp]:
  "prefixes_ok P acc (xs @ ys) \<longleftrightarrow> prefixes_ok P acc xs \<and> prefixes_ok P (acc + sum_list xs) ys"
  by (induction xs arbitrary: acc) (auto simp: algebra_simps dest: prefixes_ok_start)

lemma prefixes_ok_mono: "prefixes_ok P acc xs \<Longrightarrow> (\<And>n. P n \<Longrightarrow> Q n) \<Longrightarrow> prefixes_ok Q acc xs"
  by (induction xs arbitrary: acc) auto

lemma prefixes_ok_nonneg:
  assumes "\<forall>x \<in> set xs. 0 \<le> x" "0 \<le> acc" "acc + sum_list xs \<le> i64_max"
  shows "prefixes_ok in_i64 acc xs"
  using assms
proof (induction xs arbitrary: acc)
  case Nil
  then show ?case by (simp add: i64_defs)
next
  case (Cons x xs)
  then have "0 \<le> sum_list xs" by (simp add: sum_list_nonneg)
  with Cons show ?case by (auto simp: i64_defs algebra_simps)
qed

lemma sum_list_zero_filter:
  "sum_list (map (\<lambda>x. if P x then f x else 0) xs) = sum_list (map f (filter P xs))" for f :: "'a \<Rightarrow> int"
  by (induction xs) auto

lemma prefixes_ok_zero_filter:
  "prefixes_ok Q acc (map (\<lambda>x. if P x then f x else 0) xs) \<longleftrightarrow> prefixes_ok Q acc (map f (filter P xs))"
  by (induction xs arbitrary: acc) (auto dest: prefixes_ok_start)


section \<open>Rows picked by a query\<close>

lemma find_keyed:
  assumes "distinct (map key xs)" "x \<in> set xs" "P x" "\<And>y. y \<in> set xs \<Longrightarrow> P y \<Longrightarrow> key y = key x"
  shows "find P xs = Some x"
  using assms
proof (induction xs)
  case (Cons a xs)
  show ?case
  proof (cases "P a")
    case True
    with Cons.prems(4) have "key a = key x" by simp
    with Cons.prems(1,2) have "a = x" by (metis distinct.simps(2) image_eqI list.set_map list.simps(9) set_ConsD)
    with True show ?thesis by simp
  next
    case False
    with Cons.prems(2,3) have "x \<in> set xs" by auto
    with Cons.prems(1,3,4) have "find P xs = Some x" by (intro Cons.IH) (simp, assumption, assumption, metis list.set_intros(2))
    with False show ?thesis by simp
  qed
qed simp

text \<open>The row an ORDER BY ... LIMIT 1 returns: the one no other comes before.\<close>

fun first_by :: "('a \<Rightarrow> 'a \<Rightarrow> bool) \<Rightarrow> 'a list \<Rightarrow> 'a option" where
  "first_by before [] = None"
| "first_by before (x # xs) =
     (case first_by before xs of
        None \<Rightarrow> Some x
      | Some y \<Rightarrow> if before y x then Some y else Some x)"

lemma first_by_None [simp]: "first_by before xs = None \<longleftrightarrow> xs = []"
  by (cases xs) (auto split: option.splits)

lemma first_by_mem: "first_by before xs = Some x \<Longrightarrow> x \<in> set xs"
  by (induction xs arbitrary: x) (auto split: option.splits if_splits)

lemma first_by_least:
  assumes "\<And>x y z. \<not> before x y \<Longrightarrow> \<not> before y z \<Longrightarrow> \<not> before x z" "\<And>x y. before x y \<Longrightarrow> \<not> before y x"
  shows "first_by before xs = Some x \<Longrightarrow> \<forall>y \<in> set xs. \<not> before y x"
proof (induction xs arbitrary: x)
  case (Cons a xs)
  show ?case
  proof (cases "first_by before xs")
    case None
    with Cons.prems assms(2) show ?thesis by auto
  next
    case (Some b)
    with Cons.IH have b: "\<forall>y \<in> set xs. \<not> before y b" by simp
    show ?thesis
    proof (cases "before b a")
      case True
      with Cons.prems Some have "x = b" by simp
      with b assms(2) [OF True] show ?thesis by simp
    next
      case False
      with Cons.prems Some have "x = a" by simp
      with b False show ?thesis using assms(1) [of _ b a] assms(2) [of a a] by auto
    qed
  qed
qed simp


section \<open>Counters and instants\<close>

text \<open>
  Unsigned counters and monotonic instants are natural numbers; instants and
  durations count nanoseconds, and a saturating difference is subtraction.
\<close>

definition u32_max_nat :: nat where
  "u32_max_nat = 4294967295"

definition u64_max_nat :: nat where
  "u64_max_nat = 18446744073709551615"

definition from_secs :: "nat \<Rightarrow> nat" where
  "from_secs n = n * 1000000000"


section \<open>Hash maps\<close>

text \<open>
  A \<open>HashMap\<close> is an association list with distinct keys. Its order stands for the
  unspecified iteration order of the standard library; a fresh key enters at the end.
\<close>

type_synonym ('k, 'v) hashmap = "('k \<times> 'v) list"

abbreviation hm_wf :: "('k, 'v) hashmap \<Rightarrow> bool" where
  "hm_wf m \<equiv> distinct (map fst m)"

abbreviation hm_get :: "('k, 'v) hashmap \<Rightarrow> 'k \<Rightarrow> 'v option" where
  "hm_get m k \<equiv> map_of m k"

abbreviation hm_insert :: "'k \<Rightarrow> 'v \<Rightarrow> ('k, 'v) hashmap \<Rightarrow> ('k, 'v) hashmap" where
  "hm_insert k v m \<equiv> AList.update k v m"

abbreviation hm_remove :: "'k \<Rightarrow> ('k, 'v) hashmap \<Rightarrow> ('k, 'v) hashmap" where
  "hm_remove k m \<equiv> AList.delete k m"

definition hm_retain :: "('k \<Rightarrow> 'v \<Rightarrow> bool) \<Rightarrow> ('k, 'v) hashmap \<Rightarrow> ('k, 'v) hashmap" where
  "hm_retain P m = filter (\<lambda>(k, v). P k v) m"

definition hm_contains :: "('k, 'v) hashmap \<Rightarrow> 'k \<Rightarrow> bool" where
  "hm_contains m k \<longleftrightarrow> hm_get m k \<noteq> None"

text \<open>\<open>Iterator::min_by_key\<close>: the first entry with the least key measure.\<close>

fun hm_min_by :: "('v \<Rightarrow> int) \<Rightarrow> ('k, 'v) hashmap \<Rightarrow> 'k option" where
  "hm_min_by f [] = None"
| "hm_min_by f ((k, v) # m) =
     (case hm_min_by f m of
        None \<Rightarrow> Some k
      | Some k' \<Rightarrow> (case map_of m k' of
            None \<Rightarrow> Some k
          | Some v' \<Rightarrow> if f v \<le> f v' then Some k else Some k'))"

lemma hm_wf_insert [simp]: "hm_wf m \<Longrightarrow> hm_wf (hm_insert k v m)"
  by (rule distinct_update)

lemma hm_wf_remove [simp]: "hm_wf m \<Longrightarrow> hm_wf (hm_remove k m)"
  by (rule distinct_delete)

lemma hm_wf_retain [simp]: "hm_wf m \<Longrightarrow> hm_wf (hm_retain P m)"
  by (simp add: hm_retain_def distinct_map_filter)

lemma hm_get_insert [simp]: "hm_get (hm_insert k v m) k' = (if k' = k then Some v else hm_get m k')"
  by (simp add: update_conv')

lemma hm_get_remove [simp]: "hm_get (hm_remove k m) k' = (if k' = k then None else hm_get m k')"
  by (simp add: delete_conv')

lemma hm_get_retain:
  "hm_wf m \<Longrightarrow> hm_get (hm_retain P m) k =
     (case hm_get m k of None \<Rightarrow> None | Some v \<Rightarrow> if P k v then Some v else None)"
proof (induction m)
  case Nil
  then show ?case by (simp add: hm_retain_def)
next
  case (Cons a m)
  obtain k' v' where a: "a = (k', v')" by force
  have none: "k = k' \<Longrightarrow> hm_get m k = None" "k = k' \<Longrightarrow> hm_get (hm_retain P m) k = None"
    using Cons.prems by (auto simp: a map_of_eq_None_iff hm_retain_def)
  show ?case
    using Cons none by (auto simp: a hm_retain_def)
qed

lemma length_insert:
  "length (hm_insert k v m) = (if hm_contains m k then length m else Suc (length m))"
  by (induction m) (auto simp: hm_contains_def)

lemma length_retain: "length (hm_retain P m) \<le> length m"
  by (simp add: hm_retain_def)

lemma length_remove: "length (hm_remove k m) \<le> length m"
  by (rule length_delete_le)

lemma length_remove_contains: "hm_wf m \<Longrightarrow> hm_contains m k \<Longrightarrow> Suc (length (hm_remove k m)) = length m"
proof (induction m)
  case Nil
  then show ?case by (simp add: hm_contains_def)
next
  case (Cons a m)
  show ?case
  proof (cases "fst a = k")
    case True
    with Cons.prems have "k \<notin> fst ` set m" by auto
    then have "hm_remove k m = m" by simp
    with True show ?thesis by (cases a) simp
  next
    case False
    with Cons.prems have "hm_contains m k" by (cases a) (auto simp: hm_contains_def)
    with False Cons show ?thesis by (cases a) simp
  qed
qed

lemma hm_min_by_contains: "m \<noteq> [] \<Longrightarrow> \<exists>k. hm_min_by f m = Some k \<and> hm_contains m k"
proof (induction m)
  case Nil
  then show ?case by simp
next
  case (Cons a m)
  obtain k v where a: "a = (k, v)" by force
  show ?case
  proof (cases "m = []")
    case True
    then show ?thesis by (simp add: a hm_contains_def)
  next
    case False
    with Cons.IH obtain k' v' where "hm_min_by f m = Some k'" "hm_get m k' = Some v'"
      by (auto simp: hm_contains_def)
    then show ?thesis by (auto simp: a hm_contains_def)
  qed
qed

lemma hm_min_by_least:
  "hm_wf m \<Longrightarrow> hm_min_by f m = Some k \<Longrightarrow> hm_get m k = Some v \<Longrightarrow> hm_get m k' = Some v' \<Longrightarrow> f v \<le> f v'"
proof (induction m arbitrary: k v k' v')
  case Nil
  then show ?case by simp
next
  case (Cons a m)
  obtain k1 v1 where a: "a = (k1, v1)" by force
  have wf: "hm_wf m" and out: "hm_get m k1 = None"
    using Cons.prems(1) by (auto simp: a map_of_eq_None_iff)
  show ?case
  proof (cases "hm_min_by f m")
    case None
    with hm_min_by_contains [of m f] have "m = []" by fastforce
    with None Cons.prems show ?thesis by (auto simp: a split: if_splits)
  next
    case (Some k2)
    with hm_min_by_contains [of m f] obtain v2 where v2: "hm_get m k2 = Some v2"
      by (cases "m = []") (auto simp: hm_contains_def)
    have "k2 \<noteq> k1" using v2 out by auto
    moreover have "f v2 \<le> f w" if "hm_get m k'' = Some w" for k'' w
      using Cons.IH [OF wf Some v2 that] .
    ultimately show ?thesis
      using Cons.prems(2-4) Some v2 by (fastforce simp: a split: if_splits)
  qed
qed

text \<open>Removing the least entry of a full table makes room for one more.\<close>

lemma hm_evict_length:
  assumes "hm_wf m" "0 < n" "n \<le> length m"
  shows "Suc (length (case hm_min_by f m of None \<Rightarrow> m | Some k \<Rightarrow> hm_remove k m)) = length m"
proof -
  from assms(2,3) have "m \<noteq> []" by auto
  then obtain k where "hm_min_by f m = Some k" "hm_contains m k" using hm_min_by_contains by blast
  with assms(1) show ?thesis by (simp add: length_remove_contains)
qed

text \<open>Lookups stay lookups: no rewriting to membership of the list.\<close>

declare map_of_eq_Some_iff [simp del]

end
