(* ===== verification/Sql_Tx.thy ===== *)
theory Sql_Tx
  imports Router_Prelude
begin

text \<open>
  The error values of the service (\<open>src/src/error.rs\<close>) and the shape of a storage
  operation: a function from the tables to an error or to a result with the new
  tables. An operation that returns an error leaves no trace, because every
  caller runs it inside one IMMEDIATE transaction (or savepoint) that is rolled
  back on error; \<open>commit_tx\<close> is that transaction.
\<close>


section \<open>Errors\<close>

datatype json =
    JNull
  | JBool bool
  | JNumber int
  | JString string
  | JArray "json list"
  | JObject "(string \<times> json) list"

datatype app_error =
    BadRequest string
  | Unauthorized string
  | Forbidden string
  | NotFound string
  | Gone string
  | Conflict string
  | UnprocessableEntity string
  | TooManyRequests string
  | ServiceUnavailable string
  | RateLimited string nat
  | Coded nat string string json
  | Internal string

definition coded_conflict :: "string \<Rightarrow> string \<Rightarrow> json \<Rightarrow> app_error" where
  "coded_conflict code message details = Coded 409 code message details"

definition coded_forbidden :: "string \<Rightarrow> string \<Rightarrow> json \<Rightarrow> app_error" where
  "coded_forbidden code message details = Coded 403 code message details"

fun app_error_code :: "app_error \<Rightarrow> string option" where
  "app_error_code (Coded _ code _ _) = Some code"
| "app_error_code _ = None"

text \<open>
  A failed statement (\<open>Error\<close> of \<open>src/src/db.rs\<close>). The engine's own message is not the
  source's: \<open>Database\<close> carries the name of the table whose constraint broke.
\<close>

datatype db_fault =
    Database string
  | Unavailable string
  | QueryReturnedNoRows
  | InvalidColumnType nat
  | FromSqlConversionFailure nat string string
  | ToSqlConversionFailure string
  | Runtime string

fun fault_text :: "db_fault \<Rightarrow> string" where
  "fault_text (Database msg) = msg"
| "fault_text (Unavailable msg) = ''database unavailable: '' @ msg"
| "fault_text QueryReturnedNoRows = ''query returned no rows''"
| "fault_text (InvalidColumnType n) = ''column '' @ show_nat n @ '' has an incompatible value''"
| "fault_text (FromSqlConversionFailure n ty msg) = ''column '' @ show_nat n @ '' conversion failed: '' @ msg"
| "fault_text (ToSqlConversionFailure msg) = ''parameter conversion failed: '' @ msg"
| "fault_text (Runtime msg) = ''database runtime failed: '' @ msg"

definition db_error :: "string \<Rightarrow> db_fault \<Rightarrow> app_error" where
  "db_error context fault = Internal (context @ '' failed: '' @ fault_text fault)"

type_synonym 'a result = "app_error + 'a"


section \<open>Storage operations\<close>

type_synonym ('s, 'a) tx = "'s \<Rightarrow> app_error + ('a \<times> 's)"

definition return_tx :: "'a \<Rightarrow> ('s, 'a) tx" where
  [tx_defs]: "return_tx x s = Inr (x, s)"

definition fail_tx :: "app_error \<Rightarrow> ('s, 'a) tx" where
  [tx_defs]: "fail_tx e s = Inl e"

definition bind_tx :: "('s, 'a) tx \<Rightarrow> ('a \<Rightarrow> ('s, 'b) tx) \<Rightarrow> ('s, 'b) tx" where
  [tx_defs]: "bind_tx m f s = (case m s of Inl e \<Rightarrow> Inl e | Inr (x, s') \<Rightarrow> f x s')"

text \<open>Run a pure fallible function; read the tables; change them; fail unless a test holds.\<close>

definition lift_tx :: "'a result \<Rightarrow> ('s, 'a) tx" where
  [tx_defs]: "lift_tx r s = (case r of Inl e \<Rightarrow> Inl e | Inr x \<Rightarrow> Inr (x, s))"

definition read_tx :: "('s \<Rightarrow> 'a result) \<Rightarrow> ('s, 'a) tx" where
  [tx_defs]: "read_tx q s = (case q s of Inl e \<Rightarrow> Inl e | Inr x \<Rightarrow> Inr (x, s))"

definition gets_tx :: "('s \<Rightarrow> 'a) \<Rightarrow> ('s, 'a) tx" where
  [tx_defs]: "gets_tx q s = Inr (q s, s)"

definition write_tx :: "('s \<Rightarrow> 's) \<Rightarrow> ('s, unit) tx" where
  [tx_defs]: "write_tx f s = Inr ((), f s)"

definition require_tx :: "bool \<Rightarrow> app_error \<Rightarrow> ('s, unit) tx" where
  [tx_defs]: "require_tx b e s = (if b then Inr ((), s) else Inl e)"

definition commit_tx :: "('s, 'a) tx \<Rightarrow> 's \<Rightarrow> 's" where
  "commit_tx m s = (case m s of Inl e \<Rightarrow> s | Inr (x, s') \<Rightarrow> s')"

lemma bind_tx_Inr [tx_simps]:
  "bind_tx m f s = Inr (r, t) \<longleftrightarrow> (\<exists>x u. m s = Inr (x, u) \<and> f x u = Inr (r, t))"
  by (auto simp: bind_tx_def split: sum.splits prod.splits)

lemma return_tx_Inr [tx_simps]: "return_tx x s = Inr (r, t) \<longleftrightarrow> r = x \<and> t = s"
  by (auto simp: return_tx_def)

lemma fail_tx_Inr [tx_simps]: "fail_tx e s = Inr z \<longleftrightarrow> False"
  by (simp add: fail_tx_def)

lemma lift_tx_Inr [tx_simps]: "lift_tx q s = Inr (r, t) \<longleftrightarrow> q = Inr r \<and> t = s"
  by (auto simp: lift_tx_def split: sum.splits)

lemma read_tx_Inr [tx_simps]: "read_tx q s = Inr (r, t) \<longleftrightarrow> q s = Inr r \<and> t = s"
  by (auto simp: read_tx_def split: sum.splits)

lemma gets_tx_Inr [tx_simps]: "gets_tx q s = Inr (r, t) \<longleftrightarrow> r = q s \<and> t = s"
  by (auto simp: gets_tx_def)

lemma write_tx_Inr [tx_simps]: "write_tx f s = Inr (r, t) \<longleftrightarrow> t = f s"
  by (auto simp: write_tx_def)

lemma require_tx_Inr [tx_simps]: "require_tx b e s = Inr (r, t) \<longleftrightarrow> b \<and> t = s"
  by (auto simp: require_tx_def)

lemma commit_tx_Inr: "m s = Inr (x, t) \<Longrightarrow> commit_tx m s = t"
  by (simp add: commit_tx_def)

lemma commit_tx_Inl: "m s = Inl e \<Longrightarrow> commit_tx m s = s"
  by (simp add: commit_tx_def)

lemma commit_tx_inv:
  assumes "I s" "\<And>x t. m s = Inr (x, t) \<Longrightarrow> I t"
  shows "I (commit_tx m s)"
  using assms by (auto simp: commit_tx_def split: sum.splits prod.splits)


text \<open>An operation that did not fail returned a result.\<close>

lemma not_isl_Inr: "\<not> isl z \<Longrightarrow> \<exists>x y. z = Inr (x, y)"
  by (cases z) auto

lemma not_isl_bind: "\<not> isl (bind_tx m f s) \<Longrightarrow> \<exists>x u y t. m s = Inr (x, u) \<and> f x u = Inr (y, t)"
  by (auto simp: bind_tx_def split: sum.splits dest: not_isl_Inr)


section \<open>What an operation may do to the tables\<close>

text \<open>
  \<open>within R m\<close>: whenever \<open>m\<close> succeeds, the tables before and after are related by
  \<open>R\<close>. For a preorder it is enough to look at the statements of an operation.
\<close>

definition within :: "('s \<Rightarrow> 's \<Rightarrow> bool) \<Rightarrow> ('s, 'a) tx \<Rightarrow> bool" where
  "within R m \<longleftrightarrow> (\<forall>s r t. m s = Inr (r, t) \<longrightarrow> R s t)"

lemma withinI: "(\<And>s r t. m s = Inr (r, t) \<Longrightarrow> R s t) \<Longrightarrow> within R m"
  by (simp add: within_def)

lemma withinD: "within R m \<Longrightarrow> m s = Inr (r, t) \<Longrightarrow> R s t"
  by (auto simp: within_def)

locale tx_preorder =
  fixes R :: "'s \<Rightarrow> 's \<Rightarrow> bool"
  assumes R_refl: "R s s"
    and R_trans: "R s t \<Longrightarrow> R t u \<Longrightarrow> R s u"
begin

lemma within_return: "within R (return_tx x)"
  by (auto intro: withinI simp: tx_simps R_refl)

lemma within_fail: "within R (fail_tx e)"
  by (auto intro: withinI simp: tx_simps)

lemma within_lift: "within R (lift_tx q)"
  by (auto intro: withinI simp: tx_simps R_refl)

lemma within_read: "within R (read_tx q)"
  by (auto intro: withinI simp: tx_simps R_refl)

lemma within_gets: "within R (gets_tx q)"
  by (auto intro: withinI simp: tx_simps R_refl)

lemma within_require: "within R (require_tx b e)"
  by (auto intro: withinI simp: tx_simps R_refl)

lemma within_bind: "within R m \<Longrightarrow> (\<And>x. within R (f x)) \<Longrightarrow> within R (bind_tx m f)"
  unfolding within_def by (simp add: tx_simps) (blast intro: R_trans)

lemma within_if: "within R m \<Longrightarrow> within R n \<Longrightarrow> within R (if b then m else n)"
  by simp

lemma within_option:
  "within R m \<Longrightarrow> (\<And>x. within R (f x)) \<Longrightarrow> within R (case z of None \<Rightarrow> m | Some x \<Rightarrow> f x)"
  by (cases z) simp_all

lemma within_prod: "(\<And>x y. within R (f x y)) \<Longrightarrow> within R (case z of (x, y) \<Rightarrow> f x y)"
  by (cases z) simp

lemma within_Let: "(\<And>x. within R (f x)) \<Longrightarrow> within R (let x = z in f x)"
  by simp

lemmas within_rules = within_return within_fail within_lift within_read within_gets within_require
  within_bind within_if within_option within_prod within_Let

lemma commit_within: "within R m \<Longrightarrow> R s (commit_tx m s)"
  by (auto simp: commit_tx_def R_refl split: sum.splits prod.splits intro: withinD)

end


section \<open>Machines with an invariant\<close>

text \<open>
  The components of the service are machines driven by commands: a step is a total
  function (a rejected command leaves the state as it is). The interface below is
  what every component of the development offers, and is interpreted on each.
\<close>

definition run_machine :: "('c \<Rightarrow> 's \<Rightarrow> 's) \<Rightarrow> 'c list \<Rightarrow> 's \<Rightarrow> 's" where
  "run_machine step cs s = fold step cs s"

lemma run_machine_simps [simp]:
  "run_machine step [] s = s"
  "run_machine step (c # cs) s = run_machine step cs (step c s)"
  by (simp_all add: run_machine_def)

lemma run_machine_append: "run_machine step (cs @ ds) s = run_machine step ds (run_machine step cs s)"
  by (simp add: run_machine_def)

locale safe_machine =
  fixes step :: "'c \<Rightarrow> 's \<Rightarrow> 's"
    and inv :: "'s \<Rightarrow> bool"
  assumes step_inv: "inv s \<Longrightarrow> inv (step c s)"
begin

lemma run_inv: "inv s \<Longrightarrow> inv (run_machine step cs s)"
  by (induction cs arbitrary: s) (auto intro: step_inv)

lemma run_always: "inv s \<Longrightarrow> (\<And>t. inv t \<Longrightarrow> P t) \<Longrightarrow> P (run_machine step cs s)"
  by (blast intro: run_inv)

end

text \<open>A machine that also never decreases a measure of its state (a counter, a history).\<close>

locale growing_machine = safe_machine step inv
  for step :: "'c \<Rightarrow> 's \<Rightarrow> 's" and inv :: "'s \<Rightarrow> bool" +
  fixes grows :: "'s \<Rightarrow> 's \<Rightarrow> bool"
  assumes grows_refl: "grows s s"
    and grows_trans: "grows s t \<Longrightarrow> grows t u \<Longrightarrow> grows s u"
    and step_grows: "inv s \<Longrightarrow> grows s (step c s)"
begin

lemma run_grows: "inv s \<Longrightarrow> grows s (run_machine step cs s)"
proof (induction cs arbitrary: s)
  case Nil
  then show ?case by (simp add: grows_refl)
next
  case (Cons c cs)
  then have "grows s (step c s)" "inv (step c s)"
    by (auto intro: step_grows step_inv)
  with Cons.IH [of "step c s"] show ?case by (auto intro: grows_trans)
qed

end

end
