(* ===== verification/Money.thy ===== *)
theory Money
  imports Sql_Tx
begin

text \<open>
  Amounts of money. A minor unit is a cent; the ledger counts in units of
  \<open>1/86400\<close> cent so that a daily rate divides into seconds exactly. This theory
  holds the conversions and decimal readers of \<open>src/src/market_common.rs\<close>,
  \<open>src/src/market_wallet.rs\<close> and \<open>src/src/market_wallet_policy.rs\<close>.
\<close>

definition MONEY_UNITS_PER_MINOR :: int where
  "MONEY_UNITS_PER_MINOR = 86400"

definition USD_CNY_RATE_SCALE :: int where
  "USD_CNY_RATE_SCALE = 1000000"

definition MIN_USD_CNY_RATE_MICROS :: int where
  "MIN_USD_CNY_RATE_MICROS = USD_CNY_RATE_SCALE div 100"

definition MAX_USD_CNY_RATE_MICROS :: int where
  "MAX_USD_CNY_RATE_MICROS = 100 * USD_CNY_RATE_SCALE"

definition MAX_CLIENT_TRIAL_HOURS :: int where
  "MAX_CLIENT_TRIAL_HOURS = 720"

definition validate_client_trial_hours :: "int option \<Rightarrow> int option result" where
  "validate_client_trial_hours hours =
     (case hours of
        Some h \<Rightarrow> if \<not> (0 \<le> h \<and> h \<le> MAX_CLIENT_TRIAL_HOURS)
                   then Inl (BadRequest ''Client trial hours must be between 0 and 720'')
                   else Inr hours
      | None \<Rightarrow> Inr hours)"

definition ceil_minor :: "int \<Rightarrow> int" where
  "ceil_minor amount_units =
     (if amount_units \<le> 0 then 0
      else amount_units div MONEY_UNITS_PER_MINOR
           + (if amount_units mod MONEY_UNITS_PER_MINOR \<noteq> 0 then 1 else 0))"

definition floor_minor :: "int \<Rightarrow> int" where
  "floor_minor amount_units = max amount_units 0 div MONEY_UNITS_PER_MINOR"

definition ceil_minor_units :: "int \<Rightarrow> int" where
  "ceil_minor_units amount_units = ceil_minor amount_units"

definition floor_minor_units :: "int \<Rightarrow> int" where
  "floor_minor_units amount_units = floor_minor amount_units"

definition parse_usd_cny_rate_micros :: "string \<Rightarrow> string + int" where
  "parse_usd_cny_rate_micros value =
     (let trimmed = trim value;
          (whole, fraction) = (case split_once CHR ''.'' trimmed of
              Some (w, f) \<Rightarrow> (w, Some f) | None \<Rightarrow> (trimmed, None))
      in if whole = [] \<or> \<not> all_digits whole
            \<or> (case fraction of None \<Rightarrow> False
                | Some f \<Rightarrow> f = [] \<or> length f > 6 \<or> \<not> all_digits f)
         then Inl ''USD/CNY rate must be a decimal with at most 6 fractional digits''
         else (case parse_i64 whole of
             None \<Rightarrow> Inl ''USD/CNY rate is too large''
           | Some w \<Rightarrow>
              (let f = (case fraction of None \<Rightarrow> [] | Some f \<Rightarrow> f)
               in case (if f = [] then Some 0
                        else map_option (\<lambda>v. v * 10 ^ (6 - length f)) (parse_i64 f)) of
                    None \<Rightarrow> Inl ''USD/CNY rate fraction is invalid''
                  | Some micros \<Rightarrow>
                     (case Option.bind (checked_mul64 w USD_CNY_RATE_SCALE)
                             (\<lambda>v. checked_add64 v micros) of
                        None \<Rightarrow> Inl ''USD/CNY rate is too large''
                      | Some rate \<Rightarrow>
                         if MIN_USD_CNY_RATE_MICROS \<le> rate \<and> rate \<le> MAX_USD_CNY_RATE_MICROS
                         then Inr rate
                         else Inl ''USD/CNY rate must be between 0.01 and 100''))))"

definition parse_usd_minor :: "string \<Rightarrow> int result" where
  "parse_usd_minor raw =
     (let (whole, fractional) = (case split_once CHR ''.'' raw of
              Some p \<Rightarrow> p | None \<Rightarrow> (raw, []))
      in if whole = [] \<or> \<not> all_digits whole \<or> length fractional > 2
            \<or> \<not> all_digits fractional \<or> count_list raw CHR ''.'' > 1
         then Inl (BadRequest ''invalid USD amount'')
         else (case parse_i64 whole of
             None \<Rightarrow> Inl (BadRequest ''USD amount is too large'')
           | Some dollars \<Rightarrow>
              (case (if length fractional = 0 then Some 0
                     else if length fractional = 1 then Some (digit_of (hd fractional) * 10)
                     else parse_i64 fractional) of
                 None \<Rightarrow> Inl (BadRequest ''invalid USD amount'')
               | Some cents \<Rightarrow>
                  (case Option.bind (checked_mul64 dollars 100) (\<lambda>v. checked_add64 v cents) of
                     None \<Rightarrow> Inl (BadRequest ''USD amount is too large'')
                   | Some minor \<Rightarrow> Inr minor))))"

definition units_from_minor :: "int \<Rightarrow> int result" where
  "units_from_minor amount_minor =
     (if amount_minor \<le> 0 then Inl (BadRequest ''amount must be positive'')
      else (case checked_mul64 amount_minor MONEY_UNITS_PER_MINOR of
          None \<Rightarrow> Inl (BadRequest ''amount is too large'')
        | Some units \<Rightarrow> Inr units))"

definition topup_amounts :: "int \<Rightarrow> int \<Rightarrow> (int \<times> int) result" where
  "topup_amounts credit_minor rate_bps =
     (if credit_minor \<le> 0 \<or> \<not> (0 \<le> rate_bps \<and> rate_bps \<le> 10000)
      then Inl (BadRequest ''invalid top-up amount or maintenance rate'')
      else (case checked_i64 ((credit_minor * rate_bps + 5000) div 10000) of
          None \<Rightarrow> Inl (BadRequest ''top-up fee overflow'')
        | Some fee \<Rightarrow>
           (case checked_add64 credit_minor fee of
              None \<Rightarrow> Inl (BadRequest ''top-up total overflow'')
            | Some pay \<Rightarrow>
               (case units_from_minor pay of
                  Inl e \<Rightarrow> Inl e
                | Inr _ \<Rightarrow> Inr (fee, pay)))))"


section \<open>Rounding\<close>

lemma units_from_minor_Inr:
  "units_from_minor m = Inr u \<longleftrightarrow> 0 < m \<and> in_i64 (m * MONEY_UNITS_PER_MINOR) \<and> u = m * MONEY_UNITS_PER_MINOR"
  by (auto simp: units_from_minor_def i64_simps split: option.splits)

lemma units_from_minor_pos: "units_from_minor m = Inr u \<Longrightarrow> 0 < u \<and> u \<le> i64_max \<and> 0 < m"
  by (auto simp: units_from_minor_Inr MONEY_UNITS_PER_MINOR_def in_i64_def)

text \<open>
  Exact rounding: the two roundings enclose the amount, meet on whole cents, and
  undo the conversion from cents.
\<close>

lemma minor_rounding_encloses:
  assumes "0 \<le> u"
  shows "floor_minor_units u * MONEY_UNITS_PER_MINOR \<le> u"
    and "u \<le> ceil_minor_units u * MONEY_UNITS_PER_MINOR"
    and "ceil_minor_units u - floor_minor_units u
           = (if u mod MONEY_UNITS_PER_MINOR = 0 then 0 else 1)"
proof -
  have e: "u = u div 86400 * 86400 + u mod 86400" by simp
  have b: "0 \<le> u mod 86400" "u mod 86400 < 86400" by simp_all
  note defs = floor_minor_units_def floor_minor_def ceil_minor_units_def ceil_minor_def
    MONEY_UNITS_PER_MINOR_def
  show "floor_minor_units u * MONEY_UNITS_PER_MINOR \<le> u"
    using e b assms by (simp add: defs)
  show "u \<le> ceil_minor_units u * MONEY_UNITS_PER_MINOR"
  proof (cases "u mod 86400 = 0")
    case True
    then have "u = u div 86400 * 86400" using e by linarith
    with True assms show ?thesis by (simp add: defs)
  next
    case False
    then have "u \<le> u div 86400 * 86400 + 86400" using e b by linarith
    with False assms show ?thesis by (simp add: defs)
  qed
  show "ceil_minor_units u - floor_minor_units u = (if u mod MONEY_UNITS_PER_MINOR = 0 then 0 else 1)"
    using assms by (simp add: defs)
qed

text \<open>Rounding half up of \<open>amount * rate / 10000\<close>, the one rule of both fee schedules.\<close>

definition half_up_bps :: "int \<Rightarrow> int \<Rightarrow> int" where
  "half_up_bps amount bps = (amount * bps + 5000) div 10000"

lemma half_up_bps_bounds:
  assumes "0 \<le> amount" "0 \<le> bps" "bps \<le> 10000"
  shows "0 \<le> half_up_bps amount bps" "half_up_bps amount bps \<le> amount"
    and "\<bar>10000 * half_up_bps amount bps - amount * bps\<bar> \<le> 5000"
proof -
  have 0: "0 \<le> amount * bps" using assms by simp
  have 1: "amount * bps \<le> amount * 10000" using assms by (intro mult_left_mono) auto
  show "0 \<le> half_up_bps amount bps" using 0 by (simp add: half_up_bps_def)
  show "half_up_bps amount bps \<le> amount" using 1 by (simp add: half_up_bps_def)
  have e: "10000 * ((amount * bps + 5000) div 10000) + (amount * bps + 5000) mod 10000 = amount * bps + 5000"
    by (rule mult_div_mod_eq)
  have m: "0 \<le> (amount * bps + 5000) mod 10000" "(amount * bps + 5000) mod 10000 < 10000" by simp_all
  from e m show "\<bar>10000 * half_up_bps amount bps - amount * bps\<bar> \<le> 5000"
    unfolding half_up_bps_def by linarith
qed

lemma half_up_bps_mono:
  assumes "a \<le> b" "0 \<le> bps"
  shows "half_up_bps a bps \<le> half_up_bps b bps"
  using assms by (simp add: half_up_bps_def mult_right_mono zdiv_mono1)

text \<open>The increments of the rounded fee are themselves between 0 and the amount added.\<close>

lemma half_up_bps_step:
  assumes "0 \<le> d" "0 \<le> bps" "bps \<le> 10000"
  shows "0 \<le> half_up_bps (a + d) bps - half_up_bps a bps"
    and "half_up_bps (a + d) bps - half_up_bps a bps \<le> d"
proof -
  show "0 \<le> half_up_bps (a + d) bps - half_up_bps a bps"
    using half_up_bps_mono [of a "a + d" bps] assms by simp
  have "d * bps \<le> d * 10000" using assms by (intro mult_left_mono) auto
  then have "(a + d) * bps + 5000 \<le> (a * bps + 5000) + 10000 * d"
    by (simp add: algebra_simps)
  then have "half_up_bps (a + d) bps \<le> (a * bps + 5000 + 10000 * d) div 10000"
    unfolding half_up_bps_def by (rule zdiv_mono1) simp
  also have "\<dots> = half_up_bps a bps + d" by (simp add: half_up_bps_def)
  finally show "half_up_bps (a + d) bps - half_up_bps a bps \<le> d" by simp
qed

lemma topup_amounts_Inr:
  assumes "topup_amounts credit bps = Inr (fee, pay)"
  shows "0 < credit" "0 \<le> bps" "bps \<le> 10000" "fee = half_up_bps credit bps" "pay = credit + fee"
    and "in_i64 (pay * MONEY_UNITS_PER_MINOR)"
  using assms
  by (auto simp: topup_amounts_def half_up_bps_def i64_simps units_from_minor_Inr
      split: if_splits option.splits sum.splits)


section \<open>Decimal amounts\<close>

text \<open>The text of an amount in cents as the interfaces print it: dollars, a point, two digits.\<close>

definition print_usd_minor :: "int \<Rightarrow> string" where
  "print_usd_minor m =
     show_int (m div 100) @ ''.'' @ [digit_char (nat (m div 10 mod 10)), digit_char (nat (m mod 10))]"

lemma digits_val_Cons2: "digits_val [a, b] = 10 * digit_of a + digit_of b"
  using digits_val_snoc [of "[a]" b] digits_val_snoc [of "[]" a] by simp

lemma all_digits_no_point: "all_digits s \<Longrightarrow> CHR ''.'' \<notin> set s"
  by (induction s) (auto dest: digit_ne_sep)

lemma digits_no_point [simp]: "CHR ''.'' \<notin> set (show_nat n)"
  by (simp add: all_digits_no_point)

lemma parse_two_digits:
  assumes "is_ascii_digit a" "is_ascii_digit b"
  shows "parse_i64 [a, b] = Some (10 * digit_of a + digit_of b)"
proof -
  have "in_i64 (10 * digit_of a + digit_of b)"
    using digit_of_nonneg [OF assms(1)] digit_of_nonneg [OF assms(2)] by (simp add: i64_defs)
  with assms show ?thesis
    by (simp add: parse_i64_def parse_signed_digits digits_val_Cons2)
qed

text \<open>Reading an accepted text gives the value of its digits, in cents.\<close>

lemma parse_usd_minor_sound:
  assumes "parse_usd_minor raw = Inr m"
  shows "in_i64 m" "0 \<le> m"
    and "\<exists>whole frac. (raw = whole @ ''.'' @ frac \<or> raw = whole \<and> frac = [])
           \<and> whole \<noteq> [] \<and> all_digits whole \<and> all_digits frac \<and> length frac \<le> 2
           \<and> m = 100 * digits_val whole + digits_val (frac @ replicate (2 - length frac) CHR ''0'')"
proof -
  obtain whole frac where raw: "raw = whole @ ''.'' @ frac \<or> raw = whole \<and> frac = []"
    and sp: "(case split_once CHR ''.'' raw of Some p \<Rightarrow> p | None \<Rightarrow> (raw, [])) = (whole, frac)"
    by (cases "split_once CHR ''.'' raw") (auto dest: split_once_SomeD)
  from assms sp have ok: "whole \<noteq> []" "all_digits whole" "length frac \<le> 2" "all_digits frac"
    by (auto simp: parse_usd_minor_def Let_def split: if_splits)
  define cents where "cents = (if length frac = 0 then Some 0
     else if length frac = 1 then Some (digit_of (hd frac) * 10) else parse_i64 frac)"
  from assms sp obtain d c where d: "parse_i64 whole = Some d" and c: "cents = Some c"
    and m: "m = d * 100 + c" "in_i64 m"
    by (auto simp: parse_usd_minor_def Let_def cents_def i64_simps Option.bind_eq_Some_conv split: if_splits option.splits)
  from d ok have d': "d = digits_val whole" "0 \<le> d"
    using digits_val_bounds [of whole]
    by (auto simp: parse_i64_def parse_signed_digits split: if_splits)
  have digit0: "digit_of CHR ''0'' = 0" "is_ascii_digit CHR ''0''"
    by (simp_all add: digit_of_def is_ascii_digit_def)
  have c': "c = digits_val (frac @ replicate (2 - length frac) CHR ''0'')" "0 \<le> c"
  proof -
    consider "frac = []" | a where "frac = [a]" | a b where "frac = [a, b]"
      using ok(3) by (cases frac; cases "tl frac") (auto simp: length_Suc_conv)
    then have "c = digits_val (frac @ replicate (2 - length frac) CHR ''0'') \<and> 0 \<le> c"
    proof cases
      case 1
      then show ?thesis using c digits_val_Cons2 [of "CHR ''0''" "CHR ''0''"]
        by (simp add: cents_def digit0 numeral_2_eq_2)
    next
      case (2 a)
      then show ?thesis using c ok(4) digits_val_Cons2 [of a "CHR ''0''"] digit_of_nonneg [of a]
        by (simp add: cents_def digit0)
    next
      case (3 a b)
      then show ?thesis
        using c ok(4) parse_two_digits [of a b] digits_val_Cons2 [of a b]
          digit_of_nonneg [of a] digit_of_nonneg [of b]
        by (simp add: cents_def)
    qed
    then show "c = digits_val (frac @ replicate (2 - length frac) CHR ''0'')" "0 \<le> c" by auto
  qed
  show "in_i64 m" by (rule m(2))
  show "0 \<le> m" using m(1) d'(2) c'(2) by simp
  show "\<exists>whole frac. (raw = whole @ ''.'' @ frac \<or> raw = whole \<and> frac = [])
           \<and> whole \<noteq> [] \<and> all_digits whole \<and> all_digits frac \<and> length frac \<le> 2
           \<and> m = 100 * digits_val whole + digits_val (frac @ replicate (2 - length frac) CHR ''0'')"
    by (rule exI [of _ whole], rule exI [of _ frac]) (use raw ok m(1) d'(1) c'(1) in simp)
qed

lemma parse_print_usd_minor:
  assumes "0 \<le> m" "m \<le> i64_max"
  shows "parse_usd_minor (print_usd_minor m) = Inr m"
proof -
  define a where "a = digit_char (nat (m div 10 mod 10))"
  define b where "b = digit_char (nat (m mod 10))"
  have w: "show_int (m div 100) = show_nat (nat (m div 100))"
    using assms by (simp add: show_int_def)
  have nb: "nat (m div 10 mod 10) < 10" "nat (m mod 10) < 10" by simp_all
  then have ab: "is_ascii_digit a" "is_ascii_digit b"
    and dg: "digit_of a = m div 10 mod 10" "digit_of b = m mod 10"
    using assms by (simp_all add: a_def b_def)
  have raw: "print_usd_minor m = show_nat (nat (m div 100)) @ CHR ''.'' # [a, b]"
    by (simp add: print_usd_minor_def w a_def b_def)
  have ne: "a \<noteq> CHR ''.''" "b \<noteq> CHR ''.''" using ab by (auto dest: digit_ne_sep)
  have cnt: "count_list (print_usd_minor m) CHR ''.'' = 1"
    by (simp add: raw ne)
  have e: "100 * (m div 100) + m mod 100 = m" "0 \<le> m mod 100" by simp_all
  have q: "0 \<le> m div 100" "m div 100 \<le> m" "m div 100 * 100 \<le> m"
    using assms(1) e by (simp_all add: pos_imp_zdiv_nonneg_iff)
  have p1: "parse_i64 (show_nat (nat (m div 100))) = Some (m div 100)"
    using assms q by (simp add: parse_i64_def parse_signed_digits in_i64_def i64_min_def)
  have v: "m div 100 * 100 + (10 * (m div 10 mod 10) + m mod 10) = m"
  proof -
    have "m mod 100 = 10 * (m div 10 mod 10) + m mod 10"
      using zmod_zmult2_eq [of 10 m 10] by simp
    with e(1) show ?thesis by linarith
  qed
  have "in_i64 (m div 100 * 100)" "in_i64 m"
    using assms q by (simp_all add: in_i64_def i64_min_def)
  then have "Option.bind (checked_mul64 (m div 100) 100)
      (\<lambda>v. checked_add64 v (10 * digit_of a + digit_of b)) = Some m"
    using v by (simp add: checked_mul64_def checked_add64_def checked_i64_def dg)
  then show ?thesis
    using ab cnt p1 parse_two_digits [OF ab]
    by (simp add: parse_usd_minor_def raw split_once_append)
qed

end
