(* ===== verification/Wallet_Journal.thy ===== *)
theory Wallet_Journal
  imports Money
begin

text \<open>
  The tables of the platform wallet and its double-entry journal
  (\<open>src/src/market_wallet.rs\<close>; constraints and triggers from
  \<open>src/schema/0053\<close>, \<open>0075\<close> and \<open>0076\<close>). A statement that breaks a
  CHECK, a UNIQUE key or a trigger fails the operation. The random identifiers
  of the \<open>uuid\<close> library are a parameter: the tables carry an arbitrary supply of
  them, and nothing is assumed about it (a repeated identifier breaks a primary
  key and fails the operation).
\<close>


section \<open>Rows\<close>

record posting =
  p_kind :: string
  p_subject :: string
  p_units :: int

record journal_result =
  jr_id :: string
  jr_inserted :: bool

record journal_row =
  j_id :: string
  j_source_kind :: string
  j_source_id :: string
  j_action :: string
  j_asset :: string
  j_fingerprint :: string
  j_created_at :: string

record posting_row =
  pr_id :: string
  pr_journal :: string
  pr_kind :: string
  pr_subject :: string
  pr_asset :: string
  pr_units :: int
  pr_created_at :: string

record seal_row =
  s_journal :: string
  s_count :: int
  s_sealed_at :: string

record wallet_row =
  w_posted :: int
  w_held :: int
  w_version :: int
  w_created_at :: string
  w_updated_at :: string

datatype hold_status = Active | Captured | Released

record hold_row =
  h_id :: string
  h_user :: string
  h_source_kind :: string
  h_source_id :: string
  h_purpose :: string
  h_amount :: int
  h_remaining :: int
  h_status :: hold_status
  h_created_at :: string
  h_updated_at :: string
  h_expires_at :: "string option"

record topup_order =
  t_amount_minor :: int
  t_credit_amount_minor :: "int option"
  t_platform_fee_minor :: int

record owner_action =
  oa_id :: string
  oa_order :: string
  oa_action :: string
  oa_actor :: string
  oa_amount_minor :: int
  oa_shortfall_minor :: int
  oa_evidence :: string
  oa_reason :: string
  oa_journal :: string
  oa_created_at :: string

record wallet_db =
  uuid_supply :: "nat \<Rightarrow> string"
  uuid_drawn :: nat
  wallets :: "string \<rightharpoonup> wallet_row"
  journals :: "journal_row list"
  postings :: "posting_row list"
  seals :: "seal_row list"
  holds :: "hold_row list"
  topup_orders :: "string \<rightharpoonup> topup_order"
  owner_actions :: "owner_action list"

definition account_kinds :: "string list" where
  "account_kinds =
     [''owner_clearing'', ''wallet_available'', ''wallet_held'', ''unfulfilled'',
      ''provider_pending'', ''provider_available'', ''provider_held'',
      ''buyer_refund_held'', ''owner_loss'', ''platform_fee_revenue'',
      ''platform_commission_pending'', ''platform_commission_revenue'']"


section \<open>Statements\<close>

definition new_v4 :: "('a wallet_db_scheme, string) tx" where
  "new_v4 s = Inr (uuid_supply s (uuid_drawn s), s\<lparr>uuid_drawn := Suc (uuid_drawn s)\<rparr>)"

definition find_journal :: "string \<Rightarrow> string \<Rightarrow> string \<Rightarrow> 'a wallet_db_scheme \<Rightarrow> journal_row option" where
  "find_journal source_kind source_id action s =
     find (\<lambda>j. j_source_kind j = source_kind \<and> j_source_id j = source_id \<and> j_action j = action)
       (journals s)"

definition insert_journal_tx :: "journal_row \<Rightarrow> ('a wallet_db_scheme, unit) tx" where
  "insert_journal_tx j s =
     (if j_id j \<in> set (map j_id (journals s))
         \<or> find_journal (j_source_kind j) (j_source_id j) (j_action j) s \<noteq> None
         \<or> j_asset j \<noteq> ''USD''
      then Inl (db_error ''insert market journal'' (Database ''market_journal_transactions''))
      else Inr ((), s\<lparr>journals := journals s @ [j]\<rparr>))"

definition insert_posting_tx :: "posting_row \<Rightarrow> ('a wallet_db_scheme, unit) tx" where
  "insert_posting_tx p s =
     (if pr_id p \<in> set (map pr_id (postings s))
         \<or> pr_kind p \<notin> set account_kinds \<or> pr_asset p \<noteq> ''USD'' \<or> pr_units p = 0
         \<or> pr_journal p \<in> set (map s_journal (seals s))
      then Inl (db_error ''insert market posting'' (Database ''market_journal_postings''))
      else Inr ((), s\<lparr>postings := postings s @ [p]\<rparr>))"

definition journal_postings :: "string \<Rightarrow> 'a wallet_db_scheme \<Rightarrow> posting_row list" where
  "journal_postings jid s = filter (\<lambda>p. pr_journal p = jid) (postings s)"

text \<open>The seal trigger counts, sums and compares the asset of the postings it seals.\<close>

definition insert_seal_tx :: "seal_row \<Rightarrow> ('a wallet_db_scheme, unit) tx" where
  "insert_seal_tx x s =
     (let rows = journal_postings (s_journal x) s
      in if s_journal x \<in> set (map s_journal (seals s)) \<or> s_count x < 2
            \<or> int (length rows) \<noteq> s_count x
            \<or> sql_sum (map pr_units rows) \<noteq> Some 0
            \<or> (\<exists>p \<in> set rows. \<exists>j \<in> set (journals s). j_id j = pr_journal p \<and> pr_asset p \<noteq> j_asset j)
         then Inl (db_error ''seal market journal'' (Database ''market_journal_seals''))
         else Inr ((), s\<lparr>seals := seals s @ [x]\<rparr>))"


section \<open>Posting a journal\<close>

definition existing_journal_tx ::
  "string \<Rightarrow> string \<Rightarrow> string \<Rightarrow> string \<Rightarrow> ('a wallet_db_scheme, journal_result option) tx" where
  "existing_journal_tx source_kind source_id action fingerprint s =
     (case find_journal source_kind source_id action s of
        None \<Rightarrow> Inr (None, s)
      | Some j \<Rightarrow>
         if j_fingerprint j \<noteq> fingerprint
         then Inl (Conflict ''market journal idempotency conflict'')
         else Inr (Some \<lparr>jr_id = j_id j, jr_inserted = False\<rparr>, s))"

fun insert_postings_tx :: "string \<Rightarrow> string \<Rightarrow> posting list \<Rightarrow> ('a wallet_db_scheme, unit) tx" where
  "insert_postings_tx jid now [] = return_tx ()"
| "insert_postings_tx jid now (p # ps) =
     bind_tx new_v4 (\<lambda>pid.
     bind_tx (insert_posting_tx \<lparr>pr_id = pid, pr_journal = jid, pr_kind = p_kind p,
         pr_subject = p_subject p, pr_asset = ''USD'', pr_units = p_units p, pr_created_at = now\<rparr>)
       (\<lambda>_. insert_postings_tx jid now ps))"

definition postings_balanced :: "posting list \<Rightarrow> bool" where
  "postings_balanced ps \<longleftrightarrow>
     \<not> (length ps < 2
        \<or> (\<exists>p \<in> set ps. p_kind p = [] \<or> p_subject p = [] \<or> p_units p = 0)
        \<or> sum_list (map p_units ps) \<noteq> 0)"

definition post_journal_tx ::
  "string \<Rightarrow> string \<Rightarrow> string \<Rightarrow> string \<Rightarrow> posting list \<Rightarrow> string
     \<Rightarrow> ('a wallet_db_scheme, journal_result) tx" where
  "post_journal_tx source_kind source_id action fingerprint ps now =
     (if source_kind = [] \<or> source_id = [] \<or> action = [] \<or> fingerprint = []
      then fail_tx (Internal ''market journal source is incomplete'')
      else bind_tx (existing_journal_tx source_kind source_id action fingerprint) (\<lambda>existing.
        case existing of
          Some r \<Rightarrow> return_tx r
        | None \<Rightarrow>
           if \<not> postings_balanced ps then fail_tx (Internal ''unbalanced market journal'')
           else bind_tx new_v4 (\<lambda>jid.
             bind_tx (insert_journal_tx \<lparr>j_id = jid, j_source_kind = source_kind,
                 j_source_id = source_id, j_action = action, j_asset = ''USD'',
                 j_fingerprint = fingerprint, j_created_at = now\<rparr>) (\<lambda>_.
             bind_tx (insert_postings_tx jid now ps) (\<lambda>_.
             bind_tx (insert_seal_tx \<lparr>s_journal = jid, s_count = int (length ps), s_sealed_at = now\<rparr>)
               (\<lambda>_. return_tx \<lparr>jr_id = jid, jr_inserted = True\<rparr>))))))"


section \<open>Balances read from the journal\<close>

definition row_posting :: "posting_row \<Rightarrow> posting" where
  "row_posting r = \<lparr>p_kind = pr_kind r, p_subject = pr_subject r, p_units = pr_units r\<rparr>"

definition acct_rows :: "string \<Rightarrow> string \<Rightarrow> 'a wallet_db_scheme \<Rightarrow> int list" where
  "acct_rows kind subject s =
     map pr_units (filter (\<lambda>p. pr_kind p = kind \<and> pr_subject p = subject) (postings s))"

definition acct_units :: "string \<Rightarrow> string \<Rightarrow> posting list \<Rightarrow> int list" where
  "acct_units kind subject ps =
     map p_units (filter (\<lambda>p. p_kind p = kind \<and> p_subject p = subject) ps)"

abbreviation acct_sum :: "string \<Rightarrow> string \<Rightarrow> 'a wallet_db_scheme \<Rightarrow> int" where
  "acct_sum kind subject s \<equiv> sum_list (acct_rows kind subject s)"

definition journal_total :: "'a wallet_db_scheme \<Rightarrow> int" where
  "journal_total s = sum_list (map pr_units (postings s))"


subsection \<open>What posting does to the tables\<close>

lemma new_v4_Inr [tx_simps]:
  "new_v4 s = Inr (x, t) \<longleftrightarrow> x = uuid_supply s (uuid_drawn s) \<and> t = s\<lparr>uuid_drawn := Suc (uuid_drawn s)\<rparr>"
  by (auto simp: new_v4_def)

lemma insert_posting_tx_Inr [tx_simps]:
  "insert_posting_tx p s = Inr (x, t) \<longleftrightarrow>
     pr_id p \<notin> pr_id ` set (postings s) \<and> pr_kind p \<in> set account_kinds \<and> pr_asset p = ''USD''
     \<and> pr_units p \<noteq> 0 \<and> pr_journal p \<notin> s_journal ` set (seals s)
     \<and> t = s\<lparr>postings := postings s @ [p]\<rparr>"
  by (auto simp: insert_posting_tx_def)

lemma insert_postings_tx_Inr:
  assumes "insert_postings_tx jid now ps s = Inr (x, t)"
  shows "\<exists>n rows. t = s\<lparr>uuid_drawn := n, postings := postings s @ rows\<rparr>
      \<and> map row_posting rows = ps
      \<and> (\<forall>r \<in> set rows. pr_journal r = jid \<and> pr_kind r \<in> set account_kinds \<and> pr_units r \<noteq> 0
            \<and> pr_asset r = ''USD'')
      \<and> (distinct (map pr_id (postings s)) \<longrightarrow> distinct (map pr_id (postings s @ rows)))"
  using assms
proof (induction ps arbitrary: s)
  case Nil
  then show ?case
    by (intro exI [of _ "uuid_drawn s"] exI [of _ "[]"]) (simp add: tx_simps)
next
  case (Cons p ps)
  define row where "row = \<lparr>pr_id = uuid_supply s (uuid_drawn s), pr_journal = jid,
    pr_kind = p_kind p, pr_subject = p_subject p, pr_asset = ''USD'',
    pr_units = p_units p, pr_created_at = now\<rparr>"
  define u where "u = s\<lparr>uuid_drawn := Suc (uuid_drawn s), postings := postings s @ [row]\<rparr>"
  from Cons.prems have fresh: "pr_id row \<notin> pr_id ` set (postings s)"
    and row: "p_kind p \<in> set account_kinds" "p_units p \<noteq> 0"
    and rest: "insert_postings_tx jid now ps u = Inr (x, t)"
    by (auto simp: tx_simps row_def u_def)
  from Cons.IH [OF rest] obtain n rows where
    t: "t = u\<lparr>uuid_drawn := n, postings := postings u @ rows\<rparr>"
    and m: "map row_posting rows = ps"
    and a: "\<forall>r \<in> set rows. pr_journal r = jid \<and> pr_kind r \<in> set account_kinds \<and> pr_units r \<noteq> 0
            \<and> pr_asset r = ''USD''"
    and d: "distinct (map pr_id (postings u)) \<longrightarrow> distinct (map pr_id (postings u @ rows))"
    by blast
  from fresh have d': "distinct (map pr_id (postings s)) \<longrightarrow> distinct (map pr_id (postings s @ row # rows))"
    using d by (auto simp: u_def)
  show ?case
    by (intro exI [of _ n] exI [of _ "row # rows"] conjI)
      (use t m a d' row in \<open>auto simp: u_def row_def row_posting_def\<close>)
qed

text \<open>
  \<open>posted s jid ps t\<close>: the tables \<open>t\<close> are \<open>s\<close> with one new journal \<open>jid\<close> whose
  postings are \<open>ps\<close>, sealed. Everything clients need of a fresh posting is in it.
\<close>

definition posted ::
  "'a wallet_db_scheme \<Rightarrow> journal_row \<Rightarrow> posting list \<Rightarrow> 'a wallet_db_scheme \<Rightarrow> bool" where
  "posted s j ps t \<longleftrightarrow>
     (\<exists>n rows.
        t = s\<lparr>uuid_drawn := n, journals := journals s @ [j], postings := postings s @ rows,
              seals := seals s @ [\<lparr>s_journal = j_id j, s_count = int (length ps),
                                   s_sealed_at = j_created_at j\<rparr>]\<rparr>
      \<and> map row_posting rows = ps
      \<and> (\<forall>r \<in> set rows. pr_journal r = j_id j \<and> pr_kind r \<in> set account_kinds \<and> pr_units r \<noteq> 0)
      \<and> j_id j \<notin> j_id ` set (journals s)
      \<and> j_id j \<notin> s_journal ` set (seals s)
      \<and> find_journal (j_source_kind j) (j_source_id j) (j_action j) s = None
      \<and> (distinct (map pr_id (postings s)) \<longrightarrow> distinct (map pr_id (postings s @ rows)))
      \<and> journal_postings (j_id j) s = []
      \<and> postings_balanced ps)"

lemma post_journal_tx_cases:
  assumes "post_journal_tx sk sid act fp ps now s = Inr (r, t)"
  obtains (replay) j where "find_journal sk sid act s = Some j" "j_fingerprint j = fp"
      "r = \<lparr>jr_id = j_id j, jr_inserted = False\<rparr>" "t = s"
  | (fresh) j where "find_journal sk sid act s = None" "jr_inserted r" "jr_id r = j_id j"
      "j_source_kind j = sk" "j_source_id j = sid" "j_action j = act" "j_fingerprint j = fp"
      "j_created_at j = now" "j_asset j = ''USD''" "posted s j ps t"
proof (cases "find_journal sk sid act s")
  case (Some j)
  with assms have "j_fingerprint j = fp" "r = \<lparr>jr_id = j_id j, jr_inserted = False\<rparr>" "t = s"
    by (auto simp: post_journal_tx_def existing_journal_tx_def tx_simps split: if_splits)
  with Some replay show thesis by blast
next
  case None
  define jid where "jid = uuid_supply s (uuid_drawn s)"
  define j where "j = \<lparr>j_id = jid, j_source_kind = sk, j_source_id = sid, j_action = act,
    j_asset = ''USD'', j_fingerprint = fp, j_created_at = now\<rparr>"
  define s1 where "s1 = s\<lparr>uuid_drawn := Suc (uuid_drawn s), journals := journals s @ [j]\<rparr>"
  from assms None obtain v where bal: "postings_balanced ps"
    and jr: "jid \<notin> j_id ` set (journals s)"
    and ins: "insert_postings_tx jid now ps s1 = Inr ((), v)"
    and seal: "insert_seal_tx \<lparr>s_journal = jid, s_count = int (length ps), s_sealed_at = now\<rparr> v = Inr ((), t)"
    and r: "r = \<lparr>jr_id = jid, jr_inserted = True\<rparr>"
    by (auto simp: post_journal_tx_def existing_journal_tx_def insert_journal_tx_def tx_simps
        jid_def j_def s1_def split: if_splits)
  from insert_postings_tx_Inr [OF ins] obtain n rows where
    v: "v = s1\<lparr>uuid_drawn := n, postings := postings s1 @ rows\<rparr>"
    and m: "map row_posting rows = ps"
    and a: "\<forall>q \<in> set rows. pr_journal q = jid \<and> pr_kind q \<in> set account_kinds \<and> pr_units q \<noteq> 0
            \<and> pr_asset q = ''USD''"
    and d: "distinct (map pr_id (postings s1)) \<longrightarrow> distinct (map pr_id (postings s1 @ rows))"
    by blast
  from m have len: "length rows = length ps" by auto
  from seal have t: "t = v\<lparr>seals := seals v @ [\<lparr>s_journal = jid, s_count = int (length ps), s_sealed_at = now\<rparr>]\<rparr>"
    and ns: "jid \<notin> s_journal ` set (seals v)"
    and cnt: "length (journal_postings jid v) = length ps"
    by (auto simp: insert_seal_tx_def Let_def split: if_splits)
  have jp: "journal_postings jid v = journal_postings jid s @ rows"
    using a by (simp add: v s1_def journal_postings_def)
  with cnt len have none: "journal_postings jid s = []" by simp
  have "posted s j ps t"
    unfolding posted_def
    by (intro exI [of _ n] exI [of _ rows])
      (use None bal jr t ns m a d v none in \<open>auto simp: s1_def j_def\<close>)
  with None r show thesis by (intro fresh [of j]) (auto simp: j_def)
qed

lemma acct_rows_posted:
  assumes "posted s j ps t"
  shows "acct_rows k u t = acct_rows k u s @ acct_units k u ps"
proof -
  from assms obtain rows where "postings t = postings s @ rows" "map row_posting rows = ps"
    by (auto simp: posted_def)
  then show ?thesis
    by (auto simp: acct_rows_def acct_units_def row_posting_def filter_map comp_def)
qed

lemma posted_frame:
  assumes "posted s j ps t"
  shows "wallets t = wallets s" "holds t = holds s" "topup_orders t = topup_orders s"
    "owner_actions t = owner_actions s" "wallet_db.more t = wallet_db.more s"
    "uuid_supply t = uuid_supply s" "journals t = journals s @ [j]"
  using assms by (auto simp: posted_def)

lemma posted_balanced: "posted s j ps t \<Longrightarrow> postings_balanced ps"
  by (auto simp: posted_def)

lemma posted_total: "posted s j ps t \<Longrightarrow> journal_total t = journal_total s"
proof -
  assume "posted s j ps t"
  then obtain rows where t: "postings t = postings s @ rows" and m: "map row_posting rows = ps"
    and b: "postings_balanced ps" by (auto simp: posted_def)
  have "sum_list (map pr_units rows) = sum_list (map p_units ps)"
    by (simp add: m [symmetric] row_posting_def comp_def)
  with b t show ?thesis by (simp add: journal_total_def postings_balanced_def)
qed

lemma find_append_None: "find P xs = None \<Longrightarrow> find P (xs @ ys) = find P ys"
  by (induction xs) (auto split: if_splits)

lemma find_journal_posted:
  assumes "posted s j ps t"
  shows "find_journal (j_source_kind j) (j_source_id j) (j_action j) t = Some j"
proof -
  from assms have "journals t = journals s @ [j]"
    and n: "find_journal (j_source_kind j) (j_source_id j) (j_action j) s = None"
    by (auto simp: posted_def)
  then show ?thesis by (auto simp: find_journal_def find_append_None)
qed

lemma find_journal_posted_mono:
  assumes "posted s j ps t" "find_journal a b c s = Some i"
  shows "find_journal a b c t = Some i"
proof -
  have "find P xs = Some i \<Longrightarrow> find P (xs @ ys) = Some i" for P and xs ys :: "journal_row list"
    by (induction xs) (auto split: if_splits)
  with assms show ?thesis by (auto simp: find_journal_def posted_frame(7))
qed


section \<open>Well-formed ledgers\<close>

definition journal_key :: "journal_row \<Rightarrow> string \<times> string \<times> string" where
  "journal_key j = (j_source_kind j, j_source_id j, j_action j)"

definition sealed_balanced :: "'a wallet_db_scheme \<Rightarrow> seal_row \<Rightarrow> bool" where
  "sealed_balanced s x \<longleftrightarrow>
     (let rows = journal_postings (s_journal x) s
      in s_count x = int (length rows) \<and> 2 \<le> s_count x \<and> sum_list (map pr_units rows) = 0)"

definition ledger_ok :: "'a wallet_db_scheme \<Rightarrow> bool" where
  "ledger_ok s \<longleftrightarrow>
     distinct (map j_id (journals s)) \<and> distinct (map journal_key (journals s))
     \<and> distinct (map pr_id (postings s))
     \<and> map s_journal (seals s) = map j_id (journals s)
     \<and> (\<forall>p \<in> set (postings s). pr_journal p \<in> j_id ` set (journals s) \<and> pr_units p \<noteq> 0)
     \<and> (\<forall>x \<in> set (seals s). sealed_balanced s x)
     \<and> journal_total s = 0"

lemma find_journal_None_key:
  "find_journal a b c s = None \<longleftrightarrow> (a, b, c) \<notin> journal_key ` set (journals s)"
  by (auto simp: find_journal_def find_None_iff journal_key_def)

lemma sum_row_posting: "sum_list (map pr_units rows) = sum_list (map p_units (map row_posting rows))"
  by (simp add: row_posting_def comp_def)

lemma ledger_ok_posted:
  assumes "posted s j ps t" "ledger_ok s"
  shows "ledger_ok t"
proof -
  from assms(1) obtain n rows where
    t: "t = s\<lparr>uuid_drawn := n, journals := journals s @ [j], postings := postings s @ rows,
          seals := seals s @ [\<lparr>s_journal = j_id j, s_count = int (length ps), s_sealed_at = j_created_at j\<rparr>]\<rparr>"
    and m: "map row_posting rows = ps"
    and a: "\<forall>r \<in> set rows. pr_journal r = j_id j \<and> pr_kind r \<in> set account_kinds \<and> pr_units r \<noteq> 0"
    and f: "j_id j \<notin> j_id ` set (journals s)" "j_id j \<notin> s_journal ` set (seals s)"
    and k: "find_journal (j_source_kind j) (j_source_id j) (j_action j) s = None"
    and d: "distinct (map pr_id (postings s)) \<longrightarrow> distinct (map pr_id (postings s @ rows))"
    and e: "journal_postings (j_id j) s = []"
    and b: "postings_balanced ps"
    by (auto simp: posted_def)
  have old: "journal_postings x t = journal_postings x s" if "x \<noteq> j_id j" for x
    using a that by (auto simp: journal_postings_def t filter_empty_conv)
  have new: "journal_postings (j_id j) t = rows"
    using a e by (auto simp: journal_postings_def t)
  have len: "length rows = length ps" using m by auto
  have "sealed_balanced t x" if "x \<in> set (seals t)" for x
  proof (cases "x \<in> set (seals s)")
    case True
    then have "s_journal x \<noteq> j_id j" using f(2) by force
    with True old assms(2) show ?thesis by (simp add: sealed_balanced_def ledger_ok_def)
  next
    case False
    with that t have "x = \<lparr>s_journal = j_id j, s_count = int (length ps), s_sealed_at = j_created_at j\<rparr>"
      by simp
    with new b len m sum_row_posting [of rows] show ?thesis
      by (auto simp: sealed_balanced_def postings_balanced_def)
  qed
  moreover have "journal_total t = 0"
    using posted_total [OF assms(1)] assms(2) by (simp add: ledger_ok_def)
  ultimately show ?thesis
    using assms(2) f k d a by (auto simp: ledger_ok_def t find_journal_None_key journal_key_def)
qed


section \<open>The contract of a double-entry journal\<close>

text \<open>
  What the financial components rely on when they post: a source that is already
  booked with the same fingerprint is answered from the book, one with another
  fingerprint is refused, and a new one appends exactly its balanced postings.
\<close>

locale double_entry =
  fixes post :: "string \<Rightarrow> string \<Rightarrow> string \<Rightarrow> string \<Rightarrow> posting list \<Rightarrow> string
      \<Rightarrow> ('s, journal_result) tx"
    and rows :: "string \<Rightarrow> string \<Rightarrow> 's \<Rightarrow> int list"
    and booked :: "string \<Rightarrow> string \<Rightarrow> string \<Rightarrow> 's \<Rightarrow> (string \<times> string) option"
  assumes post_source: "post sk sid act fp ps now s = Inr (r, t) \<Longrightarrow>
      sk \<noteq> [] \<and> sid \<noteq> [] \<and> act \<noteq> [] \<and> fp \<noteq> []"
    and post_known: "sk \<noteq> [] \<and> sid \<noteq> [] \<and> act \<noteq> [] \<and> fp \<noteq> [] \<Longrightarrow>
      booked sk sid act s = Some (i, fp) \<Longrightarrow>
      post sk sid act fp ps now s = Inr (\<lparr>jr_id = i, jr_inserted = False\<rparr>, s)"
    and post_conflict: "sk \<noteq> [] \<and> sid \<noteq> [] \<and> act \<noteq> [] \<and> fp \<noteq> [] \<Longrightarrow>
      booked sk sid act s = Some (i, fp') \<Longrightarrow> fp' \<noteq> fp \<Longrightarrow>
      \<exists>m. post sk sid act fp ps now s = Inl (Conflict m)"
    and post_new: "booked sk sid act s = None \<Longrightarrow> post sk sid act fp ps now s = Inr (r, t) \<Longrightarrow>
      jr_inserted r \<and> postings_balanced ps \<and> booked sk sid act t = Some (jr_id r, fp)
      \<and> (\<forall>k u. rows k u t = rows k u s @ acct_units k u ps)"
    and post_keeps: "post sk sid act fp ps now s = Inr (r, t) \<Longrightarrow>
      booked a b c s = Some x \<Longrightarrow> booked a b c t = Some x"
begin

lemma post_books:
  assumes "post sk sid act fp ps now s = Inr (r, t)"
  shows "booked sk sid act t = Some (jr_id r, fp)"
proof (cases "booked sk sid act s")
  case None
  with post_new assms show ?thesis by blast
next
  case (Some x)
  obtain i fp' where x: "x = (i, fp')" by (cases x)
  have ne: "sk \<noteq> [] \<and> sid \<noteq> [] \<and> act \<noteq> [] \<and> fp \<noteq> []" by (rule post_source [OF assms])
  have "fp' = fp"
  proof (rule ccontr)
    assume "fp' \<noteq> fp"
    with post_conflict ne Some x have "\<exists>m. post sk sid act fp ps now s = Inl (Conflict m)" by blast
    with assms show False by auto
  qed
  with ne Some x post_known [of sk sid act fp s i ps now] assms show ?thesis by auto
qed

lemma post_again:
  assumes "post sk sid act fp ps now s = Inr (r, t)"
  shows "post sk sid act fp qs now' t = Inr (r\<lparr>jr_inserted := False\<rparr>, t)"
  using post_known [OF post_source [OF assms] post_books [OF assms], of qs now'] by (cases r) simp

lemma post_other_fingerprint:
  assumes "post sk sid act fp ps now s = Inr (r, t)" "fp' \<noteq> fp" "fp' \<noteq> []"
  shows "\<exists>m. post sk sid act fp' qs now' t = Inl (Conflict m)"
  using post_conflict [of sk sid act fp' t "jr_id r" fp qs now'] post_source [OF assms(1)]
    post_books [OF assms(1)] assms(2,3) by auto

lemma post_account:
  assumes "post sk sid act fp ps now s = Inr (r, t)"
  shows "sum_list (rows k u t) =
    sum_list (rows k u s) + (if jr_inserted r then sum_list (acct_units k u ps) else 0)"
proof (cases "booked sk sid act s")
  case None
  with post_new [OF None assms] show ?thesis by simp
next
  case (Some x)
  from post_keeps [OF assms Some] post_books [OF assms] have "x = (jr_id r, fp)" by simp
  with Some post_known [OF post_source [OF assms], of s "jr_id r" ps now] assms
  have "r = \<lparr>jr_id = jr_id r, jr_inserted = False\<rparr> \<and> t = s" by simp
  then have "\<not> jr_inserted r \<and> t = s" by (metis journal_result.select_convs(2))
  then show ?thesis by simp
qed

end

definition booked_journal ::
  "string \<Rightarrow> string \<Rightarrow> string \<Rightarrow> 'a wallet_db_scheme \<Rightarrow> (string \<times> string) option" where
  "booked_journal a b c s = map_option (\<lambda>j. (j_id j, j_fingerprint j)) (find_journal a b c s)"

lemma post_journal_tx_source:
  "post_journal_tx sk sid act fp ps now s = Inr (r, t) \<Longrightarrow> sk \<noteq> [] \<and> sid \<noteq> [] \<and> act \<noteq> [] \<and> fp \<noteq> []"
  by (auto simp: post_journal_tx_def tx_simps split: if_splits)

interpretation ledger: double_entry post_journal_tx acct_rows booked_journal
proof unfold_locales
  fix sk sid act fp :: string and ps now and s t :: "'a wallet_db_scheme" and r
  assume post: "post_journal_tx sk sid act fp ps now s = Inr (r, t)"
  then show "sk \<noteq> [] \<and> sid \<noteq> [] \<and> act \<noteq> [] \<and> fp \<noteq> []" by (rule post_journal_tx_source)
  show "booked_journal a b c t = Some x" if "booked_journal a b c s = Some x" for a b c x
    using post that
    by (auto elim!: post_journal_tx_cases simp: booked_journal_def intro: find_journal_posted_mono)
  show "jr_inserted r \<and> postings_balanced ps \<and> booked_journal sk sid act t = Some (jr_id r, fp)
      \<and> (\<forall>k u. acct_rows k u t = acct_rows k u s @ acct_units k u ps)"
    if "booked_journal sk sid act s = None"
    using post
  proof (cases rule: post_journal_tx_cases)
    case (replay j)
    with that show ?thesis by (simp add: booked_journal_def)
  next
    case (fresh j)
    then have "find_journal sk sid act t = Some j" using find_journal_posted by blast
    with fresh show ?thesis
      by (simp add: booked_journal_def acct_rows_posted posted_balanced)
  qed
qed (auto simp: post_journal_tx_def existing_journal_tx_def booked_journal_def tx_defs)

end
