(* ===== verification/Market_Wallet.thy ===== *)
theory Market_Wallet
  imports Wallet_Journal
begin

text \<open>
  The operations of the platform wallet (\<open>src/src/market_wallet.rs\<close>): top-up
  credits and their reversal, holds (reserve, capture, release), debits, refunds
  from a liability, funding quotes and reconciliation. Each definition is the
  whole function, statement by statement; an UPDATE returns the number of rows it
  changed and re-checks the row's CHECK constraints.
\<close>


section \<open>Statements on the wallet tables\<close>

definition wallet_check :: "wallet_row \<Rightarrow> bool" where
  "wallet_check w \<longleftrightarrow> 0 \<le> w_posted w \<and> 0 \<le> w_held w \<and> 0 < w_version w \<and> w_held w \<le> w_posted w"

definition hold_check :: "hold_row \<Rightarrow> bool" where
  "hold_check h \<longleftrightarrow> 0 < h_amount h \<and> 0 \<le> h_remaining h \<and> h_remaining h \<le> h_amount h
     \<and> (if h_status h = Active then 0 < h_remaining h else h_remaining h = 0)"

definition update_wallet_tx ::
  "string \<Rightarrow> string \<Rightarrow> (wallet_row \<Rightarrow> bool) \<Rightarrow> (wallet_row \<Rightarrow> wallet_row)
     \<Rightarrow> ('a wallet_db_scheme, nat) tx" where
  "update_wallet_tx ctx user_id guard upd s =
     (case wallets s user_id of
        None \<Rightarrow> Inr (0, s)
      | Some w \<Rightarrow>
         if \<not> guard w then Inr (0, s)
         else if \<not> wallet_check (upd w) then Inl (db_error ctx (Database ''market_wallet_accounts''))
         else Inr (1, s\<lparr>wallets := (wallets s)(user_id \<mapsto> upd w)\<rparr>))"

definition find_hold :: "string \<Rightarrow> 'a wallet_db_scheme \<Rightarrow> hold_row option" where
  "find_hold hold_id s = find (\<lambda>h. h_id h = hold_id) (holds s)"

definition find_hold_by_source ::
  "string \<Rightarrow> string \<Rightarrow> string \<Rightarrow> 'a wallet_db_scheme \<Rightarrow> hold_row option" where
  "find_hold_by_source source_kind source_id purpose s =
     find (\<lambda>h. h_source_kind h = source_kind \<and> h_source_id h = source_id \<and> h_purpose h = purpose)
       (holds s)"

definition insert_hold_tx :: "hold_row \<Rightarrow> ('a wallet_db_scheme, unit) tx" where
  "insert_hold_tx h s =
     (if h_id h \<in> set (map h_id (holds s)) \<or> \<not> hold_check h
         \<or> find_hold_by_source (h_source_kind h) (h_source_id h) (h_purpose h) s \<noteq> None
      then Inl (db_error ''insert market hold'' (Database ''market_wallet_holds''))
      else Inr ((), s\<lparr>holds := holds s @ [h]\<rparr>))"

definition update_hold_tx ::
  "string \<Rightarrow> string \<Rightarrow> (hold_row \<Rightarrow> bool) \<Rightarrow> (hold_row \<Rightarrow> hold_row)
     \<Rightarrow> ('a wallet_db_scheme, nat) tx" where
  "update_hold_tx ctx hold_id guard upd s =
     (let hit = (\<lambda>h. h_id h = hold_id \<and> guard h)
      in if \<exists>h \<in> set (holds s). hit h \<and> \<not> hold_check (upd h)
         then Inl (db_error ctx (Database ''market_wallet_holds''))
         else Inr (length (filter hit (holds s)),
                   s\<lparr>holds := map (\<lambda>h. if hit h then upd h else h) (holds s)\<rparr>))"


section \<open>Snapshots and funding quotes\<close>

record wallet_snapshot =
  ws_posted :: int
  ws_held :: int
  ws_available :: int
  ws_version :: int

definition wallet_snapshot_tx :: "string \<Rightarrow> 'a wallet_db_scheme \<Rightarrow> wallet_snapshot" where
  "wallet_snapshot_tx user_id s =
     (let (posted_units, held_units, version) =
        (case wallets s user_id of
           None \<Rightarrow> (0, 0, 0)
         | Some w \<Rightarrow> (w_posted w, w_held w, w_version w))
      in \<lparr>ws_posted = posted_units, ws_held = held_units,
          ws_available = posted_units - held_units, ws_version = version\<rparr>)"

definition ensure_wallet_tx :: "string \<Rightarrow> string \<Rightarrow> ('a wallet_db_scheme, unit) tx" where
  "ensure_wallet_tx user_id now s =
     (case wallets s user_id of
        Some _ \<Rightarrow> Inr ((), s)
      | None \<Rightarrow> Inr ((), s\<lparr>wallets := (wallets s)(user_id \<mapsto>
          \<lparr>w_posted = 0, w_held = 0, w_version = 1, w_created_at = now, w_updated_at = now\<rparr>)\<rparr>))"

text \<open>
  The claims that are due before a new order come from the contract tables; they
  are the argument \<open>claims\<close> (contract and amount, in due order).
\<close>

fun prior_due_funding_from :: "int \<Rightarrow> (string \<times> int) list \<Rightarrow> string option \<Rightarrow> int result" where
  "prior_due_funding_from prior [] candidate =
     (if candidate \<noteq> None then Inl (Conflict ''wallet funding claim is not due'') else Inr prior)"
| "prior_due_funding_from prior ((contract_id, amount) # claims) candidate =
     (if Some contract_id = candidate then Inr prior
      else (case checked_add64 prior amount of
          None \<Rightarrow> Inl (Internal ''wallet funding commitments overflow'')
        | Some prior' \<Rightarrow> prior_due_funding_from prior' claims candidate))"

definition prior_due_funding_units :: "(string \<times> int) list \<Rightarrow> string option \<Rightarrow> int result" where
  "prior_due_funding_units claims candidate = prior_due_funding_from 0 claims candidate"

record wallet_quote_funding =
  qf_available :: int
  qf_held :: int
  qf_committed :: int
  qf_required :: int
  qf_shortfall :: int

definition wallet_quote_funding_tx ::
  "(string \<times> int) list result \<Rightarrow> string \<Rightarrow> int \<Rightarrow> int \<Rightarrow> 'a wallet_db_scheme
     \<Rightarrow> wallet_quote_funding result" where
  "wallet_quote_funding_tx claims user_id price_minor trial_seconds_remaining s =
     (if price_minor < 0 \<or> trial_seconds_remaining < 0
      then Inl (BadRequest ''invalid wallet quote amount'')
      else
        let snapshot = wallet_snapshot_tx user_id s
        in case (if price_minor = 0 then Inr 0 else units_from_minor price_minor) of
          Inl e \<Rightarrow> Inl e
        | Inr required \<Rightarrow>
           (case (if required > 0
                  then (case claims of Inl e \<Rightarrow> Inl e | Inr cs \<Rightarrow> prior_due_funding_units cs None)
                  else Inr 0) of
              Inl e \<Rightarrow> Inl e
            | Inr committed \<Rightarrow>
               (case checked_add64 required committed of
                  None \<Rightarrow> Inl (Internal ''wallet quote commitments overflow'')
                | Some total_required \<Rightarrow> Inr
                   \<lparr>qf_available = ws_available snapshot, qf_held = ws_held snapshot,
                    qf_committed = committed, qf_required = required,
                    qf_shortfall = max (saturating_sub64 total_required (ws_available snapshot)) 0\<rparr>)))"

definition quote_funding_json :: "wallet_quote_funding \<Rightarrow> json" where
  "quote_funding_json q = JObject
     [(''assetCode'', JString ''USD''),
      (''availableUnits'', JString (show_int (qf_available q))),
      (''heldUnits'', JString (show_int (qf_held q))),
      (''committedUnits'', JString (show_int (qf_committed q))),
      (''requiredUnits'', JString (show_int (qf_required q))),
      (''shortfallUnits'', JString (show_int (qf_shortfall q)))]"

definition require_order_funding_tx ::
  "(string \<times> int) list result \<Rightarrow> string \<Rightarrow> int \<Rightarrow> 'a wallet_db_scheme \<Rightarrow> unit result" where
  "require_order_funding_tx claims user_id price_minor s =
     (case wallet_quote_funding_tx claims user_id price_minor 0 s of
        Inl e \<Rightarrow> Inl e
      | Inr funding \<Rightarrow>
         if qf_shortfall funding > 0
         then Inl (coded_conflict ''MARKET_WALLET_REQUIRED''
                ''insufficient platform balance for the first billing period; top up before renting''
                (quote_funding_json funding))
         else Inr ())"


section \<open>Top-up credits\<close>

definition topup_credit_terms_tx ::
  "string \<Rightarrow> int \<Rightarrow> 'a wallet_db_scheme \<Rightarrow> (int \<times> int) result" where
  "topup_credit_terms_tx order_id gross_minor s =
     (case topup_orders s order_id of
        None \<Rightarrow> Inl (NotFound ''top-up financial terms not found'')
      | Some t \<Rightarrow>
         let gross = t_amount_minor t;
             credit = (case t_credit_amount_minor t of Some c \<Rightarrow> c | None \<Rightarrow> t_amount_minor t);
             fee = t_platform_fee_minor t
         in if gross \<noteq> gross_minor \<or> credit \<le> 0 \<or> fee < 0 \<or> checked_add64 credit fee \<noteq> Some gross
            then Inl (Conflict ''top-up financial terms do not match'')
            else Inr (credit, fee))"

definition topup_postings :: "string \<Rightarrow> int \<Rightarrow> int \<Rightarrow> int \<Rightarrow> posting list" where
  "topup_postings user_id gross_units units fee_units =
     [\<lparr>p_kind = ''owner_clearing'', p_subject = ''owner'', p_units = gross_units\<rparr>,
      \<lparr>p_kind = ''wallet_available'', p_subject = user_id, p_units = - units\<rparr>]
     @ (if fee_units > 0
        then [\<lparr>p_kind = ''platform_fee_revenue'', p_subject = ''owner'', p_units = - fee_units\<rparr>]
        else [])"

definition fee_units_from_minor :: "int \<Rightarrow> int result" where
  "fee_units_from_minor fee_minor = (if fee_minor > 0 then units_from_minor fee_minor else Inr 0)"

definition add_posted_tx :: "string \<Rightarrow> string \<Rightarrow> int \<Rightarrow> string \<Rightarrow> ('a wallet_db_scheme, nat) tx" where
  "add_posted_tx ctx user_id units now =
     update_wallet_tx ctx user_id (\<lambda>w. w_posted w \<le> i64_max - units)
       (\<lambda>w. w\<lparr>w_posted := w_posted w + units, w_version := w_version w + 1, w_updated_at := now\<rparr>)"

definition credit_verified_topup_tx ::
  "string \<Rightarrow> string \<Rightarrow> int \<Rightarrow> string \<Rightarrow> string \<Rightarrow> ('a wallet_db_scheme, journal_result) tx" where
  "credit_verified_topup_tx user_id order_id amount_minor receipt_fingerprint now =
     bind_tx (read_tx (topup_credit_terms_tx order_id amount_minor)) (\<lambda>(credit_minor, fee_minor).
     bind_tx (lift_tx (units_from_minor credit_minor)) (\<lambda>units.
     bind_tx (lift_tx (units_from_minor amount_minor)) (\<lambda>gross_units.
     bind_tx (ensure_wallet_tx user_id now) (\<lambda>_.
     bind_tx (lift_tx (fee_units_from_minor fee_minor)) (\<lambda>fee_units.
     bind_tx (post_journal_tx ''topup'' order_id ''credit''
         (user_id @ '':'' @ show_int amount_minor @ '':'' @ receipt_fingerprint
          @ (if fee_minor > 0
             then '':credit='' @ show_int credit_minor @ '':fee='' @ show_int fee_minor else []))
         (topup_postings user_id gross_units units fee_units) now) (\<lambda>result.
     bind_tx (if jr_inserted result
        then bind_tx (add_posted_tx ''credit market wallet'' user_id units now)
               (\<lambda>n. require_tx (n = 1) (Internal ''market wallet credit overflow''))
        else return_tx ())
       (\<lambda>_. return_tx result)))))))"

definition credit_manual_topup_tx ::
  "string \<Rightarrow> string \<Rightarrow> int \<Rightarrow> string \<Rightarrow> string \<Rightarrow> ('a wallet_db_scheme, journal_result) tx" where
  "credit_manual_topup_tx user_id order_id amount_minor receipt_fingerprint now =
     bind_tx (read_tx (topup_credit_terms_tx order_id amount_minor)) (\<lambda>(credit_minor, fee_minor).
     bind_tx (lift_tx (units_from_minor credit_minor)) (\<lambda>units.
     bind_tx (lift_tx (units_from_minor amount_minor)) (\<lambda>gross_units.
     bind_tx (lift_tx (fee_units_from_minor fee_minor)) (\<lambda>fee_units.
     bind_tx (ensure_wallet_tx user_id now) (\<lambda>_.
     bind_tx (post_journal_tx ''topup'' order_id ''credit_manual''
         (''manual:'' @ user_id @ '':'' @ show_int amount_minor @ '':'' @ receipt_fingerprint
          @ '':credit='' @ show_int credit_minor @ '':fee='' @ show_int fee_minor)
         (topup_postings user_id gross_units units fee_units) now) (\<lambda>result.
     bind_tx (if jr_inserted result
        then bind_tx (add_posted_tx ''credit market wallet'' user_id units now)
               (\<lambda>n. require_tx (n = 1) (Internal ''market wallet credit overflow''))
        else return_tx ())
       (\<lambda>_. return_tx result)))))))"


section \<open>Reversal of a top-up\<close>

definition prior_reversals :: "string \<Rightarrow> 'a wallet_db_scheme \<Rightarrow> int list" where
  "prior_reversals order_id s =
     map oa_amount_minor
       (filter (\<lambda>a. oa_order a = order_id \<and> oa_action a = ''reverse_external_refund'') (owner_actions s))"

definition fee_at :: "int \<Rightarrow> int \<Rightarrow> int \<Rightarrow> int" where
  "fee_at gross fee amount = (amount * fee + gross div 2) div gross"

definition topup_reversal_terms_tx ::
  "string \<Rightarrow> int \<Rightarrow> 'a wallet_db_scheme \<Rightarrow> (int \<times> int) result" where
  "topup_reversal_terms_tx order_id refund_minor s =
     (case topup_orders s order_id of
        None \<Rightarrow> Inl (NotFound ''top-up financial terms not found'')
      | Some t \<Rightarrow>
         let gross = t_amount_minor t; fee = t_platform_fee_minor t
         in case sql_sum (prior_reversals order_id s) of
              None \<Rightarrow> Inl (db_error ''sum prior top-up reversals'' (Database ''integer overflow''))
            | Some prior \<Rightarrow>
               (case checked_add64 prior refund_minor of
                  None \<Rightarrow> Inl (BadRequest ''reversal overflow'')
                | Some cumulative \<Rightarrow>
                   if refund_minor \<le> 0 \<or> cumulative > gross
                   then Inl (BadRequest ''reversal exceeds the original unreversed payment'')
                   else (case checked_i64 (fee_at gross fee cumulative - fee_at gross fee prior) of
                       None \<Rightarrow> Inl (Internal ''refund fee overflow'')
                     | Some reversed_fee \<Rightarrow> Inr (refund_minor - reversed_fee, reversed_fee))))"

definition sub_posted_tx :: "string \<Rightarrow> string \<Rightarrow> int \<Rightarrow> string \<Rightarrow> ('a wallet_db_scheme, nat) tx" where
  "sub_posted_tx ctx user_id units now =
     update_wallet_tx ctx user_id (\<lambda>w. w_posted w - w_held w \<ge> units)
       (\<lambda>w. w\<lparr>w_posted := w_posted w - units, w_version := w_version w + 1, w_updated_at := now\<rparr>)"

definition reversal_postings :: "string \<Rightarrow> int \<Rightarrow> int \<Rightarrow> int \<Rightarrow> int \<Rightarrow> posting list" where
  "reversal_postings user_id gross_units fee_units from_wallet shortfall =
     [\<lparr>p_kind = ''owner_clearing'', p_subject = ''owner'', p_units = - gross_units\<rparr>]
     @ (if fee_units > 0
        then [\<lparr>p_kind = ''platform_fee_revenue'', p_subject = ''owner'', p_units = fee_units\<rparr>] else [])
     @ (if from_wallet > 0
        then [\<lparr>p_kind = ''wallet_available'', p_subject = user_id, p_units = from_wallet\<rparr>] else [])
     @ (if shortfall > 0
        then [\<lparr>p_kind = ''owner_loss'', p_subject = ''owner'', p_units = shortfall\<rparr>] else [])"

definition reverse_topup_credit_tx ::
  "string \<Rightarrow> string \<Rightarrow> int \<Rightarrow> string \<Rightarrow> string
     \<Rightarrow> ('a wallet_db_scheme, journal_result \<times> int) tx" where
  "reverse_topup_credit_tx user_id order_id amount_minor evidence_reference now =
     bind_tx (read_tx (topup_reversal_terms_tx order_id amount_minor)) (\<lambda>(principal_minor, reversed_fee_minor).
     bind_tx (lift_tx (case checked_mul64 principal_minor MONEY_UNITS_PER_MINOR of
         None \<Rightarrow> Inl (BadRequest ''reversal overflow'') | Some t \<Rightarrow> Inr t)) (\<lambda>total.
     bind_tx (gets_tx (wallet_snapshot_tx user_id)) (\<lambda>snapshot.
       let available = max (ws_available snapshot) 0;
           per_minor = MONEY_UNITS_PER_MINOR;
           from_wallet = min total (available div per_minor * per_minor);
           shortfall = total - from_wallet
       in bind_tx (lift_tx (units_from_minor amount_minor)) (\<lambda>gross_units.
          bind_tx (lift_tx (fee_units_from_minor reversed_fee_minor)) (\<lambda>fee_units.
          bind_tx (post_journal_tx ''topup'' order_id (''reverse:'' @ evidence_reference)
              (''reverse:'' @ user_id @ '':'' @ show_int amount_minor @ '':'' @ show_int from_wallet
               @ '':'' @ evidence_reference)
              (reversal_postings user_id gross_units fee_units from_wallet shortfall) now) (\<lambda>result.
          bind_tx (if jr_inserted result \<and> from_wallet > 0
             then bind_tx (sub_posted_tx ''reverse market wallet credit'' user_id from_wallet now)
                    (\<lambda>n. require_tx (n = 1) (Conflict ''wallet balance changed during reversal''))
             else return_tx ())
            (\<lambda>_. return_tx (result, shortfall div per_minor))))))))"

text \<open>
  The owner's record of a reversal (\<open>src/src/market_payments/owner_actions.rs\<close>): one
  row per refund reference and per journal. \<open>reverse_and_record_tx\<close> is the
  committing part of \<open>apply_reversal_tx\<close> there.
\<close>

definition owner_action_unique :: "owner_action \<Rightarrow> owner_action \<Rightarrow> bool" where
  "owner_action_unique a b \<longleftrightarrow>
     \<not> (oa_id a = oa_id b \<or> oa_journal a = oa_journal b
        \<or> (oa_order a = oa_order b \<and> oa_action a = oa_action b \<and> oa_evidence a = oa_evidence b)
        \<or> (oa_order a = oa_order b \<and> oa_action a = ''credit_manual_claim'' \<and> oa_action b = ''credit_manual_claim''))"

definition record_action_tx ::
  "string \<Rightarrow> string \<Rightarrow> string \<Rightarrow> int \<Rightarrow> int \<Rightarrow> string \<Rightarrow> string \<Rightarrow> string \<Rightarrow> string
     \<Rightarrow> ('a wallet_db_scheme, unit) tx" where
  "record_action_tx order_id action actor amount_minor shortfall_minor evidence reason journal_id time =
     bind_tx new_v4 (\<lambda>aid s.
       let row = \<lparr>oa_id = aid, oa_order = order_id, oa_action = action, oa_actor = actor,
             oa_amount_minor = amount_minor, oa_shortfall_minor = shortfall_minor, oa_evidence = evidence,
             oa_reason = reason, oa_journal = journal_id, oa_created_at = time\<rparr>
       in if action \<notin> {''credit_manual_claim'', ''reverse_external_refund''} \<or> amount_minor \<le> 0 \<or> shortfall_minor < 0
          then Inl (db_error ''record owner top-up action'' (Database ''market_topup_owner_actions''))
          else if \<exists>a \<in> set (owner_actions s). \<not> owner_action_unique a row
          then Inl (Conflict ''this owner action was already taken'')
          else Inr ((), s\<lparr>owner_actions := owner_actions s @ [row]\<rparr>))"

definition reverse_and_record_tx ::
  "string \<Rightarrow> string \<Rightarrow> string \<Rightarrow> int \<Rightarrow> string \<Rightarrow> string \<Rightarrow> string
     \<Rightarrow> ('a wallet_db_scheme, int) tx" where
  "reverse_and_record_tx user_id order_id actor amount_minor evidence_reference reason_code time =
     bind_tx (reverse_topup_credit_tx user_id order_id amount_minor evidence_reference time)
       (\<lambda>(journal, shortfall).
     bind_tx (require_tx (jr_inserted journal) (Conflict ''this top-up was already reversed'')) (\<lambda>_.
     bind_tx (record_action_tx order_id ''reverse_external_refund'' actor amount_minor shortfall
         evidence_reference reason_code (jr_id journal) time) (\<lambda>_. return_tx shortfall)))"


section \<open>Holds\<close>

definition add_held_tx :: "string \<Rightarrow> string \<Rightarrow> int \<Rightarrow> string \<Rightarrow> ('a wallet_db_scheme, nat) tx" where
  "add_held_tx ctx user_id units now =
     update_wallet_tx ctx user_id (\<lambda>w. w_posted w - w_held w \<ge> units)
       (\<lambda>w. w\<lparr>w_held := w_held w + units, w_version := w_version w + 1, w_updated_at := now\<rparr>)"

definition reserve_wallet_tx ::
  "string \<Rightarrow> string \<Rightarrow> string \<Rightarrow> string \<Rightarrow> int \<Rightarrow> string option \<Rightarrow> string
     \<Rightarrow> ('a wallet_db_scheme, string) tx" where
  "reserve_wallet_tx user_id source_kind source_id purpose amount_units expires_at now =
     (if amount_units \<le> 0 then fail_tx (BadRequest ''hold amount must be positive'')
      else bind_tx (gets_tx (find_hold_by_source source_kind source_id purpose)) (\<lambda>existing.
        case existing of
          Some h \<Rightarrow>
            if h_user h \<noteq> user_id \<or> h_amount h \<noteq> amount_units
            then fail_tx (Conflict ''market hold idempotency conflict'')
            else if h_status h \<noteq> Active then fail_tx (Conflict ''market hold has already completed'')
            else return_tx (h_id h)
        | None \<Rightarrow>
            bind_tx (ensure_wallet_tx user_id now) (\<lambda>_.
            bind_tx (gets_tx (wallet_snapshot_tx user_id)) (\<lambda>snapshot.
            bind_tx (require_tx (\<not> ws_available snapshot < amount_units)
                (Conflict ''insufficient market wallet balance'')) (\<lambda>_.
            bind_tx new_v4 (\<lambda>hid.
            bind_tx (post_journal_tx source_kind source_id (''reserve:'' @ purpose)
                (user_id @ '':'' @ show_int amount_units @ '':'' @ purpose)
                [\<lparr>p_kind = ''wallet_available'', p_subject = user_id, p_units = amount_units\<rparr>,
                 \<lparr>p_kind = ''wallet_held'', p_subject = user_id, p_units = - amount_units\<rparr>] now) (\<lambda>result.
            bind_tx (require_tx (jr_inserted result)
                (Internal ''market hold journal is missing its hold'')) (\<lambda>_.
            bind_tx (insert_hold_tx
                \<lparr>h_id = hid, h_user = user_id, h_source_kind = source_kind, h_source_id = source_id,
                 h_purpose = purpose, h_amount = amount_units, h_remaining = amount_units,
                 h_status = Active, h_created_at = now, h_updated_at = now, h_expires_at = expires_at\<rparr>) (\<lambda>_.
            bind_tx (add_held_tx ''reserve market wallet'' user_id amount_units now) (\<lambda>n.
            bind_tx (require_tx (n = 1) (Conflict ''insufficient market wallet balance'')) (\<lambda>_.
            return_tx hid)))))))))))"

definition capture_targets :: "string list" where
  "capture_targets = [''unfulfilled'', ''provider_pending'', ''buyer_refund_held'']"

definition capture_hold_tx ::
  "string \<Rightarrow> int \<Rightarrow> string \<Rightarrow> string \<Rightarrow> string \<Rightarrow> string \<Rightarrow> string
     \<Rightarrow> ('a wallet_db_scheme, journal_result) tx" where
  "capture_hold_tx hold_id amount_units target_kind target_id action_kind action_id now =
     (if amount_units \<le> 0 \<or> target_kind \<notin> set capture_targets
      then fail_tx (BadRequest ''invalid market hold capture'')
      else bind_tx (gets_tx (find_hold hold_id)) (\<lambda>row.
        case row of
          None \<Rightarrow> fail_tx (db_error ''read market hold for capture'' QueryReturnedNoRows)
        | Some h \<Rightarrow>
           let fingerprint = hold_id @ '':'' @ show_int amount_units @ '':'' @ target_kind @ '':'' @ target_id
           in bind_tx (existing_journal_tx action_kind action_id ''capture'' fingerprint) (\<lambda>existing.
              case existing of
                Some r \<Rightarrow> return_tx r
              | None \<Rightarrow>
                 bind_tx (require_tx (\<not> (h_status h \<noteq> Active \<or> h_remaining h < amount_units))
                     (Conflict ''market hold is not available for capture'')) (\<lambda>_.
                 bind_tx (post_journal_tx action_kind action_id ''capture'' fingerprint
                     [\<lparr>p_kind = ''wallet_held'', p_subject = h_user h, p_units = amount_units\<rparr>,
                      \<lparr>p_kind = target_kind, p_subject = target_id, p_units = - amount_units\<rparr>] now) (\<lambda>result.
                 bind_tx (update_hold_tx ''capture market hold'' hold_id
                     (\<lambda>x. h_status x = Active \<and> h_remaining x \<ge> amount_units)
                     (\<lambda>x. x\<lparr>h_remaining := h_remaining x - amount_units,
                            h_status := (if h_remaining x = amount_units then Captured else Active),
                            h_updated_at := now\<rparr>)) (\<lambda>n.
                 bind_tx (require_tx (n = 1) (Conflict ''market hold capture raced'')) (\<lambda>_.
                 bind_tx (update_wallet_tx ''debit captured market wallet'' (h_user h)
                     (\<lambda>w. w_held w \<ge> amount_units)
                     (\<lambda>w. w\<lparr>w_posted := w_posted w - amount_units, w_held := w_held w - amount_units,
                            w_version := w_version w + 1, w_updated_at := now\<rparr>)) (\<lambda>m.
                 bind_tx (require_tx (m = 1) (Internal ''market wallet hold projection drift''))
                   (\<lambda>_. return_tx result))))))))) "

definition debit_targets :: "string list" where
  "debit_targets = [''unfulfilled'', ''provider_pending'']"

definition debit_available_tx ::
  "string \<Rightarrow> int \<Rightarrow> string \<Rightarrow> string \<Rightarrow> string \<Rightarrow> string \<Rightarrow> string \<Rightarrow> string
     \<Rightarrow> ('a wallet_db_scheme, journal_result) tx" where
  "debit_available_tx user_id amount_units target_kind target_id source_kind source_id action now =
     (if amount_units \<le> 0 \<or> target_kind \<notin> set debit_targets
      then fail_tx (BadRequest ''invalid market wallet debit'')
      else
        let fingerprint = user_id @ '':'' @ show_int amount_units @ '':'' @ target_kind @ '':'' @ target_id
        in bind_tx (existing_journal_tx source_kind source_id action fingerprint) (\<lambda>existing.
           case existing of
             Some r \<Rightarrow> return_tx r
           | None \<Rightarrow>
              bind_tx (gets_tx (wallet_snapshot_tx user_id)) (\<lambda>snapshot.
              bind_tx (require_tx (\<not> ws_available snapshot < amount_units)
                  (Conflict ''insufficient market wallet balance'')) (\<lambda>_.
              bind_tx (post_journal_tx source_kind source_id action fingerprint
                  [\<lparr>p_kind = ''wallet_available'', p_subject = user_id, p_units = amount_units\<rparr>,
                   \<lparr>p_kind = target_kind, p_subject = target_id, p_units = - amount_units\<rparr>] now) (\<lambda>result.
              bind_tx (sub_posted_tx ''debit market wallet'' user_id amount_units now) (\<lambda>n.
              bind_tx (require_tx (n = 1) (Conflict ''insufficient market wallet balance''))
                (\<lambda>_. return_tx result)))))))"

definition refund_sources :: "string list" where
  "refund_sources =
     [''unfulfilled'', ''provider_pending'', ''provider_available'', ''provider_held'',
      ''buyer_refund_held'', ''platform_commission_pending'', ''platform_commission_revenue'']"

definition credit_wallet_from_liability_tx ::
  "string \<Rightarrow> int \<Rightarrow> string \<Rightarrow> string \<Rightarrow> string \<Rightarrow> string \<Rightarrow> string \<Rightarrow> string
     \<Rightarrow> ('a wallet_db_scheme, journal_result) tx" where
  "credit_wallet_from_liability_tx user_id amount_units liability_kind liability_id
      source_kind source_id action now =
     (if amount_units \<le> 0 \<or> liability_kind \<notin> set refund_sources
      then fail_tx (BadRequest ''invalid wallet refund source'')
      else
        let fingerprint = user_id @ '':'' @ show_int amount_units @ '':'' @ liability_kind @ '':'' @ liability_id
        in bind_tx (existing_journal_tx source_kind source_id action fingerprint) (\<lambda>existing.
           case existing of
             Some r \<Rightarrow> return_tx r
           | None \<Rightarrow>
              bind_tx (read_tx (\<lambda>s. case sql_sum (acct_rows liability_kind liability_id s) of
                  None \<Rightarrow> Inl (db_error ''read refundable market liability'' (Database ''integer overflow''))
                | Some b \<Rightarrow> Inr b)) (\<lambda>signed_balance.
              bind_tx (require_tx (\<not> signed_balance > - amount_units)
                  (Conflict ''refundable market liability is insufficient'')) (\<lambda>_.
              bind_tx (ensure_wallet_tx user_id now) (\<lambda>_.
              bind_tx (post_journal_tx source_kind source_id action fingerprint
                  [\<lparr>p_kind = liability_kind, p_subject = liability_id, p_units = amount_units\<rparr>,
                   \<lparr>p_kind = ''wallet_available'', p_subject = user_id, p_units = - amount_units\<rparr>] now) (\<lambda>result.
              bind_tx (add_posted_tx ''credit refunded market wallet'' user_id amount_units now) (\<lambda>n.
              bind_tx (require_tx (n = 1) (Internal ''market wallet refund overflow''))
                (\<lambda>_. return_tx result))))))))"

definition release_hold_tx ::
  "string \<Rightarrow> string \<Rightarrow> ('a wallet_db_scheme, journal_result option) tx" where
  "release_hold_tx hold_id now =
     bind_tx (gets_tx (find_hold hold_id)) (\<lambda>row.
       case row of
         None \<Rightarrow> fail_tx (db_error ''read market hold for release'' QueryReturnedNoRows)
       | Some h \<Rightarrow>
          if h_status h \<noteq> Active then return_tx None
          else
            bind_tx (post_journal_tx ''hold'' hold_id ''release''
                (hold_id @ '':'' @ show_int (h_remaining h) @ '':release'')
                [\<lparr>p_kind = ''wallet_held'', p_subject = h_user h, p_units = h_remaining h\<rparr>,
                 \<lparr>p_kind = ''wallet_available'', p_subject = h_user h, p_units = - h_remaining h\<rparr>] now) (\<lambda>result.
            bind_tx (require_tx (jr_inserted result)
                (Internal ''market hold release journal projection drift'')) (\<lambda>_.
            bind_tx (update_hold_tx ''release market hold'' hold_id (\<lambda>x. h_status x = Active)
                (\<lambda>x. x\<lparr>h_remaining := 0, h_status := Released, h_updated_at := now\<rparr>)) (\<lambda>_.
            bind_tx (update_wallet_tx ''unfreeze market wallet'' (h_user h)
                (\<lambda>w. w_held w \<ge> h_remaining h)
                (\<lambda>w. w\<lparr>w_held := w_held w - h_remaining h, w_version := w_version w + 1,
                       w_updated_at := now\<rparr>)) (\<lambda>m.
            bind_tx (require_tx (m = 1) (Internal ''market wallet hold projection drift''))
              (\<lambda>_. return_tx (Some result)))))))"


section \<open>Reconciliation\<close>

definition wallet_rows :: "string \<Rightarrow> 'a wallet_db_scheme \<Rightarrow> posting_row list" where
  "wallet_rows user_id s =
     filter (\<lambda>p. pr_subject p = user_id \<and> pr_kind p \<in> {''wallet_available'', ''wallet_held''})
       (postings s)"

definition active_remaining :: "string \<Rightarrow> 'a wallet_db_scheme \<Rightarrow> int list" where
  "active_remaining user_id s =
     map h_remaining (filter (\<lambda>h. h_user h = user_id \<and> h_status h = Active) (holds s))"

definition reconcile_wallet_tx :: "string \<Rightarrow> 'a wallet_db_scheme \<Rightarrow> unit result" where
  "reconcile_wallet_tx user_id s =
     (let snapshot = wallet_snapshot_tx user_id s;
          rows = wallet_rows user_id s;
          case_sum = (\<lambda>kind. sql_sum (map (\<lambda>p. if pr_kind p = kind then pr_units p else 0) rows))
      in case (case_sum ''wallet_available'', case_sum ''wallet_held'') of
           (Some available_signed, Some held_signed) \<Rightarrow>
             (case sql_sum (active_remaining user_id s) of
                None \<Rightarrow> Inl (db_error ''reconcile market wallet holds'' (Database ''integer overflow''))
              | Some hold_sum \<Rightarrow>
                 if ws_available snapshot \<noteq> - available_signed \<or> ws_held snapshot \<noteq> - held_signed
                    \<or> ws_held snapshot \<noteq> hold_sum
                 then Inl (Internal ''market wallet reconciliation mismatch'') else Inr ())
         | _ \<Rightarrow> Inl (db_error ''reconcile market wallet journal'' (Database ''integer overflow'')))"

end
