(* ===== verification/Wallet_Invariant.thy ===== *)
theory Wallet_Invariant
  imports Market_Wallet
begin

text \<open>
  The invariant of the platform wallet. For every user the projection row, the
  journal and the active holds agree: the available balance is minus the sum of
  the \<open>wallet_available\<close> postings, the held balance minus the sum of the
  \<open>wallet_held\<close> postings and the sum of what the active holds still reserve.
  Every operation of \<open>src/src/market_wallet.rs\<close> preserves it.
\<close>


section \<open>The invariant\<close>

definition posted_of :: "string \<Rightarrow> 'a wallet_db_scheme \<Rightarrow> int" where
  "posted_of v s = (case wallets s v of None \<Rightarrow> 0 | Some w \<Rightarrow> w_posted w)"

definition held_of :: "string \<Rightarrow> 'a wallet_db_scheme \<Rightarrow> int" where
  "held_of v s = (case wallets s v of None \<Rightarrow> 0 | Some w \<Rightarrow> w_held w)"

lemma wallet_snapshot_of [simp]:
  "ws_posted (wallet_snapshot_tx v s) = posted_of v s"
  "ws_held (wallet_snapshot_tx v s) = held_of v s"
  "ws_available (wallet_snapshot_tx v s) = posted_of v s - held_of v s"
  by (auto simp: wallet_snapshot_tx_def posted_of_def held_of_def split: option.splits)

definition credit_range :: "int \<Rightarrow> bool" where
  "credit_range n \<longleftrightarrow> - i64_max \<le> n \<and> n \<le> 0"

definition hold_units :: "string \<Rightarrow> hold_row \<Rightarrow> int" where
  "hold_units v h = (if h_user h = v \<and> h_status h = Active then h_remaining h else 0)"

definition reserved :: "string \<Rightarrow> 'a wallet_db_scheme \<Rightarrow> int" where
  "reserved v s = sum_list (map (hold_units v) (holds s))"

definition user_ok :: "string \<Rightarrow> 'a wallet_db_scheme \<Rightarrow> bool" where
  "user_ok v s \<longleftrightarrow>
     0 \<le> held_of v s \<and> held_of v s \<le> posted_of v s \<and> posted_of v s \<le> i64_max
     \<and> acct_sum ''wallet_available'' v s = held_of v s - posted_of v s
     \<and> acct_sum ''wallet_held'' v s = - held_of v s
     \<and> reserved v s = held_of v s
     \<and> prefixes_ok credit_range 0 (acct_rows ''wallet_available'' v s)
     \<and> prefixes_ok credit_range 0 (acct_rows ''wallet_held'' v s)"

definition hold_source :: "hold_row \<Rightarrow> string \<times> string \<times> string" where
  "hold_source h = (h_source_kind h, h_source_id h, h_purpose h)"

definition holds_ok :: "hold_row list \<Rightarrow> bool" where
  "holds_ok hs \<longleftrightarrow> distinct (map h_id hs) \<and> distinct (map hold_source hs) \<and> (\<forall>h \<in> set hs. hold_check h)"

definition wallet_inv :: "'a wallet_db_scheme \<Rightarrow> bool" where
  "wallet_inv s \<longleftrightarrow>
     ledger_ok s \<and> holds_ok (holds s) \<and> (\<forall>v w. wallets s v = Some w \<longrightarrow> wallet_check w)
     \<and> (\<forall>v. user_ok v s)"

lemma active_remaining_sum: "sum_list (active_remaining v s) = reserved v s"
  by (simp add: active_remaining_def reserved_def hold_units_def [abs_def] sum_list_zero_filter)

lemma reserved_cong: "holds t = holds s \<Longrightarrow> reserved v t = reserved v s"
  by (simp add: reserved_def)

lemma acct_rows_cong: "postings t = postings s \<Longrightarrow> acct_rows k v t = acct_rows k v s"
  by (simp add: acct_rows_def)

lemma ledger_ok_cong:
  "journals t = journals s \<Longrightarrow> postings t = postings s \<Longrightarrow> seals t = seals s \<Longrightarrow>
   ledger_ok t = ledger_ok s"
  by (simp add: ledger_ok_def sealed_balanced_def journal_postings_def journal_total_def)

lemma wallet_inv_cong:
  assumes "journals t = journals s" "postings t = postings s" "seals t = seals s"
    "holds t = holds s" "wallets t = wallets s"
  shows "wallet_inv t = wallet_inv s"
  using assms ledger_ok_cong [of t s] acct_rows_cong [of t s] reserved_cong [of t s]
  by (simp add: wallet_inv_def user_ok_def posted_of_def held_of_def)


section \<open>Moving money keeps the invariant\<close>

text \<open>
  Every operation that changes a balance posts one journal and then changes the
  row of one user. The journal moves \<open>dh - dp\<close> on the available account and
  \<open>- dh\<close> on the held account of that user.
\<close>

lemma user_ok_move:
  assumes ok: "user_ok v s"
    and p: "posted_of v t = posted_of v s + dp" and h: "held_of v t = held_of v s + dh"
    and av: "acct_rows ''wallet_available'' v t =
      acct_rows ''wallet_available'' v s @ (if dh = dp then [] else [dh - dp])"
    and hd: "acct_rows ''wallet_held'' v t = acct_rows ''wallet_held'' v s @ (if dh = 0 then [] else [- dh])"
    and r: "reserved v t = reserved v s + dh"
    and b: "0 \<le> held_of v t" "held_of v t \<le> posted_of v t" "posted_of v t \<le> i64_max"
  shows "user_ok v t"
  using assms by (auto simp: user_ok_def credit_range_def)

definition moves :: "string \<Rightarrow> int \<Rightarrow> int \<Rightarrow> posting list \<Rightarrow> bool" where
  "moves u dp dh ps \<longleftrightarrow>
     (\<forall>v. acct_units ''wallet_available'' v ps = (if v = u \<and> dh \<noteq> dp then [dh - dp] else [])
        \<and> acct_units ''wallet_held'' v ps = (if v = u \<and> dh \<noteq> 0 then [- dh] else []))"

lemma wallet_inv_move:
  assumes inv: "wallet_inv s" and p: "posted s j ps t1" and m: "moves u dp dh ps"
    and w: "wallets s u = Some w" "w_posted w' = w_posted w + dp" "w_held w' = w_held w + dh"
      "wallet_check w'" "w_posted w' \<le> i64_max"
    and t: "journals t = journals t1" "postings t = postings t1" "seals t = seals t1"
      "wallets t = (wallets s)(u \<mapsto> w')"
    and h: "holds_ok (holds t)" "\<And>v. reserved v t = reserved v s + (if v = u then dh else 0)"
  shows "wallet_inv t"
proof -
  have led: "ledger_ok t"
    using ledger_ok_posted [OF p] ledger_ok_cong [OF t(1-3)] inv by (simp add: wallet_inv_def)
  have rows: "acct_rows k v t = acct_rows k v s @ acct_units k v ps" for k v
    using acct_rows_posted [OF p] acct_rows_cong [OF t(2)] by simp
  have usr: "user_ok v t" for v
  proof (rule user_ok_move [where s = s and dp = "if v = u then dp else 0" and dh = "if v = u then dh else 0"])
    show ok: "user_ok v s" using inv by (simp add: wallet_inv_def)
    show "posted_of v t = posted_of v s + (if v = u then dp else 0)"
      "held_of v t = held_of v s + (if v = u then dh else 0)"
      using w t(4) by (simp_all add: posted_of_def held_of_def)
    show "0 \<le> held_of v t" "held_of v t \<le> posted_of v t" "posted_of v t \<le> i64_max"
      using w t(4) ok
      by (auto simp: posted_of_def held_of_def wallet_check_def user_ok_def split: if_splits)
  qed (use rows m h(2) in \<open>auto simp: moves_def\<close>)
  show ?thesis
    using led usr h(1) inv w t(4) by (auto simp: wallet_inv_def)
qed

lemma wallet_inv_row: "wallet_inv s \<Longrightarrow> wallets s u = Some w \<Longrightarrow> w_posted w \<le> i64_max \<and> wallet_check w"
  unfolding wallet_inv_def user_ok_def posted_of_def by (metis option.simps(5))

lemma ensure_wallet_tx_Inr:
  assumes "ensure_wallet_tx u now s = Inr (x, t)"
  shows "journals t = journals s" "postings t = postings s" "seals t = seals s" "holds t = holds s"
    "topup_orders t = topup_orders s" "owner_actions t = owner_actions s"
    "posted_of v t = posted_of v s" "held_of v t = held_of v s" "wallets t u \<noteq> None"
    "find_journal a b c t = find_journal a b c s"
  using assms by (auto simp: ensure_wallet_tx_def posted_of_def held_of_def find_journal_def
      split: option.splits if_splits)

lemma wallet_inv_ensure:
  assumes "ensure_wallet_tx u now s = Inr (x, t)" "wallet_inv s"
  shows "wallet_inv t"
proof -
  note e = ensure_wallet_tx_Inr [OF assms(1)]
  have "wallet_check w" if "wallets t v = Some w" for v w
    using assms that by (auto simp: ensure_wallet_tx_def wallet_inv_def wallet_check_def
        split: option.splits if_splits)
  with assms(2) show ?thesis
    using ledger_ok_cong [OF e(1-3)] acct_rows_cong [OF e(2)] reserved_cong [OF e(4)] e(4,7,8)
    by (simp add: wallet_inv_def user_ok_def)
qed

lemma wallet_inv_draw [simp]: "wallet_inv (s\<lparr>uuid_drawn := n\<rparr>) = wallet_inv s"
  by (rule wallet_inv_cong) simp_all

lemma update_wallet_tx_1:
  "update_wallet_tx ctx u g f s = Inr (Suc 0, t) \<longleftrightarrow>
     (\<exists>w. wallets s u = Some w \<and> g w \<and> wallet_check (f w) \<and> t = s\<lparr>wallets := (wallets s)(u \<mapsto> f w)\<rparr>)"
  by (auto simp: update_wallet_tx_def split: option.splits if_splits)

lemmas wallet_tx_simps = tx_simps update_wallet_tx_1 add_posted_tx_def sub_posted_tx_def add_held_tx_def


section \<open>Every operation keeps the invariant\<close>

lemma acct_units_simps [simp]:
  "acct_units k v [] = []"
  "acct_units k v (p # ps) = (if p_kind p = k \<and> p_subject p = v then p_units p # acct_units k v ps
     else acct_units k v ps)"
  "acct_units k v (ps @ qs) = acct_units k v ps @ acct_units k v qs"
  by (simp_all add: acct_units_def)

lemma wallet_inv_post_other:
  assumes "posted s j ps t" "wallet_inv s" "\<forall>p \<in> set ps. p_kind p \<notin> {''wallet_available'', ''wallet_held''}"
  shows "wallet_inv t"
proof -
  have "acct_units k v ps = []" if "k \<in> {''wallet_available'', ''wallet_held''}" for k v
    using assms(3) that by (auto simp: acct_units_def filter_empty_conv)
  with assms(1,2) show ?thesis
    using ledger_ok_posted [OF assms(1)] acct_rows_posted [OF assms(1)] posted_frame [OF assms(1)]
    by (simp add: wallet_inv_def user_ok_def reserved_def posted_of_def held_of_def)
qed

text \<open>A journal followed by one projection update, with the holds untouched.\<close>

lemma wallet_inv_post_update:
  assumes inv: "wallet_inv s" and p: "posted s j ps t1" and m: "moves u dp 0 ps"
    and w: "wallets t1 u = Some w" "w_posted w' = w_posted w + dp" "w_held w' = w_held w"
      "wallet_check w'" "w_posted w' \<le> i64_max"
    and t: "t = t1\<lparr>wallets := (wallets t1)(u \<mapsto> w')\<rparr>"
  shows "wallet_inv t"
  using posted_frame(1,2) [OF p] inv w t
  by (intro wallet_inv_move [OF inv p m, of w w'])
    (auto simp: wallet_inv_def reserved_def)

lemma moves_topup: "0 < units \<Longrightarrow> moves u units 0 (topup_postings u gross units fee)"
  by (simp add: moves_def topup_postings_def)

lemma wallet_inv_credit:
  assumes inv: "wallet_inv s" and post: "post_journal_tx sk sid act fp ps now s = Inr (r, t1)"
    and m: "moves u units 0 ps"
    and upd: "(if jr_inserted r then bind_tx (add_posted_tx ctx u units now) (\<lambda>n. require_tx (n = 1) e)
      else return_tx ()) t1 = Inr (x, t)"
  shows "wallet_inv t"
  using post
proof (cases rule: post_journal_tx_cases)
  case (replay j)
  with upd inv show ?thesis by (simp add: tx_simps)
next
  case (fresh j)
  with upd obtain w where "wallets t1 u = Some w" "w_posted w \<le> i64_max - units"
    "wallet_check (w\<lparr>w_posted := w_posted w + units, w_version := w_version w + 1, w_updated_at := now\<rparr>)"
    "t = t1\<lparr>wallets := (wallets t1)(u \<mapsto>
       w\<lparr>w_posted := w_posted w + units, w_version := w_version w + 1, w_updated_at := now\<rparr>)\<rparr>"
    by (auto simp: wallet_tx_simps)
  with inv m fresh show ?thesis
    by (intro wallet_inv_post_update [OF inv fresh(10) m]) auto
qed

lemma wallet_inv_debit:
  assumes inv: "wallet_inv s" and post: "post_journal_tx sk sid act fp ps now s = Inr (r, t1)"
    and m: "moves u (- units) 0 ps" and pos: "0 < units"
    and upd: "jr_inserted r \<Longrightarrow> bind_tx (sub_posted_tx ctx u units now) (\<lambda>n. require_tx (n = 1) e) t1 = Inr (x, t)"
    and skip: "\<not> jr_inserted r \<Longrightarrow> t = t1"
  shows "wallet_inv t"
  using post
proof (cases rule: post_journal_tx_cases)
  case (replay j)
  with skip inv show ?thesis by simp
next
  case (fresh j)
  with upd obtain w where w: "wallets t1 u = Some w"
    "wallet_check (w\<lparr>w_posted := w_posted w - units, w_version := w_version w + 1, w_updated_at := now\<rparr>)"
    "t = t1\<lparr>wallets := (wallets t1)(u \<mapsto>
       w\<lparr>w_posted := w_posted w - units, w_version := w_version w + 1, w_updated_at := now\<rparr>)\<rparr>"
    by (auto simp: wallet_tx_simps)
  with posted_frame(1) [OF fresh(10)] wallet_inv_row [OF inv, of u w] have "w_posted w \<le> i64_max" by simp
  with inv m fresh w pos show ?thesis
    by (intro wallet_inv_post_update [OF inv fresh(10) m]) auto
qed

lemma credit_verified_topup_inv:
  assumes "credit_verified_topup_tx u oid amt rf now s = Inr (r, t)" "wallet_inv s"
  shows "wallet_inv t"
proof -
  from assms(1) obtain cm fm units gross fee s1 t1 fp x where
    units: "units_from_minor cm = Inr units"
    and ens: "ensure_wallet_tx u now s = Inr (x, s1)"
    and post: "post_journal_tx ''topup'' oid ''credit'' fp (topup_postings u gross units fee) now s1 = Inr (r, t1)"
    and upd: "(if jr_inserted r then bind_tx (add_posted_tx ''credit market wallet'' u units now)
        (\<lambda>n. require_tx (n = 1) (Internal ''market wallet credit overflow'')) else return_tx ()) t1 = Inr ((), t)"
    by (clarsimp simp: credit_verified_topup_tx_def tx_simps)
  show ?thesis
    by (rule wallet_inv_credit [OF wallet_inv_ensure [OF ens assms(2)] post _ upd])
      (use units_from_minor_pos [OF units] in \<open>simp add: moves_topup\<close>)
qed

lemma credit_manual_topup_inv:
  assumes "credit_manual_topup_tx u oid amt rf now s = Inr (r, t)" "wallet_inv s"
  shows "wallet_inv t"
proof -
  from assms(1) obtain cm fm units gross fee s1 t1 fp x where
    units: "units_from_minor cm = Inr units"
    and ens: "ensure_wallet_tx u now s = Inr (x, s1)"
    and post: "post_journal_tx ''topup'' oid ''credit_manual'' fp (topup_postings u gross units fee) now s1
      = Inr (r, t1)"
    and upd: "(if jr_inserted r then bind_tx (add_posted_tx ''credit market wallet'' u units now)
        (\<lambda>n. require_tx (n = 1) (Internal ''market wallet credit overflow'')) else return_tx ()) t1 = Inr ((), t)"
    by (clarsimp simp: credit_manual_topup_tx_def tx_simps)
  show ?thesis
    by (rule wallet_inv_credit [OF wallet_inv_ensure [OF ens assms(2)] post _ upd])
      (use units_from_minor_pos [OF units] in \<open>simp add: moves_topup\<close>)
qed

lemma moves_reversal:
  "moves u (if 0 < fw then - fw else 0) 0 (reversal_postings u gross fee fw short)"
  by (simp add: moves_def reversal_postings_def)

lemma reverse_topup_credit_inv:
  assumes "reverse_topup_credit_tx u oid amt ev now s = Inr (x, t)" "wallet_inv s"
  shows "wallet_inv t"
proof -
  from assms(1) obtain r fw short gross fee t1 fp where
    post: "post_journal_tx ''topup'' oid (''reverse:'' @ ev) fp (reversal_postings u gross fee fw short) now s
      = Inr (r, t1)"
    and upd: "(if jr_inserted r \<and> 0 < fw
       then bind_tx (sub_posted_tx ''reverse market wallet credit'' u fw now)
              (\<lambda>n. require_tx (n = 1) (Conflict ''wallet balance changed during reversal''))
       else return_tx ()) t1 = Inr ((), t)"
    by (clarsimp simp: reverse_topup_credit_tx_def tx_simps Let_def simp del: min_less_iff_conj wallet_snapshot_of)
  show ?thesis
  proof (cases "0 < fw")
    case True
    then show ?thesis
      using upd moves_reversal [of u fw gross fee short]
      by (intro wallet_inv_debit [OF assms(2) post]) (auto simp: tx_simps)
  next
    case False
    with upd have "t = t1" by (simp add: tx_simps)
    moreover have "\<forall>p \<in> set (reversal_postings u gross fee fw short). p_kind p \<notin> {''wallet_available'', ''wallet_held''}"
      using False by (auto simp: reversal_postings_def)
    ultimately show ?thesis
      using post assms(2) by (auto elim!: post_journal_tx_cases intro: wallet_inv_post_other)
  qed
qed

lemma target_not_wallet:
  "k \<in> set capture_targets \<or> k \<in> set debit_targets \<or> k \<in> set refund_sources \<Longrightarrow>
   k \<noteq> ''wallet_available'' \<and> k \<noteq> ''wallet_held''"
  by (auto simp: capture_targets_def debit_targets_def refund_sources_def)

lemma existing_journal_tx_Inr:
  "existing_journal_tx sk sid act fp s = Inr (x, t) \<longleftrightarrow> t = s \<and>
     (case find_journal sk sid act s of
        None \<Rightarrow> x = None
      | Some j \<Rightarrow> j_fingerprint j = fp \<and> x = Some \<lparr>jr_id = j_id j, jr_inserted = False\<rparr>)"
  by (auto simp: existing_journal_tx_def split: option.splits)

lemma post_journal_tx_None:
  assumes "post_journal_tx sk sid act fp ps now s = Inr (r, t)" "find_journal sk sid act s = None"
  shows "jr_inserted r"
  using assms by (auto elim: post_journal_tx_cases)

lemma debit_available_inv:
  assumes op: "debit_available_tx u amt tk tid sk sid act now s = Inr (r, t)" and inv: "wallet_inv s"
  shows "wallet_inv t"
proof (cases "find_journal sk sid act s")
  case (Some j)
  with op inv show ?thesis
    by (auto simp: debit_available_tx_def tx_simps Let_def existing_journal_tx_Inr split: if_splits)
next
  case None
  with op obtain fp t1 where amt: "0 < amt" "tk \<in> set debit_targets"
    and post: "post_journal_tx sk sid act fp
       [\<lparr>p_kind = ''wallet_available'', p_subject = u, p_units = amt\<rparr>,
        \<lparr>p_kind = tk, p_subject = tid, p_units = - amt\<rparr>] now s = Inr (r, t1)"
    and upd: "bind_tx (sub_posted_tx ''debit market wallet'' u amt now)
       (\<lambda>n. require_tx (n = 1) (Conflict ''insufficient market wallet balance'')) t1 = Inr ((), t)"
    by (auto simp: debit_available_tx_def tx_simps Let_def existing_journal_tx_Inr split: if_splits)
  show ?thesis
    by (rule wallet_inv_debit [OF inv post _ amt(1) upd])
      (use amt target_not_wallet [of tk] post_journal_tx_None [OF post None] in \<open>auto simp: moves_def\<close>)
qed

lemma credit_wallet_from_liability_inv:
  assumes op: "credit_wallet_from_liability_tx u amt lk lid sk sid act now s = Inr (r, t)"
    and inv: "wallet_inv s"
  shows "wallet_inv t"
proof (cases "find_journal sk sid act s")
  case (Some j)
  with op inv show ?thesis
    by (auto simp: credit_wallet_from_liability_tx_def tx_simps Let_def existing_journal_tx_Inr split: if_splits)
next
  case None
  with op obtain fp s1 t1 x where amt: "0 < amt" "lk \<in> set refund_sources"
    and ens: "ensure_wallet_tx u now s = Inr (x, s1)"
    and post: "post_journal_tx sk sid act fp
       [\<lparr>p_kind = lk, p_subject = lid, p_units = amt\<rparr>,
        \<lparr>p_kind = ''wallet_available'', p_subject = u, p_units = - amt\<rparr>] now s1 = Inr (r, t1)"
    and upd: "bind_tx (add_posted_tx ''credit refunded market wallet'' u amt now)
       (\<lambda>n. require_tx (n = 1) (Internal ''market wallet refund overflow'')) t1 = Inr ((), t)"
    by (auto simp: credit_wallet_from_liability_tx_def tx_simps Let_def existing_journal_tx_Inr split: if_splits)
  from None ensure_wallet_tx_Inr(10) [OF ens] post have "jr_inserted r"
    by (auto intro: post_journal_tx_None)
  with upd show ?thesis
    by (intro wallet_inv_credit [OF wallet_inv_ensure [OF ens inv] post, of u amt
        "''credit refunded market wallet''" "Internal ''market wallet refund overflow''" "()"])
      (use amt target_not_wallet [of lk] in \<open>auto simp: moves_def\<close>)
qed


subsection \<open>Holds\<close>

lemma sum_list_update_one:
  fixes g :: "'b \<Rightarrow> int"
  assumes "distinct (map f hs)" "h \<in> set hs" "f h = i" "P h"
  shows "sum_list (map g (map (\<lambda>x. if f x = i \<and> P x then upd x else x) hs))
    = sum_list (map g hs) - g h + g (upd h)"
  using assms
proof (induction hs)
  case (Cons y hs)
  show ?case
  proof (cases "y = h")
    case True
    with Cons.prems have "map (\<lambda>x. if f x = i \<and> P x then upd x else x) hs = hs"
      by (intro map_idI) (force simp: image_iff)
    with True Cons.prems show ?thesis by simp
  next
    case False
    with Cons.prems have "h \<in> set hs" "f y \<noteq> i" by (auto simp: image_iff)
    with Cons show ?thesis by simp
  qed
qed simp

lemma find_hold_Some: "find_hold i s = Some h \<Longrightarrow> h \<in> set (holds s) \<and> h_id h = i"
  by (auto simp: find_hold_def find_Some_iff)

lemma find_hold_by_source_None:
  "find_hold_by_source a b c s = None \<longleftrightarrow> (a, b, c) \<notin> hold_source ` set (holds s)"
  by (auto simp: find_hold_by_source_def find_None_iff hold_source_def)

lemma update_hold_tx_Inr:
  assumes "update_hold_tx ctx i g f s = Inr (n, t)"
  shows "t = s\<lparr>holds := map (\<lambda>h. if h_id h = i \<and> g h then f h else h) (holds s)\<rparr>"
    "\<forall>h \<in> set (holds s). h_id h = i \<and> g h \<longrightarrow> hold_check (f h)"
  using assms by (auto simp: update_hold_tx_def Let_def split: if_splits)

lemma holds_ok_update:
  assumes "holds_ok hs" "\<forall>h \<in> set hs. h_id h = i \<and> g h \<longrightarrow> hold_check (f h)"
    "\<And>h. h_id (f h) = h_id h" "\<And>h. hold_source (f h) = hold_source h"
  shows "holds_ok (map (\<lambda>h. if h_id h = i \<and> g h then f h else h) hs)"
proof -
  let ?u = "\<lambda>h. if h_id h = i \<and> g h then f h else h"
  have "h_id \<circ> ?u = h_id" "hold_source \<circ> ?u = hold_source"
    by (auto simp: assms(3,4))
  with assms(1,2) show ?thesis by (auto simp: holds_ok_def)
qed

lemma reserved_update:
  assumes "holds_ok (holds s)" "find_hold i s = Some h" "g h"
    "holds t = map (\<lambda>x. if h_id x = i \<and> g x then f x else x) (holds s)"
  shows "reserved v t = reserved v s - hold_units v h + hold_units v (f h)"
  using sum_list_update_one [of h_id "holds s" h i g "hold_units v" f] assms find_hold_Some [of i s h]
  by (simp add: reserved_def holds_ok_def)

lemma moves_hold:
  "amt \<noteq> 0 \<Longrightarrow> moves u 0 amt [\<lparr>p_kind = ''wallet_available'', p_subject = u, p_units = amt\<rparr>,
     \<lparr>p_kind = ''wallet_held'', p_subject = u, p_units = - amt\<rparr>]"
  by (simp add: moves_def)

text \<open>
  The three operations on holds, inverted: either nothing changed, or one journal
  was posted, one hold row and one wallet row changed.
\<close>

lemma reserve_wallet_cases:
  assumes op: "reserve_wallet_tx u sk sid pp amt ex now s = Inr (i, t)"
  obtains (replay) h where "find_hold_by_source sk sid pp s = Some h" "h_id h = i" "h_user h = u"
      "h_amount h = amt" "h_status h = Active" "t = s"
  | (fresh) h x s1 n j t1 w where "find_hold_by_source sk sid pp s = None" "0 < amt"
      "h = \<lparr>h_id = i, h_user = u, h_source_kind = sk, h_source_id = sid, h_purpose = pp, h_amount = amt,
        h_remaining = amt, h_status = Active, h_created_at = now, h_updated_at = now, h_expires_at = ex\<rparr>"
      "ensure_wallet_tx u now s = Inr (x, s1)"
      "posted (s1\<lparr>uuid_drawn := n\<rparr>) j [\<lparr>p_kind = ''wallet_available'', p_subject = u, p_units = amt\<rparr>,
         \<lparr>p_kind = ''wallet_held'', p_subject = u, p_units = - amt\<rparr>] t1"
      "hold_check h" "h_id h \<notin> h_id ` set (holds s1)" "hold_source h \<notin> hold_source ` set (holds s1)"
      "wallets s1 u = Some w" "amt \<le> w_posted w - w_held w"
      "wallet_check (w\<lparr>w_held := w_held w + amt, w_version := w_version w + 1, w_updated_at := now\<rparr>)"
      "t = t1\<lparr>holds := holds s1 @ [h], wallets := (wallets s1)(u \<mapsto>
         w\<lparr>w_held := w_held w + amt, w_version := w_version w + 1, w_updated_at := now\<rparr>)\<rparr>"
proof (cases "find_hold_by_source sk sid pp s")
  case (Some h)
  with op replay show thesis
    by (auto simp: reserve_wallet_tx_def tx_simps split: if_splits)
next
  case None
  define h where "h = \<lparr>h_id = i, h_user = u, h_source_kind = sk, h_source_id = sid,
     h_purpose = pp, h_amount = amt, h_remaining = amt, h_status = Active,
     h_created_at = now, h_updated_at = now, h_expires_at = ex\<rparr>"
  from op None obtain s1 r t1 t2 fp x n where amt: "0 < amt"
    and ens: "ensure_wallet_tx u now s = Inr (x, s1)"
    and post: "post_journal_tx sk sid (''reserve:'' @ pp) fp
       [\<lparr>p_kind = ''wallet_available'', p_subject = u, p_units = amt\<rparr>,
        \<lparr>p_kind = ''wallet_held'', p_subject = u, p_units = - amt\<rparr>] now (s1\<lparr>uuid_drawn := n\<rparr>) = Inr (r, t1)"
    and r: "jr_inserted r"
    and ins: "insert_hold_tx h t1 = Inr ((), t2)"
    and upd: "add_held_tx ''reserve market wallet'' u amt now t2 = Inr (Suc 0, t)"
    by (auto simp: reserve_wallet_tx_def tx_simps h_def split: if_splits)
  from post r obtain j where p: "posted (s1\<lparr>uuid_drawn := n\<rparr>) j
      [\<lparr>p_kind = ''wallet_available'', p_subject = u, p_units = amt\<rparr>,
       \<lparr>p_kind = ''wallet_held'', p_subject = u, p_units = - amt\<rparr>] t1"
    by (auto elim: post_journal_tx_cases)
  have fr: "wallets t1 = wallets s1" "holds t1 = holds s1" using posted_frame(1,2) [OF p] by simp_all
  from ins fr have t2: "t2 = t1\<lparr>holds := holds s1 @ [h]\<rparr>" "hold_check h" "h_id h \<notin> h_id ` set (holds s1)"
    "hold_source h \<notin> hold_source ` set (holds s1)"
    by (auto simp: insert_hold_tx_def find_hold_by_source_None hold_source_def split: if_splits)
  from upd t2(1) fr obtain w where w: "wallets s1 u = Some w" "amt \<le> w_posted w - w_held w"
    "wallet_check (w\<lparr>w_held := w_held w + amt, w_version := w_version w + 1, w_updated_at := now\<rparr>)"
    "t = t1\<lparr>holds := holds s1 @ [h], wallets := (wallets s1)(u \<mapsto>
        w\<lparr>w_held := w_held w + amt, w_version := w_version w + 1, w_updated_at := now\<rparr>)\<rparr>"
    by (auto simp: wallet_tx_simps)
  show thesis by (rule fresh [OF None amt h_def ens p t2(2-4) w])
qed

lemma capture_hold_cases:
  assumes op: "capture_hold_tx i amt tk tid ak aid now s = Inr (r, t)"
  defines "g \<equiv> \<lambda>x. h_status x = Active \<and> h_remaining x \<ge> amt"
  defines "f \<equiv> \<lambda>x. x\<lparr>h_remaining := h_remaining x - amt,
      h_status := (if h_remaining x = amt then Captured else Active), h_updated_at := now\<rparr>"
  defines "fw \<equiv> \<lambda>w. w\<lparr>w_posted := w_posted w - amt, w_held := w_held w - amt,
      w_version := w_version w + 1, w_updated_at := now\<rparr>"
  obtains (replay) "\<not> jr_inserted r" "t = s"
  | (fresh) h j t1 w where "jr_inserted r" "0 < amt" "tk \<in> set capture_targets"
      "find_hold i s = Some h" "g h"
      "posted s j [\<lparr>p_kind = ''wallet_held'', p_subject = h_user h, p_units = amt\<rparr>,
        \<lparr>p_kind = tk, p_subject = tid, p_units = - amt\<rparr>] t1"
      "\<forall>x \<in> set (holds s). h_id x = i \<and> g x \<longrightarrow> hold_check (f x)"
      "wallets s (h_user h) = Some w" "wallet_check (fw w)"
      "t = t1\<lparr>holds := map (\<lambda>x. if h_id x = i \<and> g x then f x else x) (holds s),
        wallets := (wallets s)(h_user h \<mapsto> fw w)\<rparr>"
      "jr_id r = j_id j" "j_source_kind j = ak"
proof (cases "find_journal ak aid ''capture'' s")
  case (Some j)
  with op replay show thesis
    by (auto simp: capture_hold_tx_def tx_simps Let_def existing_journal_tx_Inr split: if_splits option.splits)
next
  case None
  let ?ps = "\<lambda>h. [\<lparr>p_kind = ''wallet_held'', p_subject = h_user h, p_units = amt\<rparr>,
        \<lparr>p_kind = tk, p_subject = tid, p_units = - amt\<rparr>]"
  from op None obtain h t1 t2 fp where amt: "0 < amt" "tk \<in> set capture_targets"
    and h: "find_hold i s = Some h" "g h"
    and post: "post_journal_tx ak aid ''capture'' fp (?ps h) now s = Inr (r, t1)"
    and uh: "update_hold_tx ''capture market hold'' i g f t1 = Inr (Suc 0, t2)"
    and uw: "update_wallet_tx ''debit captured market wallet'' (h_user h) (\<lambda>w. amt \<le> w_held w) fw t2
      = Inr (Suc 0, t)"
    by (auto simp: capture_hold_tx_def tx_simps Let_def existing_journal_tx_Inr g_def f_def fw_def
        split: if_splits option.splits)
  from post post_journal_tx_None [OF post None] obtain j where p: "posted s j (?ps h) t1"
    and jr: "jr_id r = j_id j" "j_source_kind j = ak"
    by (auto elim: post_journal_tx_cases)
  note fr = posted_frame(1,2) [OF p]
  note t2 = update_hold_tx_Inr [OF uh, unfolded fr]
  from uw t2(1) fr obtain w where w: "wallets s (h_user h) = Some w" "wallet_check (fw w)"
    "t = t1\<lparr>holds := map (\<lambda>x. if h_id x = i \<and> g x then f x else x) (holds s),
        wallets := (wallets s)(h_user h \<mapsto> fw w)\<rparr>"
    by (auto simp: update_wallet_tx_1)
  show thesis by (rule fresh [OF post_journal_tx_None [OF post None] amt h p t2(2) w jr])
qed

lemma release_hold_cases:
  assumes op: "release_hold_tx i now s = Inr (r, t)"
  defines "f \<equiv> \<lambda>x. x\<lparr>h_remaining := 0, h_status := Released, h_updated_at := now\<rparr>"
  defines "fw \<equiv> \<lambda>h w. w\<lparr>w_held := w_held w - h_remaining h, w_version := w_version w + 1,
      w_updated_at := now\<rparr>"
  obtains (finished) h where "find_hold i s = Some h" "h_status h \<noteq> Active" "r = None" "t = s"
  | (released) h j t1 w where "find_hold i s = Some h" "h_status h = Active" "r \<noteq> None"
      "posted s j [\<lparr>p_kind = ''wallet_held'', p_subject = h_user h, p_units = h_remaining h\<rparr>,
        \<lparr>p_kind = ''wallet_available'', p_subject = h_user h, p_units = - h_remaining h\<rparr>] t1"
      "\<forall>x \<in> set (holds s). h_id x = i \<and> h_status x = Active \<longrightarrow> hold_check (f x)"
      "wallets s (h_user h) = Some w" "wallet_check (fw h w)"
      "t = t1\<lparr>holds := map (\<lambda>x. if h_id x = i \<and> h_status x = Active then f x else x) (holds s),
        wallets := (wallets s)(h_user h \<mapsto> fw h w)\<rparr>"
proof -
  let ?ps = "\<lambda>h. [\<lparr>p_kind = ''wallet_held'', p_subject = h_user h, p_units = h_remaining h\<rparr>,
     \<lparr>p_kind = ''wallet_available'', p_subject = h_user h, p_units = - h_remaining h\<rparr>]"
  from op obtain h where h: "find_hold i s = Some h"
    by (auto simp: release_hold_tx_def tx_simps split: option.splits)
  show thesis
  proof (cases "h_status h = Active")
    case False
    with op h show thesis by (intro finished [OF h]) (auto simp: release_hold_tx_def tx_simps)
  next
    case True
    with op h obtain r' t1 t2 fp n where
      post: "post_journal_tx ''hold'' i ''release'' fp (?ps h) now s = Inr (r', t1)"
      and r': "jr_inserted r'" "r \<noteq> None"
      and uh: "update_hold_tx ''release market hold'' i (\<lambda>x. h_status x = Active) f t1 = Inr (n, t2)"
      and uw: "update_wallet_tx ''unfreeze market wallet'' (h_user h) (\<lambda>w. h_remaining h \<le> w_held w) (fw h) t2
        = Inr (Suc 0, t)"
      by (auto simp: release_hold_tx_def tx_simps f_def fw_def)
    from post r' obtain j where p: "posted s j (?ps h) t1"
      by (auto elim: post_journal_tx_cases)
    note fr = posted_frame(1,2) [OF p]
    note t2 = update_hold_tx_Inr [OF uh, unfolded fr]
    from uw t2(1) fr obtain w where w: "wallets s (h_user h) = Some w" "wallet_check (fw h w)"
      "t = t1\<lparr>holds := map (\<lambda>x. if h_id x = i \<and> h_status x = Active then f x else x) (holds s),
        wallets := (wallets s)(h_user h \<mapsto> fw h w)\<rparr>"
      by (auto simp: update_wallet_tx_1)
    show thesis by (rule released [OF h True r'(2) p t2(2) w])
  qed
qed

lemma reserve_wallet_inv:
  assumes op: "reserve_wallet_tx u sk sid pp amt ex now s = Inr (i, t)" and inv: "wallet_inv s"
  shows "wallet_inv t"
  using op
proof (cases rule: reserve_wallet_cases)
  case (fresh h x s1 n j t1 w)
  have inv1: "wallet_inv (s1\<lparr>uuid_drawn := n\<rparr>)" using wallet_inv_ensure [OF fresh(4) inv] by simp
  have hok: "holds_ok (holds t)"
    using fresh inv1 by (auto simp: wallet_inv_def holds_ok_def)
  have res: "reserved v t = reserved v (s1\<lparr>uuid_drawn := n\<rparr>) + (if v = u then amt else 0)" for v
    using fresh(3,12) by (simp add: reserved_def hold_units_def)
  have wp: "w_posted w \<le> i64_max"
    using wallet_inv_row [OF inv1, of u w] fresh(9) by simp
  show ?thesis
    by (rule wallet_inv_move [OF inv1 fresh(5) moves_hold _ _ _ fresh(11) _ _ _ _ _ hok res])
      (use fresh wp in auto)
qed (use inv in simp)

lemma capture_hold_inv:
  assumes op: "capture_hold_tx i amt tk tid ak aid now s = Inr (r, t)" and inv: "wallet_inv s"
  shows "wallet_inv t"
  using op
proof (cases rule: capture_hold_cases)
  case (fresh h j t1 w)
  have hs: "holds_ok (holds s)" using inv by (simp add: wallet_inv_def)
  have hok: "holds_ok (holds t)"
    using holds_ok_update [OF hs fresh(7)] fresh(10) by (simp add: hold_source_def)
  have res: "reserved v t = reserved v s + (if v = h_user h then - amt else 0)" for v
    using reserved_update [OF hs fresh(4), of "\<lambda>x. h_status x = Active \<and> h_remaining x \<ge> amt" t
        "\<lambda>x. x\<lparr>h_remaining := h_remaining x - amt,
           h_status := (if h_remaining x = amt then Captured else Active), h_updated_at := now\<rparr>" v] fresh(5,10)
    by (auto simp: hold_units_def)
  have mv: "moves (h_user h) (- amt) (- amt) [\<lparr>p_kind = ''wallet_held'', p_subject = h_user h, p_units = amt\<rparr>,
        \<lparr>p_kind = tk, p_subject = tid, p_units = - amt\<rparr>]"
    using fresh(2,3) target_not_wallet [of tk] by (auto simp: moves_def)
  show ?thesis
    by (rule wallet_inv_move [OF inv fresh(6) mv fresh(8) _ _ fresh(9) _ _ _ _ _ hok res])
      (use fresh wallet_inv_row [OF inv fresh(8)] in auto)
qed (use inv in simp)

lemma release_hold_inv:
  assumes op: "release_hold_tx i now s = Inr (r, t)" and inv: "wallet_inv s"
  shows "wallet_inv t"
  using op
proof (cases rule: release_hold_cases)
  case (released h j t1 w)
  have hs: "holds_ok (holds s)" using inv by (simp add: wallet_inv_def)
  have hok: "holds_ok (holds t)"
    using holds_ok_update [OF hs released(5)] released(8) by (simp add: hold_source_def)
  have res: "reserved v t = reserved v s + (if v = h_user h then - h_remaining h else 0)" for v
    using reserved_update [OF hs released(1), of "\<lambda>x. h_status x = Active" t
        "\<lambda>x. x\<lparr>h_remaining := 0, h_status := Released, h_updated_at := now\<rparr>" v] released(2,8)
    by (auto simp: hold_units_def)
  have pos: "0 < h_remaining h"
    using hs find_hold_Some [OF released(1)] released(2) by (auto simp: holds_ok_def hold_check_def)
  have mv: "moves (h_user h) 0 (- h_remaining h)
     [\<lparr>p_kind = ''wallet_held'', p_subject = h_user h, p_units = h_remaining h\<rparr>,
      \<lparr>p_kind = ''wallet_available'', p_subject = h_user h, p_units = - h_remaining h\<rparr>]"
    using pos by (auto simp: moves_def)
  show ?thesis
    by (rule wallet_inv_move [OF inv released(4) mv released(6) _ _ released(7) _ _ _ _ _ hok res])
      (use released wallet_inv_row [OF inv released(6)] in auto)
qed (use inv in simp)

end
