(* ===== verification/Wallet_Properties.thy ===== *)
theory Wallet_Properties
  imports Wallet_Invariant
begin

text \<open>
  The wallet as a machine driven by its operations, and the properties of
  \<open>src/src/market_wallet.rs\<close>: reconciliation in every reachable state, exact
  effects, idempotent retries, and the limits of every debit and refund.
\<close>


section \<open>The wallet machine\<close>

text \<open>
  A command is one call, run in its own transaction. \<open>PostOther\<close> is a journal that
  another component posts on accounts other than the two wallet accounts, and
  \<open>OrdersChanged\<close> any change of the top-up order tables by their own component.
\<close>

datatype wallet_cmd =
    CreditVerified string string int string string
  | CreditManual string string int string string
  | ReverseTopup string string int string string
  | Reserve string string string string int "string option" string
  | Capture string int string string string string string
  | Debit string int string string string string string string
  | Refund string int string string string string string string
  | Release string string
  | PostOther string string string string "posting list" string
  | OrdersChanged "string \<rightharpoonup> topup_order" "owner_action list"

definition wallet_kinds :: "string list" where
  "wallet_kinds = [''wallet_available'', ''wallet_held'']"

fun wallet_step :: "wallet_cmd \<Rightarrow> 'a wallet_db_scheme \<Rightarrow> 'a wallet_db_scheme" where
  "wallet_step (CreditVerified u oid amt rf now) = commit_tx (credit_verified_topup_tx u oid amt rf now)"
| "wallet_step (CreditManual u oid amt rf now) = commit_tx (credit_manual_topup_tx u oid amt rf now)"
| "wallet_step (ReverseTopup u oid amt ev now) = commit_tx (reverse_topup_credit_tx u oid amt ev now)"
| "wallet_step (Reserve u sk sid pp amt ex now) = commit_tx (reserve_wallet_tx u sk sid pp amt ex now)"
| "wallet_step (Capture i amt tk tid ak aid now) = commit_tx (capture_hold_tx i amt tk tid ak aid now)"
| "wallet_step (Debit u amt tk tid sk sid act now) = commit_tx (debit_available_tx u amt tk tid sk sid act now)"
| "wallet_step (Refund u amt lk lid sk sid act now) =
     commit_tx (credit_wallet_from_liability_tx u amt lk lid sk sid act now)"
| "wallet_step (Release i now) = commit_tx (release_hold_tx i now)"
| "wallet_step (PostOther sk sid act fp ps now) =
     (if \<exists>p \<in> set ps. p_kind p \<in> set wallet_kinds then (\<lambda>s. s)
      else commit_tx (post_journal_tx sk sid act fp ps now))"
| "wallet_step (OrdersChanged orders actions) =
     (\<lambda>s. s\<lparr>topup_orders := orders, owner_actions := actions\<rparr>)"

definition empty_wallet_db :: "(nat \<Rightarrow> string) \<Rightarrow> wallet_db" where
  "empty_wallet_db ids =
     \<lparr>uuid_supply = ids, uuid_drawn = 0, wallets = (\<lambda>_. None), journals = [], postings = [], seals = [],
      holds = [], topup_orders = (\<lambda>_. None), owner_actions = []\<rparr>"

lemmas wallet_op_inv =
  credit_verified_topup_inv credit_manual_topup_inv reverse_topup_credit_inv reserve_wallet_inv
  capture_hold_inv debit_available_inv credit_wallet_from_liability_inv release_hold_inv

lemma post_other_inv:
  assumes "post_journal_tx sk sid act fp ps now s = Inr (r, t)" "wallet_inv s"
    "\<not> (\<exists>p \<in> set ps. p_kind p \<in> set wallet_kinds)"
  shows "wallet_inv t"
  using assms(1)
proof (cases rule: post_journal_tx_cases)
  case (fresh j)
  then show ?thesis
    by (elim wallet_inv_post_other [OF _ assms(2)]) (use assms(3) in \<open>auto simp: wallet_kinds_def\<close>)
qed (use assms(2) in simp)

lemma wallet_step_inv:
  assumes "wallet_inv s"
  shows "wallet_inv (wallet_step c s)"
proof (cases c)
  case (PostOther sk sid act fp ps now)
  then show ?thesis
    using assms commit_tx_inv [of wallet_inv s "post_journal_tx sk sid act fp ps now"] post_other_inv
    by (cases "\<exists>p \<in> set ps. p_kind p \<in> set wallet_kinds") (simp, simp only: wallet_step.simps if_False, blast)
next
  case (OrdersChanged orders actions)
  then show ?thesis
    using assms wallet_inv_cong [of "s\<lparr>topup_orders := orders, owner_actions := actions\<rparr>" s] by simp
qed (simp only: wallet_step.simps, rule commit_tx_inv [of wallet_inv, OF assms], erule wallet_op_inv, rule assms)+

definition posting_log :: "'a wallet_db_scheme \<Rightarrow> 'a wallet_db_scheme \<Rightarrow> bool" where
  "posting_log s t \<longleftrightarrow> (\<exists>ps. postings t = postings s @ ps) \<and> (\<exists>js. journals t = journals s @ js)"

lemma posting_log_refl: "posting_log s s"
  by (simp add: posting_log_def)

lemma posting_log_trans: "posting_log s t \<Longrightarrow> posting_log t u \<Longrightarrow> posting_log s u"
  by (auto simp: posting_log_def)

interpretation log: tx_preorder posting_log
  by unfold_locales (rule posting_log_refl, rule posting_log_trans)

lemma within_log_same:
  "(\<And>s r t. m s = Inr (r, t) \<Longrightarrow> postings t = postings s \<and> journals t = journals s) \<Longrightarrow> within posting_log m"
  by (rule withinI) (auto simp: posting_log_def)

lemma within_log_post: "within posting_log (post_journal_tx sk sid act fp ps now)"
  by (rule withinI) (auto elim!: post_journal_tx_cases simp: posting_log_def posted_def)

lemma within_log_existing: "within posting_log (existing_journal_tx sk sid act fp)"
  by (rule within_log_same) (simp add: existing_journal_tx_Inr)

lemma within_log_tables:
  "within posting_log (ensure_wallet_tx u now)"
  "within posting_log (update_wallet_tx ctx u g f)"
  "within posting_log (insert_hold_tx h)"
  "within posting_log (update_hold_tx ctx i g' f')"
  "within posting_log new_v4"
  by (rule within_log_same,
      auto simp: ensure_wallet_tx_def update_wallet_tx_def insert_hold_tx_def update_hold_tx_def
        new_v4_def Let_def split: option.splits if_splits)+

lemmas within_log_rules = log.within_rules within_log_post within_log_existing within_log_tables

lemma wallet_ops_log:
  "within posting_log (credit_verified_topup_tx u oid amt rf now)"
  "within posting_log (credit_manual_topup_tx u oid amt rf now)"
  "within posting_log (reverse_topup_credit_tx u oid amt rf now)"
  "within posting_log (reserve_wallet_tx u sk sid pp amt ex now)"
  "within posting_log (capture_hold_tx i amt tk tid ak aid now)"
  "within posting_log (debit_available_tx u amt tk tid sk sid act now)"
  "within posting_log (credit_wallet_from_liability_tx u amt tk tid sk sid act now)"
  "within posting_log (release_hold_tx i now)"
  unfolding credit_verified_topup_tx_def credit_manual_topup_tx_def reverse_topup_credit_tx_def
    reserve_wallet_tx_def capture_hold_tx_def debit_available_tx_def
    credit_wallet_from_liability_tx_def release_hold_tx_def
    add_posted_tx_def sub_posted_tx_def add_held_tx_def
  by (intro within_log_rules)+

lemma wallet_step_log: "posting_log s (wallet_step c s)"
  by (cases c) (auto intro!: log.commit_within wallet_ops_log within_log_post simp: posting_log_refl,
      simp add: posting_log_def)

interpretation wallet: growing_machine wallet_step wallet_inv posting_log
  by unfold_locales (rule wallet_step_inv, assumption, rule posting_log_refl, rule posting_log_trans,
      assumption, assumption, rule wallet_step_log)

lemma empty_wallet_inv: "wallet_inv (empty_wallet_db ids)"
  by (simp add: wallet_inv_def empty_wallet_db_def ledger_ok_def journal_total_def holds_ok_def
      user_ok_def posted_of_def held_of_def acct_rows_def reserved_def credit_range_def i64_defs)

lemma wallet_inv_reconciles:
  assumes "wallet_inv s"
  shows "reconcile_wallet_tx v s = Inr ()"
proof -
  have ok: "user_ok v s" and hok: "holds_ok (holds s)" using assms by (auto simp: wallet_inv_def)
  have rng: "credit_range n \<Longrightarrow> in_i64 n" for n by (simp add: credit_range_def i64_defs)
  have rows: "map pr_units (filter (\<lambda>p. pr_kind p = k) (wallet_rows v s)) = acct_rows k v s"
    if "k \<in> {''wallet_available'', ''wallet_held''}" for k
    using that by (auto simp: wallet_rows_def acct_rows_def conj_commute intro!: arg_cong [where f = "map pr_units"] filter_cong)
  have sums: "sql_sum (map (\<lambda>p. if pr_kind p = k then pr_units p else 0) (wallet_rows v s)) = Some (acct_sum k v s)"
    if "k \<in> {''wallet_available'', ''wallet_held''}" for k
    using ok that rows [OF that] prefixes_ok_mono [of credit_range 0 "acct_rows k v s" in_i64, OF _ rng]
    by (subst sql_sum_ok) (auto simp: prefixes_ok_zero_filter sum_list_zero_filter user_ok_def)
  have "prefixes_ok in_i64 0 (active_remaining v s)"
    using hok ok active_remaining_sum [of v s]
    by (intro prefixes_ok_nonneg) (auto simp: active_remaining_def holds_ok_def hold_check_def user_ok_def)
  then have "sql_sum (active_remaining v s) = Some (reserved v s)"
    using sql_sum_ok active_remaining_sum by metis
  with ok sums show ?thesis by (simp add: reconcile_wallet_tx_def user_ok_def Let_def)
qed


section \<open>Reachable wallets\<close>

text \<open>
  C1. After any sequence of wallet operations, starting from empty tables and
  whatever identifiers the generator hands out, the reconciliation of any user
  succeeds: projection, journal and holds agree and no sum overflows.
\<close>

theorem wallet_always_reconciles:
  "reconcile_wallet_tx v (run_machine wallet_step cs (empty_wallet_db ids)) = Inr ()"
  by (rule wallet.run_always [OF empty_wallet_inv wallet_inv_reconciles])

text \<open>
  C7. In every reachable state all posted journals are sealed and balanced, the
  journal keys are unique and the whole ledger sums to zero; and the ledger is
  append-only: what was posted stays, in order, after any further operations.
\<close>

theorem wallet_ledger_sealed_and_append_only:
  "ledger_ok (run_machine wallet_step cs (empty_wallet_db ids))
   \<and> posting_log (run_machine wallet_step cs (empty_wallet_db ids))
       (run_machine wallet_step (cs @ ds) (empty_wallet_db ids))"
  using wallet.run_inv [OF empty_wallet_inv [of ids], of cs] wallet.run_grows
  by (simp add: wallet_inv_def run_machine_append)

text \<open>
  C13. In every reachable state a user's balances satisfy
  \<open>0 <= held <= posted <= i64::MAX\<close>, the available balance the service reports is
  what the journal owes the user, and the held balance is what the active holds
  reserve. No operation can overdraw a wallet.
\<close>

theorem wallet_never_overdrawn:
  fixes cs v ids
  defines "s \<equiv> run_machine wallet_step cs (empty_wallet_db ids)"
  defines "w \<equiv> wallet_snapshot_tx v s"
  shows "0 \<le> ws_held w \<and> ws_held w \<le> ws_posted w \<and> ws_posted w \<le> i64_max
    \<and> ws_available w = - acct_sum ''wallet_available'' v s
    \<and> ws_held w = sum_list (active_remaining v s)"
  using wallet.run_inv [OF empty_wallet_inv [of ids], of cs]
  by (simp add: w_def s_def wallet_inv_def user_ok_def active_remaining_sum)


section \<open>Effects of the operations\<close>

lemma debit_available_cases:
  assumes op: "debit_available_tx u amt tk tid sk sid act now s = Inr (r, t)"
  obtains (replay) j where "find_journal sk sid act s = Some j" "r = \<lparr>jr_id = j_id j, jr_inserted = False\<rparr>"
      "t = s" "j_fingerprint j = u @ '':'' @ show_int amt @ '':'' @ tk @ '':'' @ tid"
  | (fresh) j t1 w where "jr_inserted r" "0 < amt" "tk \<in> set debit_targets" "jr_id r = j_id j"
      "posted s j [\<lparr>p_kind = ''wallet_available'', p_subject = u, p_units = amt\<rparr>,
        \<lparr>p_kind = tk, p_subject = tid, p_units = - amt\<rparr>] t1"
      "j_source_kind j = sk" "j_source_id j = sid" "j_action j = act"
      "j_fingerprint j = u @ '':'' @ show_int amt @ '':'' @ tk @ '':'' @ tid"
      "wallets s u = Some w" "amt \<le> w_posted w - w_held w"
      "t = t1\<lparr>wallets := (wallets s)(u \<mapsto>
        w\<lparr>w_posted := w_posted w - amt, w_version := w_version w + 1, w_updated_at := now\<rparr>)\<rparr>"
proof (cases "find_journal sk sid act s")
  case (Some j)
  with op replay show thesis
    by (auto simp: debit_available_tx_def tx_simps Let_def existing_journal_tx_Inr split: if_splits)
next
  case None
  with op obtain t1 where amt: "0 < amt" "tk \<in> set debit_targets"
    and post: "post_journal_tx sk sid act (u @ '':'' @ show_int amt @ '':'' @ tk @ '':'' @ tid)
       [\<lparr>p_kind = ''wallet_available'', p_subject = u, p_units = amt\<rparr>,
        \<lparr>p_kind = tk, p_subject = tid, p_units = - amt\<rparr>] now s = Inr (r, t1)"
    and upd: "sub_posted_tx ''debit market wallet'' u amt now t1 = Inr (Suc 0, t)"
    by (auto simp: debit_available_tx_def tx_simps Let_def existing_journal_tx_Inr split: if_splits)
  from post None obtain j where p: "jr_inserted r" "jr_id r = j_id j" "j_source_kind j = sk" "j_source_id j = sid"
    "j_action j = act" "j_fingerprint j = u @ '':'' @ show_int amt @ '':'' @ tk @ '':'' @ tid"
    "posted s j [\<lparr>p_kind = ''wallet_available'', p_subject = u, p_units = amt\<rparr>,
        \<lparr>p_kind = tk, p_subject = tid, p_units = - amt\<rparr>] t1"
    by (cases rule: post_journal_tx_cases) auto
  from upd posted_frame(1) [OF p(7)] obtain w where "wallets s u = Some w" "amt \<le> w_posted w - w_held w"
    "t = t1\<lparr>wallets := (wallets s)(u \<mapsto>
        w\<lparr>w_posted := w_posted w - amt, w_version := w_version w + 1, w_updated_at := now\<rparr>)\<rparr>"
    by (auto simp: wallet_tx_simps)
  with p amt show thesis by (intro fresh [of j t1 w]) auto
qed

text \<open>
  C21. A debit that books something takes exactly its amount from the available
  balance of its user, which covered it, never touches reserved money, other
  users or holds, and books the same amount as a liability on its target; a debit
  that was booked before changes nothing.
\<close>

theorem debit_available_effect:
  assumes "debit_available_tx u amt tk tid sk sid act now s = Inr (r, t)"
  shows "if jr_inserted r
    then 0 < amt \<and> amt \<le> ws_available (wallet_snapshot_tx u s)
      \<and> (\<forall>v. ws_available (wallet_snapshot_tx v t) = ws_available (wallet_snapshot_tx v s) - (if v = u then amt else 0)
          \<and> ws_held (wallet_snapshot_tx v t) = ws_held (wallet_snapshot_tx v s))
      \<and> holds t = holds s
      \<and> (\<forall>k x. acct_sum k x t = acct_sum k x s + (if k = ''wallet_available'' \<and> x = u then amt else 0)
          - (if k = tk \<and> x = tid then amt else 0))
    else t = s"
  using assms
proof (cases rule: debit_available_cases)
  case (fresh j t1 w)
  have "acct_sum k x t = acct_sum k x t1" for k x using fresh(12) by (simp add: acct_rows_def)
  with fresh acct_rows_posted [OF fresh(5)] posted_frame [OF fresh(5)] show ?thesis
    by (auto simp: posted_of_def held_of_def)
qed simp

text \<open>
  Retrying a successful debit with the same identity and amount succeeds
  again, reports the same journal as already booked, and changes nothing, so a
  retried request is charged once.
\<close>

theorem debit_available_retry:
  assumes "debit_available_tx u amt tk tid sk sid act now s = Inr (r, t)"
  shows "debit_available_tx u amt tk tid sk sid act now' t = Inr (r\<lparr>jr_inserted := False\<rparr>, t)"
proof -
  have amt: "\<not> (amt \<le> 0 \<or> tk \<notin> set debit_targets)"
    using assms by (auto simp: debit_available_tx_def tx_simps split: if_splits)
  have "\<exists>j. find_journal sk sid act t = Some j \<and> j_id j = jr_id r
      \<and> j_fingerprint j = u @ '':'' @ show_int amt @ '':'' @ tk @ '':'' @ tid"
    using assms
  proof (cases rule: debit_available_cases)
    case (fresh j t1 w)
    then have "find_journal sk sid act t = Some j"
      using find_journal_posted [OF fresh(5)] by (simp add: find_journal_def)
    with fresh show ?thesis by simp
  qed auto
  with amt show ?thesis
    by (cases r) (auto simp: debit_available_tx_def existing_journal_tx_def tx_defs Let_def)
qed

lemma refund_cases:
  assumes op: "credit_wallet_from_liability_tx u amt lk lid sk sid act now s = Inr (r, t)"
  obtains (replay) j where "find_journal sk sid act s = Some j" "r = \<lparr>jr_id = j_id j, jr_inserted = False\<rparr>" "t = s"
  | (fresh) j s1 t1 w x where "jr_inserted r" "0 < amt" "lk \<in> set refund_sources"
      "acct_sum lk lid s \<le> - amt" "ensure_wallet_tx u now s = Inr (x, s1)"
      "posted s1 j [\<lparr>p_kind = lk, p_subject = lid, p_units = amt\<rparr>,
        \<lparr>p_kind = ''wallet_available'', p_subject = u, p_units = - amt\<rparr>] t1"
      "wallets s1 u = Some w"
      "t = t1\<lparr>wallets := (wallets s1)(u \<mapsto>
        w\<lparr>w_posted := w_posted w + amt, w_version := w_version w + 1, w_updated_at := now\<rparr>)\<rparr>"
      "j_source_kind j = sk" "j_source_id j = sid" "j_action j = act"
proof (cases "find_journal sk sid act s")
  case (Some j)
  with op replay show thesis
    by (auto simp: credit_wallet_from_liability_tx_def tx_simps Let_def existing_journal_tx_Inr split: if_splits)
next
  case None
  with op obtain s1 t1 fp b x where amt: "0 < amt" "lk \<in> set refund_sources"
    and b: "sql_sum (acct_rows lk lid s) = Some b" "b \<le> - amt"
    and ens: "ensure_wallet_tx u now s = Inr (x, s1)"
    and post: "post_journal_tx sk sid act fp
       [\<lparr>p_kind = lk, p_subject = lid, p_units = amt\<rparr>,
        \<lparr>p_kind = ''wallet_available'', p_subject = u, p_units = - amt\<rparr>] now s1 = Inr (r, t1)"
    and upd: "add_posted_tx ''credit refunded market wallet'' u amt now t1 = Inr (Suc 0, t)"
    by (auto simp: credit_wallet_from_liability_tx_def tx_simps Let_def existing_journal_tx_Inr
        split: if_splits option.splits)
  from post None ensure_wallet_tx_Inr(10) [OF ens] obtain j where p: "jr_inserted r" "posted s1 j
     [\<lparr>p_kind = lk, p_subject = lid, p_units = amt\<rparr>,
      \<lparr>p_kind = ''wallet_available'', p_subject = u, p_units = - amt\<rparr>] t1"
    "j_source_kind j = sk" "j_source_id j = sid" "j_action j = act"
    by (cases rule: post_journal_tx_cases) auto
  from upd posted_frame(1) [OF p(2)] obtain w where "wallets s1 u = Some w"
    "t = t1\<lparr>wallets := (wallets s1)(u \<mapsto>
        w\<lparr>w_posted := w_posted w + amt, w_version := w_version w + 1, w_updated_at := now\<rparr>)\<rparr>"
    by (auto simp: wallet_tx_simps)
  with p amt ens b sql_sum_Some [OF b(1)] show thesis by (intro fresh [of x s1 j t1 w]) auto
qed

text \<open>
  C22. A refund from a liability credits its user with exactly the amount it takes
  from the liability, and only when the liability holds that much: the liability
  never becomes negative, so a refund cannot create money. Everybody else's
  balance is untouched; a refund booked before changes nothing.
\<close>

theorem refund_never_exceeds_liability:
  assumes "credit_wallet_from_liability_tx u amt lk lid sk sid act now s = Inr (r, t)"
  shows "if jr_inserted r
    then 0 < amt \<and> amt \<le> - acct_sum lk lid s \<and> 0 \<le> - acct_sum lk lid t
      \<and> acct_sum lk lid t = acct_sum lk lid s + amt
      \<and> (\<forall>v. ws_available (wallet_snapshot_tx v t)
            = ws_available (wallet_snapshot_tx v s) + (if v = u then amt else 0)
          \<and> ws_held (wallet_snapshot_tx v t) = ws_held (wallet_snapshot_tx v s))
    else t = s"
  using assms
proof (cases rule: refund_cases)
  case (fresh j s1 t1 w x)
  note e = ensure_wallet_tx_Inr [OF fresh(5)]
  have k: "lk \<noteq> ''wallet_available''" using target_not_wallet fresh(3) by blast
  have lia: "acct_sum lk lid t = acct_sum lk lid s + amt"
    using fresh(8) acct_rows_posted [OF fresh(6), of lk lid] acct_rows_cong [OF e(2), of lk lid] k
      acct_rows_cong [of t t1 lk lid] by auto
  have "posted_of v t = posted_of v s1 + (if v = u then amt else 0)" "held_of v t = held_of v s1" for v
    using fresh(7,8) posted_frame(1) [OF fresh(6)] by (auto simp: posted_of_def held_of_def)
  with fresh(1,2,4) lia e(7,8) show ?thesis by simp
qed simp

lemma fee_at_props:
  assumes "0 < g" "0 \<le> f" "f \<le> g" "0 \<le> a" "a \<le> b"
  shows "fee_at g f a \<le> fee_at g f b" "fee_at g f b - fee_at g f a \<le> b - a"
    "fee_at g f 0 = 0" "fee_at g f g = f"
proof -
  show "fee_at g f a \<le> fee_at g f b"
    using assms by (auto simp: fee_at_def intro!: zdiv_mono1 mult_right_mono)
  have "b * f + g div 2 \<le> (a * f + g div 2) + (b - a) * g"
    using mult_left_mono [of f g "b - a"] assms by (simp add: algebra_simps)
  then have "fee_at g f b \<le> ((a * f + g div 2) + (b - a) * g) div g"
    unfolding fee_at_def using assms by (intro zdiv_mono1) auto
  also have "\<dots> = fee_at g f a + (b - a)" using assms by (simp add: fee_at_def)
  finally show "fee_at g f b - fee_at g f a \<le> b - a" by simp
  have "g div 2 < g" using assms by simp
  then show "fee_at g f 0 = 0" "fee_at g f g = f"
    using assms by (simp_all add: fee_at_def pos_imp_zdiv_nonneg_iff)
qed

lemma topup_reversal_terms_Inr:
  assumes "topup_reversal_terms_tx oid x s = Inr (p, f)" "topup_orders s oid = Some o'"
  shows "0 < x" "sum_list (prior_reversals oid s) + x \<le> t_amount_minor o'"
    "f = fee_at (t_amount_minor o') (t_platform_fee_minor o') (sum_list (prior_reversals oid s) + x)
       - fee_at (t_amount_minor o') (t_platform_fee_minor o') (sum_list (prior_reversals oid s))"
    "p + f = x"
  using assms
  by (auto simp: topup_reversal_terms_tx_def Let_def i64_simps checked_i64_def
      dest!: sql_sum_Some split: option.splits if_splits)

text \<open>
  Whatever was refunded before, an external refund of \<open>x\<close> cents is split into a
  principal and a fee part that add up to \<open>x\<close> and are both nonnegative: the
  buyer is never asked for more than the refund.
\<close>

theorem topup_reversal_split:
  assumes "topup_reversal_terms_tx oid x s = Inr (principal_minor, fee_minor)"
    and "topup_orders s oid = Some ord" "0 \<le> t_platform_fee_minor ord"
      "t_platform_fee_minor ord \<le> t_amount_minor ord"
    and "\<forall>a \<in> set (owner_actions s). 0 < oa_amount_minor a"
  shows "principal_minor + fee_minor = x \<and> 0 \<le> principal_minor \<and> 0 \<le> fee_minor"
proof -
  note t = topup_reversal_terms_Inr [OF assms(1,2)]
  have "0 \<le> sum_list (prior_reversals oid s)"
    using assms(5) by (intro sum_list_nonneg) (auto simp: prior_reversals_def intro: less_imp_le)
  then have "fee_at (t_amount_minor ord) (t_platform_fee_minor ord) (sum_list (prior_reversals oid s)) \<le>
      fee_at (t_amount_minor ord) (t_platform_fee_minor ord) (sum_list (prior_reversals oid s) + x)"
    "fee_minor \<le> x"
    using fee_at_props(1,2) [of "t_amount_minor ord" "t_platform_fee_minor ord"
        "sum_list (prior_reversals oid s)" "sum_list (prior_reversals oid s) + x"] t assms(3,4)
    by auto
  with t show ?thesis by auto
qed

fun reverse_all_tx ::
  "string \<Rightarrow> string \<Rightarrow> string \<Rightarrow> (int \<times> string) list \<Rightarrow> string \<Rightarrow> string
     \<Rightarrow> ('a wallet_db_scheme, unit) tx" where
  "reverse_all_tx user_id oid actor [] reason time = return_tx ()"
| "reverse_all_tx user_id oid actor ((amount, evidence) # xs) reason time =
     bind_tx (reverse_and_record_tx user_id oid actor amount evidence reason time)
       (\<lambda>_. reverse_all_tx user_id oid actor xs reason time)"

lemma reverse_and_record_Inr:
  assumes op: "reverse_and_record_tx u oid actor x ev reason time s = Inr (r, t)"
    and ord: "topup_orders s oid = Some ord" "0 \<le> t_platform_fee_minor ord"
      "t_platform_fee_minor ord \<le> t_amount_minor ord"
    and prior: "0 \<le> sum_list (prior_reversals oid s)"
  defines "at \<equiv> fee_at (t_amount_minor ord) (t_platform_fee_minor ord)"
  shows "sum_list (prior_reversals oid t) = sum_list (prior_reversals oid s) + x" "0 < x"
    "sum_list (prior_reversals oid t) \<le> t_amount_minor ord" "topup_orders t = topup_orders s"
    "acct_sum ''platform_fee_revenue'' ''owner'' t = acct_sum ''platform_fee_revenue'' ''owner'' s
       + MONEY_UNITS_PER_MINOR * (at (sum_list (prior_reversals oid t)) - at (sum_list (prior_reversals oid s)))"
    "acct_sum ''owner_clearing'' ''owner'' t = acct_sum ''owner_clearing'' ''owner'' s - MONEY_UNITS_PER_MINOR * x"
proof -
  from op obtain p f r' gross fee fw short t1 t2 fp where
    terms: "topup_reversal_terms_tx oid x s = Inr (p, f)"
    and g: "units_from_minor x = Inr gross" "fee_units_from_minor f = Inr fee"
    and post: "post_journal_tx ''topup'' oid (''reverse:'' @ ev) fp
       (reversal_postings u gross fee fw short) time s = Inr (r', t1)"
    and ins: "jr_inserted r'"
    and upd: "(if jr_inserted r' \<and> 0 < fw
       then bind_tx (sub_posted_tx ''reverse market wallet credit'' u fw time)
              (\<lambda>n. require_tx (n = 1) (Conflict ''wallet balance changed during reversal''))
       else return_tx ()) t1 = Inr ((), t2)"
    and rec: "record_action_tx oid ''reverse_external_refund'' actor x (short div MONEY_UNITS_PER_MINOR)
       ev reason (jr_id r') time t2 = Inr ((), t)"
    by (clarsimp simp: reverse_and_record_tx_def reverse_topup_credit_tx_def tx_simps Let_def
        simp del: min_less_iff_conj wallet_snapshot_of)
  note tt = topup_reversal_terms_Inr [OF terms ord(1)]
  from post ins obtain j where pst: "posted s j (reversal_postings u gross fee fw short) t1"
    by (auto elim: post_journal_tx_cases)
  have t2: "postings t2 = postings t1" "owner_actions t2 = owner_actions t1" "topup_orders t2 = topup_orders t1"
    using upd by (auto simp: wallet_tx_simps split: if_splits)
  from rec t2 have t: "postings t = postings t1" "topup_orders t = topup_orders t1"
    "prior_reversals oid t = prior_reversals oid t1 @ [x]"
    by (auto simp: record_action_tx_def tx_simps Let_def prior_reversals_def split: if_splits)
  note fr = posted_frame [OF pst]
  show one: "sum_list (prior_reversals oid t) = sum_list (prior_reversals oid s) + x"
    and "topup_orders t = topup_orders s" "0 < x" "sum_list (prior_reversals oid t) \<le> t_amount_minor ord"
    using t fr tt by (auto simp: prior_reversals_def)
  have f: "f = at (sum_list (prior_reversals oid t)) - at (sum_list (prior_reversals oid s))"
    using tt(3) one by (simp add: at_def)
  have "0 \<le> f"
    unfolding f one at_def using fee_at_props(1) tt ord prior by (smt (verit))
  then have fee: "fee = MONEY_UNITS_PER_MINOR * f"
    using g(2) by (auto simp: fee_units_from_minor_def units_from_minor_Inr split: if_splits)
  have "0 \<le> fee" unfolding fee using \<open>0 \<le> f\<close> by (simp add: MONEY_UNITS_PER_MINOR_def)
  then show "acct_sum ''platform_fee_revenue'' ''owner'' t = acct_sum ''platform_fee_revenue'' ''owner'' s
       + MONEY_UNITS_PER_MINOR * (at (sum_list (prior_reversals oid t)) - at (sum_list (prior_reversals oid s)))"
    using acct_rows_posted [OF pst] acct_rows_cong [OF t(1)] fee f by (auto simp: reversal_postings_def)
  show "acct_sum ''owner_clearing'' ''owner'' t = acct_sum ''owner_clearing'' ''owner'' s - MONEY_UNITS_PER_MINOR * x"
    using acct_rows_posted [OF pst] acct_rows_cong [OF t(1)] g(1)
    by (auto simp: reversal_postings_def units_from_minor_Inr)
qed

lemma reverse_all_telescopes:
  assumes "reverse_all_tx u oid actor xs reason time s = Inr (r, t)"
    and "topup_orders s oid = Some ord" "0 \<le> t_platform_fee_minor ord"
      "t_platform_fee_minor ord \<le> t_amount_minor ord" "0 \<le> sum_list (prior_reversals oid s)"
  defines "at \<equiv> fee_at (t_amount_minor ord) (t_platform_fee_minor ord)"
  shows "sum_list (prior_reversals oid t) = sum_list (prior_reversals oid s) + sum_list (map fst xs)
    \<and> acct_sum ''platform_fee_revenue'' ''owner'' t = acct_sum ''platform_fee_revenue'' ''owner'' s
       + MONEY_UNITS_PER_MINOR * (at (sum_list (prior_reversals oid t)) - at (sum_list (prior_reversals oid s)))
    \<and> acct_sum ''owner_clearing'' ''owner'' t
       = acct_sum ''owner_clearing'' ''owner'' s - MONEY_UNITS_PER_MINOR * sum_list (map fst xs)"
  using assms(1-5)
proof (induction xs arbitrary: s)
  case Nil
  then show ?case by (simp add: tx_simps)
next
  case (Cons y xs)
  obtain x ev where y: "y = (x, ev)" by (cases y)
  from Cons.prems(1) y obtain r' s1 where
    step: "reverse_and_record_tx u oid actor x ev reason time s = Inr (r', s1)"
    and rest: "reverse_all_tx u oid actor xs reason time s1 = Inr (r, t)"
    by (auto simp: tx_simps)
  note one = reverse_and_record_Inr [OF step Cons.prems(2-5), folded at_def]
  from Cons.IH [OF rest] one Cons.prems(2-5)
  show ?case by (simp add: y algebra_simps)
qed

text \<open>
  C11. When external refunds, in any number of parts and amounts, have reversed the
  whole of a payment, the platform has given back exactly the fee it took
  (cumulative rounding leaves no cent behind) and the clearing account exactly
  the payment.
\<close>

theorem full_reversal_returns_fee:
  assumes "reverse_all_tx u oid actor xs reason time s = Inr (r, t)"
    and "topup_orders s oid = Some ord" "0 < t_amount_minor ord" "0 \<le> t_platform_fee_minor ord"
      "t_platform_fee_minor ord \<le> t_amount_minor ord"
    and "prior_reversals oid s = []" "sum_list (map fst xs) = t_amount_minor ord"
  shows "acct_sum ''platform_fee_revenue'' ''owner'' t = acct_sum ''platform_fee_revenue'' ''owner'' s
       + MONEY_UNITS_PER_MINOR * t_platform_fee_minor ord
    \<and> acct_sum ''owner_clearing'' ''owner'' t
       = acct_sum ''owner_clearing'' ''owner'' s - MONEY_UNITS_PER_MINOR * t_amount_minor ord"
  using reverse_all_telescopes [OF assms(1,2,4,5)] assms(6,7)
    fee_at_props(3,4) [OF assms(3-5), of 0 0] by simp


section \<open>Holds\<close>

lemma reserve_wallet_effect:
  assumes "reserve_wallet_tx u sk sid pp amt ex now s = Inr (i, t)" "find_hold_by_source sk sid pp s = None"
  shows "(\<forall>v. posted_of v t = posted_of v s \<and> held_of v t = held_of v s + (if v = u then amt else 0))
    \<and> 0 < amt \<and> amt \<le> posted_of u s - held_of u s
    \<and> (\<exists>h. find_hold i t = Some h \<and> h_user h = u \<and> h_status h = Active \<and> h_remaining h = amt)"
  using assms(1)
proof (cases rule: reserve_wallet_cases)
  case (fresh h x s1 n j t1 w)
  note e = ensure_wallet_tx_Inr(7,8) [OF fresh(4)]
  have w: "posted_of u s = w_posted w" "held_of u s = w_held w"
    using e [of u] fresh(9) by (simp_all add: posted_of_def held_of_def)
  have "posted_of v t = posted_of v s1" "held_of v t = held_of v s1 + (if v = u then amt else 0)" for v
    using fresh(9,12) by (auto simp: posted_of_def held_of_def)
  moreover have "find_hold i t = Some h"
    using fresh(3,7,12)
      find_append_None [of "\<lambda>h. h_id h = i" "holds s1" "[h]"]
    by (auto simp: find_hold_def find_None_iff)
  ultimately show ?thesis using e fresh(2,3,10) w by simp
qed (use assms(2) in simp)

lemma release_hold_effect:
  assumes "release_hold_tx i now s = Inr (r, t)" "find_hold i s = Some h" "h_status h = Active"
  shows "posted_of v t = posted_of v s \<and> held_of v t = held_of v s - (if v = h_user h then h_remaining h else 0)"
  using assms(1)
proof (cases rule: release_hold_cases)
  case (released h' j t1 w)
  then show ?thesis using assms(2) by (auto simp: posted_of_def held_of_def)
qed (use assms in simp)

text \<open>
  C24. Reserving money moves it from the available to the held balance of its user,
  who had it, and releasing the hold gives every user back exactly the balances
  they had before.
\<close>

theorem reserve_release_roundtrip:
  assumes "find_hold_by_source sk sid pp s = None"
    and "reserve_wallet_tx u sk sid pp amt ex now s = Inr (i, t)"
    and "release_hold_tx i now' t = Inr (r, t')"
  shows "0 < amt \<and> amt \<le> ws_available (wallet_snapshot_tx u s)
    \<and> ws_available (wallet_snapshot_tx u t) = ws_available (wallet_snapshot_tx u s) - amt
    \<and> ws_held (wallet_snapshot_tx u t) = ws_held (wallet_snapshot_tx u s) + amt
    \<and> (\<forall>v. ws_available (wallet_snapshot_tx v t') = ws_available (wallet_snapshot_tx v s)
        \<and> ws_held (wallet_snapshot_tx v t') = ws_held (wallet_snapshot_tx v s))"
proof -
  note e = reserve_wallet_effect [OF assms(2,1)]
  then obtain h where h: "find_hold i t = Some h" "h_user h = u" "h_status h = Active" "h_remaining h = amt"
    by blast
  with release_hold_effect [OF assms(3) h(1,3)] e show ?thesis by simp
qed



section \<open>Top-ups\<close>



section \<open>Funding of an order\<close>

lemma prior_due_funding_sum:
  assumes "\<forall>c \<in> set claims. 0 \<le> snd c" "0 \<le> p" "p + sum_list (map snd claims) \<le> i64_max"
  shows "prior_due_funding_from p claims None = Inr (p + sum_list (map snd claims))"
  using assms
proof (induction claims arbitrary: p)
  case (Cons c claims)
  obtain i a where c: "c = (i, a)" by (cases c)
  have nn: "0 \<le> sum_list (map snd claims)" using Cons.prems(1) by (intro sum_list_nonneg) auto
  then have "checked_add64 p a = Some (p + a)"
    using Cons.prems c by (auto simp: i64_simps i64_defs)
  with Cons.IH [of "p + a"] Cons.prems c show ?case by (simp add: algebra_simps)
qed simp

text \<open>
  C26. The funding gate of an order admits a price exactly when it is zero or the
  available balance covers it together with every claim already due; reserved
  money does not count, and a refusal carries the code \<open>MARKET_WALLET_REQUIRED\<close>.
\<close>

theorem order_funding_gate:
  fixes s :: "'a wallet_db_scheme"
  defines "available \<equiv> \<lambda>u. ws_available (wallet_snapshot_tx u s)"
  assumes "0 \<le> price" "price * MONEY_UNITS_PER_MINOR + sum_list (map snd claims) \<le> i64_max"
    and "\<forall>c \<in> set claims. 0 \<le> snd c"
    and "0 \<le> available u" "available u \<le> i64_max"
  shows "require_order_funding_tx (Inr claims) u price s =
    (if price = 0 \<or> price * MONEY_UNITS_PER_MINOR + sum_list (map snd claims) \<le> available u then Inr ()
     else Inl (coded_conflict ''MARKET_WALLET_REQUIRED''
       ''insufficient platform balance for the first billing period; top up before renting''
       (quote_funding_json \<lparr>qf_available = available u, qf_held = ws_held (wallet_snapshot_tx u s),
          qf_committed = sum_list (map snd claims), qf_required = price * MONEY_UNITS_PER_MINOR,
          qf_shortfall = price * MONEY_UNITS_PER_MINOR + sum_list (map snd claims) - available u\<rparr>)))"
proof (cases "price = 0")
  case True
  with assms(5,6) show ?thesis
    by (auto simp: require_order_funding_tx_def wallet_quote_funding_tx_def Let_def checked_add64_def
        checked_i64_def saturating_sub64_def i64_defs available_def)
next
  case False
  have nn: "0 \<le> sum_list (map snd claims)" using assms(4) by (intro sum_list_nonneg) auto
  have pos: "0 < price * MONEY_UNITS_PER_MINOR" using False assms(2) by (simp add: MONEY_UNITS_PER_MINOR_def)
  have units: "units_from_minor price = Inr (price * MONEY_UNITS_PER_MINOR)"
    using False assms(2,3) nn pos by (simp add: units_from_minor_Inr in_i64_def i64_min_def)
  have prior: "prior_due_funding_units claims None = Inr (sum_list (map snd claims))"
    using prior_due_funding_sum [of claims 0] assms(3,4) pos by (simp add: prior_due_funding_units_def)
  have add: "checked_add64 (price * MONEY_UNITS_PER_MINOR) (sum_list (map snd claims))
      = Some (price * MONEY_UNITS_PER_MINOR + sum_list (map snd claims))"
    using assms(3) nn pos by (simp add: checked_add64_def checked_i64_def in_i64_def i64_min_def)
  have sat: "saturating_sub64 (price * MONEY_UNITS_PER_MINOR + sum_list (map snd claims)) (available u)
      = price * MONEY_UNITS_PER_MINOR + sum_list (map snd claims) - available u"
    using assms(3,5,6) nn pos by (auto simp: saturating_sub64_def i64_defs)
  show ?thesis
    using False assms(2) units prior add sat pos
    by (auto simp: require_order_funding_tx_def wallet_quote_funding_tx_def Let_def available_def max_def)
qed


section \<open>Concrete runs\<close>

text \<open>
  A wallet with one paid order of 105 cents (credit 100, fee 5): the hypotheses of
  the properties above hold on it.
\<close>

definition sample_ids :: "nat \<Rightarrow> string" where
  "sample_ids n = replicate (Suc n) CHR ''i''"

definition sample_order :: topup_order where
  "sample_order = \<lparr>t_amount_minor = 105, t_credit_amount_minor = Some 100, t_platform_fee_minor = 5\<rparr>"

definition unpaid_db :: wallet_db where
  "unpaid_db = wallet_step (OrdersChanged (\<lambda>x. if x = ''o'' then Some sample_order else None) [])
     (empty_wallet_db sample_ids)"

definition sample_db :: wallet_db where
  "sample_db = wallet_step (CreditVerified ''u'' ''o'' 105 ''receipt'' ''t0'') unpaid_db"

definition debited_db :: wallet_db where
  "debited_db = wallet_step (Debit ''u'' 7 ''unfulfilled'' ''c'' ''order'' ''1'' ''pay'' ''t1'') sample_db"

definition reserved_db :: wallet_db where
  "reserved_db = wallet_step (Reserve ''u'' ''order'' ''2'' ''p'' 9 None ''t1'') sample_db"

lemma sample_runs:
  "\<not> isl (credit_verified_topup_tx ''u'' ''o'' 105 ''receipt'' ''t0'' unpaid_db)"
  "\<not> isl (debit_available_tx ''u'' 7 ''unfulfilled'' ''c'' ''order'' ''1'' ''pay'' ''t1'' sample_db)"
  "\<not> isl (credit_wallet_from_liability_tx ''u'' 5 ''unfulfilled'' ''c'' ''order'' ''1'' ''refund'' ''t2'' debited_db)"
  "find_hold_by_source ''order'' ''2'' ''p'' sample_db = None"
  "\<not> isl (bind_tx (reserve_wallet_tx ''u'' ''order'' ''2'' ''p'' 9 None ''t1'') (\<lambda>i. release_hold_tx i ''t2'') sample_db)"
  "\<not> isl (capture_hold_tx (h_id (hd (holds reserved_db))) 4 ''unfulfilled'' ''c'' ''order'' ''2'' ''t2'' reserved_db)"
  "\<not> isl (reverse_all_tx ''u'' ''o'' ''owner'' [(50, ''e1''), (55, ''e2'')] ''r'' ''t2'' sample_db)"
  "topup_orders sample_db ''o'' = Some sample_order" "prior_reversals ''o'' sample_db = []"
  "owner_actions sample_db = []"
  "ws_available (wallet_snapshot_tx ''u'' sample_db) = 8640000"
  "topup_reversal_terms_tx ''o'' 50 sample_db = Inr (48, 2)"
  by code_simp+


theorem debit_available_effect_witness:
  "\<exists>r t. debit_available_tx ''u'' 7 ''unfulfilled'' ''c'' ''order'' ''1'' ''pay'' ''t1'' sample_db = Inr (r, t)
    \<and> (jr_inserted r \<longrightarrow> 7 \<le> ws_available (wallet_snapshot_tx ''u'' sample_db))"
proof -
  obtain r t where run: "debit_available_tx ''u'' 7 ''unfulfilled'' ''c'' ''order'' ''1'' ''pay'' ''t1'' sample_db = Inr (r, t)"
    using not_isl_Inr [OF sample_runs(2)] by blast
  from debit_available_effect [OF run] run show ?thesis by (auto split: if_splits)
qed

theorem debit_available_retry_witness:
  "\<exists>r t. debit_available_tx ''u'' 7 ''unfulfilled'' ''c'' ''order'' ''1'' ''pay'' ''t1'' sample_db = Inr (r, t)
    \<and> debit_available_tx ''u'' 7 ''unfulfilled'' ''c'' ''order'' ''1'' ''pay'' ''t9'' t = Inr (r\<lparr>jr_inserted := False\<rparr>, t)"
  using not_isl_Inr [OF sample_runs(2)] debit_available_retry by blast

theorem refund_never_exceeds_liability_witness:
  "\<exists>r t. credit_wallet_from_liability_tx ''u'' 5 ''unfulfilled'' ''c'' ''order'' ''1'' ''refund'' ''t2'' debited_db = Inr (r, t)
    \<and> (jr_inserted r \<longrightarrow> 0 \<le> - acct_sum ''unfulfilled'' ''c'' t)"
proof -
  obtain r t where run: "credit_wallet_from_liability_tx ''u'' 5 ''unfulfilled'' ''c'' ''order'' ''1'' ''refund'' ''t2'' debited_db = Inr (r, t)"
    using not_isl_Inr [OF sample_runs(3)] by blast
  from refund_never_exceeds_liability [OF run] run show ?thesis by (auto split: if_splits)
qed

theorem reserve_release_roundtrip_witness:
  "\<exists>i t r t'. reserve_wallet_tx ''u'' ''order'' ''2'' ''p'' 9 None ''t1'' sample_db = Inr (i, t)
    \<and> release_hold_tx i ''t2'' t = Inr (r, t')
    \<and> ws_available (wallet_snapshot_tx ''u'' t') = ws_available (wallet_snapshot_tx ''u'' sample_db)"
  using not_isl_bind [OF sample_runs(5)] reserve_release_roundtrip [OF sample_runs(4)] by blast


theorem topup_reversal_split_witness: "(48::int) + 2 = 50 \<and> topup_reversal_terms_tx ''o'' 50 sample_db = Inr (48, 2)"
  using topup_reversal_split [OF sample_runs(12,8)] sample_runs(10,12) by (simp add: sample_order_def)

theorem full_reversal_returns_fee_witness:
  "\<exists>r t. reverse_all_tx ''u'' ''o'' ''owner'' [(50, ''e1''), (55, ''e2'')] ''r'' ''t2'' sample_db = Inr (r, t)
    \<and> acct_sum ''platform_fee_revenue'' ''owner'' t
       = acct_sum ''platform_fee_revenue'' ''owner'' sample_db + MONEY_UNITS_PER_MINOR * 5"
proof -
  obtain r t where run: "reverse_all_tx ''u'' ''o'' ''owner'' [(50, ''e1''), (55, ''e2'')] ''r'' ''t2'' sample_db = Inr (r, t)"
    using not_isl_Inr [OF sample_runs(7)] by blast
  with full_reversal_returns_fee [OF run sample_runs(8)] sample_runs(9) show ?thesis
    by (simp add: sample_order_def)
qed

theorem order_funding_gate_witness:
  "require_order_funding_tx (Inr [(''c1'', 30)]) ''u'' 99 sample_db = Inr ()"
  using order_funding_gate [of 99 "[(''c1'', 30)]" "''u''" sample_db] sample_runs(11)
  by (simp add: MONEY_UNITS_PER_MINOR_def i64_max_def del: wallet_snapshot_of)

end
