(* ===== verification/Route_Breaker.thy ===== *)
theory Route_Breaker
  imports Sql_Tx
begin

text \<open>
  The circuit breakers of explicit model routes (\<open>src/src/route_breaker.rs\<close>). The
  registry maps a route and a target share to a breaker state; instants and
  durations are nanoseconds. A probe permit is a linear resource of the source (it
  is not Clone, and dropping it releases the probe): the machine at the end of the
  theory keeps the permits that are alive beside the registry.
\<close>


section \<open>Data\<close>

definition FAILURE_THRESHOLD :: nat where
  "FAILURE_THRESHOLD = 3"

definition COOLDOWN :: nat where
  "COOLDOWN = from_secs 60"

definition MAX_COOLDOWN :: nat where
  "MAX_COOLDOWN = from_secs 600"

definition IDLE_TTL :: nat where
  "IDLE_TTL = from_secs 3600"

definition SWEEP_INTERVAL :: nat where
  "SWEEP_INTERVAL = from_secs 600"

definition MAX_BREAKER_STATES :: nat where
  "MAX_BREAKER_STATES = 16384"

datatype breaker_phase = Closed | Open | HalfOpen

record breaker_state =
  phase :: breaker_phase
  consecutive_failures :: nat
  open_until :: "nat option"
  probe :: "nat option"
  last_touched_at :: nat

definition new_breaker_state :: "nat \<Rightarrow> breaker_state" where
  "new_breaker_state now =
     \<lparr>phase = Closed, consecutive_failures = 0, open_until = None, probe = None, last_touched_at = now\<rparr>"

record breaker_key =
  route_id :: string
  target_share_id :: string

record registry_inner =
  states :: "(breaker_key, breaker_state) hashmap"
  next_probe :: nat
  capacity_dropped :: nat
  last_capacity_warning :: "nat option"

record probe_guard =
  g_key :: breaker_key
  g_generation :: nat

datatype breaker_permit = Allowed "probe_guard option" | Rejected

datatype breaker_outcome = Success | Failure "nat option" | Neutral

definition new_registry :: registry_inner where
  "new_registry = \<lparr>states = [], next_probe = 0, capacity_dropped = 0, last_capacity_warning = None\<rparr>"


section \<open>Operations\<close>

text \<open>Dropping an armed guard: a cancellation is neutral and frees exactly its own probe.\<close>

definition drop_guard :: "probe_guard \<Rightarrow> registry_inner \<Rightarrow> registry_inner" where
  "drop_guard g inner =
     (case hm_get (states inner) (g_key g) of
        None \<Rightarrow> inner
      | Some st \<Rightarrow>
         if probe st = Some (g_generation g)
         then inner\<lparr>states := hm_insert (g_key g) (st\<lparr>probe := None, phase := HalfOpen\<rparr>) (states inner)\<rparr>
         else inner)"

definition acquire_at :: "string \<Rightarrow> string \<Rightarrow> nat \<Rightarrow> registry_inner \<Rightarrow> breaker_permit \<times> registry_inner" where
  "acquire_at route target now inner =
     (let key = \<lparr>route_id = route, target_share_id = target\<rparr>
      in case hm_get (states inner) key of
           None \<Rightarrow> (Allowed None, inner)
         | Some st0 \<Rightarrow>
            let st = st0\<lparr>last_touched_at := now\<rparr>;
                touched = inner\<lparr>states := hm_insert key st (states inner)\<rparr>
            in if phase st = Closed then (Allowed None, touched)
               else if phase st = Open \<and> (case open_until st of Some until \<Rightarrow> now < until | None \<Rightarrow> False)
               then (Rejected, touched)
               else if probe st \<noteq> None then (Rejected, touched)
               else if next_probe inner \<ge> u64_max_nat then (Rejected, touched)
               else
                 let generation = next_probe inner + 1
                 in (Allowed (Some \<lparr>g_key = key, g_generation = generation\<rparr>),
                     touched\<lparr>next_probe := generation,
                       states := hm_insert key (st\<lparr>phase := HalfOpen, probe := Some generation\<rparr>) (states touched)\<rparr>))"

definition needs_record :: "string \<Rightarrow> string \<Rightarrow> breaker_outcome \<Rightarrow> registry_inner \<Rightarrow> bool" where
  "needs_record route target outcome inner =
     (case outcome of
        Neutral \<Rightarrow> False
      | Failure _ \<Rightarrow> True
      | Success \<Rightarrow> hm_contains (states inner) \<lparr>route_id = route, target_share_id = target\<rparr>)"

definition sweep_keeps :: "nat \<Rightarrow> breaker_state \<Rightarrow> bool" where
  "sweep_keeps now st \<longleftrightarrow>
     probe st \<noteq> None
     \<or> now - last_touched_at st < IDLE_TTL
     \<or> (phase st \<noteq> Closed
        \<and> (case open_until st of None \<Rightarrow> True | Some until \<Rightarrow> now - until < IDLE_TTL))"

definition sweep_inner :: "nat \<Rightarrow> registry_inner \<Rightarrow> registry_inner" where
  "sweep_inner now inner = inner\<lparr>states := hm_retain (\<lambda>_. sweep_keeps now) (states inner)\<rparr>"

text \<open>
  A recorded failure, after the guards of \<open>record_at\<close>: an existing state, or a new one
  when there is room, counts the failure and opens when it was half open or
  reached the threshold.
\<close>

definition fail_state :: "nat \<Rightarrow> nat option \<Rightarrow> breaker_state \<Rightarrow> breaker_state" where
  "fail_state now retry_after st0 =
     (let st = st0\<lparr>last_touched_at := now, probe := None,
            consecutive_failures := min (consecutive_failures st0 + 1) u32_max_nat\<rparr>
      in if phase st = HalfOpen \<or> consecutive_failures st \<ge> FAILURE_THRESHOLD
         then st\<lparr>phase := Open,
                 open_until := Some (now + min (case retry_after of Some d \<Rightarrow> d | None \<Rightarrow> COOLDOWN) MAX_COOLDOWN)\<rparr>
         else st)"

definition record_failure_inner ::
  "nat \<Rightarrow> breaker_key \<Rightarrow> nat option \<Rightarrow> nat \<Rightarrow> registry_inner \<Rightarrow> registry_inner" where
  "record_failure_inner capacity key retry_after now inner0 =
     (let full = \<not> hm_contains (states inner0) key \<and> length (states inner0) \<ge> capacity;
          inner = (if full then sweep_inner now inner0 else inner0)
      in if full \<and> length (states inner) \<ge> capacity
         then inner\<lparr>capacity_dropped := min (capacity_dropped inner + 1) u64_max_nat,
                last_capacity_warning :=
                  (if case last_capacity_warning inner of None \<Rightarrow> True | Some warned \<Rightarrow> now - warned \<ge> SWEEP_INTERVAL
                   then Some now else last_capacity_warning inner)\<rparr>
         else
           let st = (case hm_get (states inner) key of Some st \<Rightarrow> st | None \<Rightarrow> new_breaker_state now)
           in inner\<lparr>states := hm_insert key (fail_state now retry_after st) (states inner)\<rparr>)"

text \<open>
  \<open>record_at\<close> consumes its guard: on every early return it is still armed and is
  dropped, after the registry lock is released.
\<close>

definition record_at ::
  "nat \<Rightarrow> string \<Rightarrow> string \<Rightarrow> probe_guard option \<Rightarrow> breaker_outcome \<Rightarrow> nat \<Rightarrow> registry_inner \<Rightarrow> registry_inner" where
  "record_at capacity route target guard outcome now inner =
     (let key = \<lparr>route_id = route, target_share_id = target\<rparr>;
          give_up = (case guard of None \<Rightarrow> inner | Some g \<Rightarrow> drop_guard g inner);
          current = (case hm_get (states inner) key of None \<Rightarrow> None | Some st \<Rightarrow> probe st);
          stale = (case guard of
              Some g \<Rightarrow> g_key g \<noteq> key \<or> current \<noteq> Some (g_generation g)
            | None \<Rightarrow> (case hm_get (states inner) key of None \<Rightarrow> False | Some st \<Rightarrow> phase st \<noteq> Closed))
      in case outcome of
           Neutral \<Rightarrow> give_up
         | Success \<Rightarrow> if stale then give_up else inner\<lparr>states := hm_remove key (states inner)\<rparr>
         | Failure retry_after \<Rightarrow>
             if stale then give_up else record_failure_inner capacity key retry_after now inner)"

definition retain_configuration ::
  "string list \<Rightarrow> (string \<times> string) list \<Rightarrow> registry_inner \<Rightarrow> registry_inner" where
  "retain_configuration old_routes current inner =
     inner\<lparr>states := hm_retain
        (\<lambda>key _. route_id key \<notin> set old_routes \<or> (route_id key, target_share_id key) \<in> set current)
        (states inner)\<rparr>"


section \<open>The breaker machine\<close>

record breaker_sys =
  registry :: registry_inner
  alive :: "probe_guard list"

datatype breaker_cmd =
    Acquire string string nat
  | Record string string "probe_guard option" breaker_outcome nat
  | DropGuard probe_guard
  | Sweep nat
  | Retain "string list" "(string \<times> string) list"

fun breaker_step :: "nat \<Rightarrow> breaker_cmd \<Rightarrow> breaker_sys \<Rightarrow> breaker_sys" where
  "breaker_step cap (Acquire route target now) sys =
     (case acquire_at route target now (registry sys) of
        (Allowed (Some g), inner) \<Rightarrow> sys\<lparr>registry := inner, alive := g # alive sys\<rparr>
      | (_, inner) \<Rightarrow> sys\<lparr>registry := inner\<rparr>)"
| "breaker_step cap (Record route target None outcome now) sys =
     sys\<lparr>registry := record_at cap route target None outcome now (registry sys)\<rparr>"
| "breaker_step cap (Record route target (Some g) outcome now) sys =
     (if g \<in> set (alive sys)
      then sys\<lparr>registry := record_at cap route target (Some g) outcome now (registry sys),
               alive := remove1 g (alive sys)\<rparr>
      else sys)"
| "breaker_step cap (DropGuard g) sys =
     (if g \<in> set (alive sys)
      then sys\<lparr>registry := drop_guard g (registry sys), alive := remove1 g (alive sys)\<rparr> else sys)"
| "breaker_step cap (Sweep now) sys = sys\<lparr>registry := sweep_inner now (registry sys)\<rparr>"
| "breaker_step cap (Retain old current) sys =
     sys\<lparr>registry := retain_configuration old current (registry sys)\<rparr>"

definition empty_breakers :: breaker_sys where
  "empty_breakers = \<lparr>registry = new_registry, alive = []\<rparr>"


subsection \<open>Invariant\<close>

definition breaker_ok :: "breaker_state \<Rightarrow> bool" where
  "breaker_ok st \<longleftrightarrow>
     (probe st \<noteq> None \<longrightarrow> phase st = HalfOpen)
     \<and> (phase st = Open \<longrightarrow> open_until st \<noteq> None)
     \<and> (phase st = Closed \<longrightarrow> open_until st = None \<and> consecutive_failures st < FAILURE_THRESHOLD)
     \<and> consecutive_failures st \<le> u32_max_nat"

definition breakers_ok :: "(breaker_key, breaker_state) hashmap \<Rightarrow> bool" where
  "breakers_ok m \<longleftrightarrow> (\<forall>k st. hm_get m k = Some st \<longrightarrow> breaker_ok st)"





lemma breakers_ok_insert [simp]: "breakers_ok m \<Longrightarrow> breaker_ok st \<Longrightarrow> breakers_ok (hm_insert k st m)"
  by (simp add: breakers_ok_def)

lemma breakers_ok_remove [simp]: "breakers_ok m \<Longrightarrow> breakers_ok (hm_remove k m)"
  by (simp add: breakers_ok_def)

lemma breakers_ok_retain [simp]: "hm_wf m \<Longrightarrow> breakers_ok m \<Longrightarrow> breakers_ok (hm_retain P m)"
  by (simp add: breakers_ok_def hm_get_retain split: option.splits)




lemma fail_state_probe [simp]: "probe (fail_state now ra st) = None"
  by (simp add: fail_state_def Let_def)













lemma next_probe_keeps [simp]:
  "next_probe (drop_guard g r) = next_probe r"
  "next_probe (sweep_inner now r) = next_probe r"
  "next_probe (retain_configuration old cur r) = next_probe r"
  "next_probe (record_failure_inner cap k ra now r) = next_probe r"
  "next_probe (record_at cap route target guard outcome now r) = next_probe r"
  by (auto simp: drop_guard_def sweep_inner_def retain_configuration_def record_failure_inner_def Let_def
      record_at_def split: option.splits breaker_outcome.splits)





section \<open>Properties\<close>


text \<open>
  A permit that no longer holds the probe of its candidate (its state was
  removed, recreated or given to a newer probe) is harmless: neither its result,
  whatever it is, nor dropping it changes the registry.
\<close>

theorem stale_permit_harmless:
  assumes "\<forall>st. hm_get (states inner) (g_key g) = Some st \<longrightarrow> probe st \<noteq> Some (g_generation g)"
  shows "record_at cap route target (Some g) outcome now inner = inner \<and> drop_guard g inner = inner"
proof -
  have d: "drop_guard g inner = inner"
    using assms by (auto simp: drop_guard_def split: option.splits)
  then show ?thesis
    using assms by (auto simp: record_at_def Let_def split: breaker_outcome.splits option.splits)
qed

text \<open>
  C27. Three failures in a row open an untracked candidate: it is rejected until the
  cooldown ends, which is the retry-after the upstream asked for (60 s without
  one) and never more than 600 s after the last failure; from then on the next
  request probes.
\<close>

theorem third_failure_opens:
  fixes ra1 ra2 ra :: "nat option" and t1 t2 t3 :: nat
  assumes "hm_get (states inner) \<lparr>route_id = route, target_share_id = target\<rparr> = None"
    and "length (states inner) < cap" "next_probe inner < u64_max_nat"
  defines "fail \<equiv> \<lambda>ra t. record_at cap route target None (Failure ra) t"
  defines "inner' \<equiv> fail ra t3 (fail ra2 t2 (fail ra1 t1 inner))"
  defines "until \<equiv> t3 + min (case ra of Some d \<Rightarrow> d | None \<Rightarrow> COOLDOWN) MAX_COOLDOWN"
  shows "until \<le> t3 + from_secs 600
    \<and> (\<forall>now < until. fst (acquire_at route target now inner') = Rejected)
    \<and> (\<forall>now \<ge> until. \<exists>g. fst (acquire_at route target now inner') = Allowed (Some g)
          \<and> g_generation g = next_probe inner + 1)"
proof -
  let ?k = "\<lparr>route_id = route, target_share_id = target\<rparr>"
  have first: "fail ra1 t1 inner = inner\<lparr>states := hm_insert ?k (fail_state t1 ra1 (new_breaker_state t1)) (states inner)\<rparr>"
    using assms(1,2) by (simp add: fail_def record_at_def Let_def record_failure_inner_def hm_contains_def)
  have closed: "phase (fail_state t1 ra1 (new_breaker_state t1)) = Closed"
    "phase (fail_state t2 ra2 (fail_state t1 ra1 (new_breaker_state t1))) = Closed"
    by (simp_all add: fail_state_def new_breaker_state_def Let_def FAILURE_THRESHOLD_def u32_max_nat_def)
  have third: "inner' = inner\<lparr>states := hm_insert ?k (fail_state t3 ra (fail_state t2 ra2 (fail_state t1 ra1
      (new_breaker_state t1)))) (states inner)\<rparr>"
    using closed by (simp add: inner'_def first) (simp add: fail_def record_at_def Let_def record_failure_inner_def hm_contains_def)
  have st: "fail_state t3 ra (fail_state t2 ra2 (fail_state t1 ra1 (new_breaker_state t1))) =
     \<lparr>phase = Open, consecutive_failures = 3, open_until = Some until, probe = None, last_touched_at = t3\<rparr>"
    by (simp add: fail_state_def new_breaker_state_def Let_def FAILURE_THRESHOLD_def u32_max_nat_def until_def)
  have "until \<le> t3 + from_secs 600" by (simp add: until_def MAX_COOLDOWN_def)
  with assms(3) show ?thesis
    unfolding third st by (auto simp: acquire_at_def Let_def)
qed

text \<open>
  C28. The result of a probe decides the candidate: a success forgets it (requests
  flow again without a permit), a failure rejects again until the new cooldown
  ends, and a cancelled or neutral probe only frees the slot, so the next request
  probes.
\<close>

theorem probe_result_decides:
  fixes cap t :: nat
  assumes "hm_get (states inner) \<lparr>route_id = route, target_share_id = target\<rparr> = Some st"
    and "phase st = HalfOpen" "probe st = Some n" "next_probe inner < u64_max_nat"
  defines "g \<equiv> \<lparr>g_key = \<lparr>route_id = route, target_share_id = target\<rparr>, g_generation = n\<rparr>"
  defines "result \<equiv> \<lambda>outcome. record_at cap route target (Some g) outcome t inner"
  shows "fst (acquire_at route target now (result Success)) = Allowed None
    \<and> (now < t + min (case ra of Some d \<Rightarrow> d | None \<Rightarrow> COOLDOWN) MAX_COOLDOWN \<longrightarrow>
        fst (acquire_at route target now (result (Failure ra))) = Rejected)
    \<and> fst (acquire_at route target now (result Neutral))
        = Allowed (Some (g\<lparr>g_generation := next_probe inner + 1\<rparr>))
    \<and> result Neutral = drop_guard g inner"
  using assms(1-4)
  by (auto simp: result_def g_def record_at_def drop_guard_def acquire_at_def Let_def record_failure_inner_def
      hm_contains_def fail_state_def)

text \<open>
  Sweeping idle state never lets a request through: a candidate that is cooling
  down or being probed, and so rejects an acquisition, still rejects it after a
  sweep at that moment.
\<close>

theorem sweep_never_admits:
  assumes "hm_wf (states inner)" "next_probe inner < u64_max_nat"
    and "fst (acquire_at route target now inner) = Rejected"
  shows "fst (acquire_at route target now (sweep_inner now inner)) = Rejected"
proof -
  let ?k = "\<lparr>route_id = route, target_share_id = target\<rparr>"
  from assms(2,3) obtain st where st: "hm_get (states inner) ?k = Some st" "phase st \<noteq> Closed"
    "(case open_until st of Some until \<Rightarrow> phase st = Open \<and> now < until | None \<Rightarrow> False) \<or> probe st \<noteq> None"
    by (auto simp: acquire_at_def Let_def split: option.splits if_splits)
  then have "sweep_keeps now st"
    by (auto simp: sweep_keeps_def IDLE_TTL_def from_secs_def split: option.splits)
  with st assms(1) have "hm_get (states (sweep_inner now inner)) ?k = Some st"
    by (simp add: sweep_inner_def hm_get_retain)
  with st show ?thesis by (auto simp: acquire_at_def Let_def split: option.splits)
qed


section \<open>Concrete runs\<close>

definition open_run :: "breaker_cmd list" where
  "open_run =
     [Record ''r'' ''s'' None (Failure None) 1, Record ''r'' ''s'' None (Failure None) 2,
      Record ''r'' ''s'' None (Failure None) 3, Acquire ''r'' ''s'' 100000000000]"

definition probing :: breaker_sys where
  "probing = run_machine (breaker_step MAX_BREAKER_STATES) open_run empty_breakers"

lemma probing_state:
  "registry probing =
     \<lparr>states = [(\<lparr>route_id = ''r'', target_share_id = ''s''\<rparr>,
        \<lparr>phase = HalfOpen, consecutive_failures = 3, open_until = Some 60000000003, probe = Some 1,
         last_touched_at = 100000000000\<rparr>)],
      next_probe = 1, capacity_dropped = 0, last_capacity_warning = None\<rparr>"
  by (simp add: probing_def open_run_def empty_breakers_def new_registry_def record_at_def
      record_failure_inner_def acquire_at_def fail_state_def new_breaker_state_def Let_def hm_contains_def
      MAX_BREAKER_STATES_def FAILURE_THRESHOLD_def COOLDOWN_def MAX_COOLDOWN_def from_secs_def u32_max_nat_def
      u64_max_nat_def)


theorem stale_permit_harmless_witness:
  "record_at 5 ''r'' ''s'' (Some \<lparr>g_key = \<lparr>route_id = ''r'', target_share_id = ''s''\<rparr>, g_generation = 7\<rparr>)
     Success 9 (registry probing) = registry probing"
  using stale_permit_harmless
    [of "registry probing" "\<lparr>g_key = \<lparr>route_id = ''r'', target_share_id = ''s''\<rparr>, g_generation = 7\<rparr>"]
  by (simp add: probing_state)

theorem third_failure_opens_witness:
  "fst (acquire_at ''a'' ''b'' 7 (record_at 5 ''a'' ''b'' None (Failure None) 3
     (record_at 5 ''a'' ''b'' None (Failure None) 2
       (record_at 5 ''a'' ''b'' None (Failure None) 1 (registry probing))))) = Rejected"
  using third_failure_opens [where inner = "registry probing" and route = "''a''" and target = "''b''" and cap = 5
      and ra = None and ?ra1.0 = None and ?ra2.0 = None and ?t1.0 = 1 and ?t2.0 = 2 and ?t3.0 = 3]
  by (simp add: probing_state COOLDOWN_def MAX_COOLDOWN_def from_secs_def u64_max_nat_def)

theorem probe_result_decides_witness:
  "fst (acquire_at ''r'' ''s'' 9 (record_at 5 ''r'' ''s''
      (Some \<lparr>g_key = \<lparr>route_id = ''r'', target_share_id = ''s''\<rparr>, g_generation = 1\<rparr>) Success 8 (registry probing)))
   = Allowed None"
  using probe_result_decides [where inner = "registry probing" and route = "''r''" and target = "''s''" and n = 1
      and cap = 5 and t = 8 and now = 9]
  by (simp add: probing_state u64_max_nat_def)

theorem sweep_never_admits_witness:
  "fst (acquire_at ''r'' ''s'' 9 (sweep_inner 9 (registry probing))) = Rejected"
  by (rule sweep_never_admits) (simp_all add: probing_state u64_max_nat_def acquire_at_def Let_def)

end
