(* ===== verification/Route_Runtime.thy ===== *)
theory Route_Runtime
  imports Sql_Tx
begin

text \<open>
  The bounded diagnostics of explicit model routes
  (\<open>src/src/model_route_runtime.rs\<close>): the latest result per route, guarded by user,
  revision, generation and request sequence, and the admission of diagnostic runs.
\<close>


section \<open>Data\<close>

definition CAPACITY :: nat where
  "CAPACITY = 4096"

definition RECENT_TTL :: nat where
  "RECENT_TTL = from_secs 3600"

definition RATE_WINDOW :: nat where
  "RATE_WINDOW = from_secs 60"

record recent_result =
  rr_route_id :: string
  rr_revision :: nat
  rr_request_sequence :: string
  rr_observed_at :: int
  rr_source :: string
  rr_phase :: string
  rr_target_share_id :: "string option"
  rr_position :: "nat option"
  rr_status_code :: nat
  rr_continued_search :: bool
  rr_used_backup :: bool
  rr_body_state :: "string option"

record observation =
  ob_user :: string
  ob_revision :: nat
  ob_sequence :: nat
  ob_generation :: nat
  ob_completed_at :: "nat option"
  ob_started :: nat
  ob_result :: "recent_result option"

record route_runtime =
  seq_counter :: nat
  recent :: "(string, observation) hashmap"
  last_error_warning :: "nat option"
  rates :: "(string, nat \<times> nat) hashmap"

definition new_runtime :: route_runtime where
  "new_runtime = \<lparr>seq_counter = 0, recent = [], last_error_warning = None, rates = []\<rparr>"


section \<open>Operations\<close>

definition next_sequence :: "route_runtime \<Rightarrow> nat option \<times> route_runtime" where
  "next_sequence rt =
     (if seq_counter rt \<ge> u64_max_nat then (None, rt)
      else (Some (seq_counter rt + 1), rt\<lparr>seq_counter := seq_counter rt + 1\<rparr>))"

definition entry_touched :: "observation \<Rightarrow> nat" where
  "entry_touched entry = (case ob_completed_at entry of None \<Rightarrow> ob_started entry | Some at \<Rightarrow> max at (ob_started entry))"

definition sweep_entries :: "nat \<Rightarrow> (string, observation) hashmap \<Rightarrow> (string, observation) hashmap" where
  "sweep_entries now entries = hm_retain (\<lambda>_ entry. now - entry_touched entry < RECENT_TTL) entries"

definition make_room :: "string \<Rightarrow> nat \<Rightarrow> (string, observation) hashmap \<Rightarrow> (string, observation) hashmap" where
  "make_room route now entries =
     (if length entries \<ge> CAPACITY \<and> \<not> hm_contains entries route
      then
        let swept = sweep_entries now entries
        in if length swept \<ge> CAPACITY
           then (case hm_min_by (\<lambda>entry. int (ob_sequence entry)) swept of
                   None \<Rightarrow> swept | Some oldest \<Rightarrow> hm_remove oldest swept)
           else swept
      else entries)"

definition register ::
  "string \<Rightarrow> string \<Rightarrow> nat \<Rightarrow> nat \<Rightarrow> route_runtime \<Rightarrow> nat option \<times> route_runtime" where
  "register user route rv now rt =
     (case (case hm_get (recent rt) route of
              Some entry \<Rightarrow> if ob_user entry = user \<and> ob_revision entry = rv then Some (ob_generation entry) else None
            | None \<Rightarrow> None) of
        Some g \<Rightarrow> (Some g, rt)
      | None \<Rightarrow>
         let roomy = rt\<lparr>recent := make_room route now (recent rt)\<rparr>
         in case next_sequence roomy of
              (None, rt') \<Rightarrow> (None, rt')
            | (Some g, rt') \<Rightarrow>
               (Some g, rt'\<lparr>recent := hm_insert route
                  \<lparr>ob_user = user, ob_revision = rv, ob_sequence = 0, ob_generation = g,
                   ob_completed_at = None, ob_started = now, ob_result = None\<rparr> (recent rt')\<rparr>))"

definition begin_request ::
  "string \<Rightarrow> string \<Rightarrow> nat \<Rightarrow> nat option \<Rightarrow> nat \<Rightarrow> nat \<Rightarrow> route_runtime \<Rightarrow> route_runtime" where
  "begin_request user route rv gen req now rt =
     (case hm_get (recent rt) route of
        None \<Rightarrow> rt
      | Some entry \<Rightarrow>
         if ob_user entry = user \<and> ob_revision entry = rv \<and> Some (ob_generation entry) = gen \<and> req > ob_sequence entry
         then rt\<lparr>recent := hm_insert route (entry\<lparr>ob_sequence := req, ob_started := now\<rparr>) (recent rt)\<rparr>
         else rt)"

definition runtime_sweep :: "nat \<Rightarrow> route_runtime \<Rightarrow> route_runtime" where
  "runtime_sweep now rt = rt\<lparr>recent := sweep_entries now (recent rt)\<rparr>"

definition finish ::
  "string \<Rightarrow> nat option \<Rightarrow> nat \<Rightarrow> recent_result \<Rightarrow> nat \<Rightarrow> route_runtime \<Rightarrow> route_runtime" where
  "finish user gen req res now rt =
     (case hm_get (recent rt) (rr_route_id res) of
        None \<Rightarrow> rt
      | Some entry \<Rightarrow>
         if ob_user entry = user \<and> ob_revision entry = rr_revision res \<and> Some (ob_generation entry) = gen
            \<and> ob_sequence entry = req
         then rt\<lparr>recent := hm_insert (rr_route_id res)
                (entry\<lparr>ob_completed_at := Some now, ob_result := Some res\<rparr>) (recent rt)\<rparr>
         else rt)"

definition results_at :: "string \<Rightarrow> nat \<Rightarrow> string list \<Rightarrow> nat \<Rightarrow> route_runtime \<Rightarrow> recent_result list" where
  "results_at user rv routes now rt =
     List.map_filter (\<lambda>(_, entry). ob_result entry)
       (filter (\<lambda>(route, entry). route \<in> set routes \<and> ob_user entry = user \<and> ob_revision entry = rv
           \<and> (case ob_completed_at entry of None \<Rightarrow> False | Some at \<Rightarrow> now - at < RECENT_TTL))
         (recent rt))"

definition remove_routes :: "string list \<Rightarrow> route_runtime \<Rightarrow> route_runtime" where
  "remove_routes routes rt = rt\<lparr>recent := hm_retain (\<lambda>route _. route \<notin> set routes) (recent rt)\<rparr>"

definition should_warn_error :: "nat \<Rightarrow> route_runtime \<Rightarrow> bool \<times> route_runtime" where
  "should_warn_error now rt =
     (if case last_error_warning rt of None \<Rightarrow> False | Some at \<Rightarrow> now - at < RATE_WINDOW
      then (False, rt) else (True, rt\<lparr>last_error_warning := Some now\<rparr>))"

definition retry_secs :: "nat \<Rightarrow> nat" where
  "retry_secs remaining = max ((remaining div 1000000 + 999) div 1000) 1"

definition admit_at :: "string \<Rightarrow> nat \<Rightarrow> route_runtime \<Rightarrow> (nat + unit) \<times> route_runtime" where
  "admit_at user now rt =
     (let entries = hm_retain (\<lambda>_ (begun, _). now - begun < RATE_WINDOW) (rates rt)
      in if \<not> hm_contains entries user \<and> length entries \<ge> CAPACITY
         then (Inl 60, rt\<lparr>rates := entries\<rparr>)
         else
           let (begun, count) = (case hm_get entries user of None \<Rightarrow> (now, 0) | Some e \<Rightarrow> e);
               entered = hm_insert user (begun, count) entries
           in if count \<ge> 3
              then (Inl (retry_secs (RATE_WINDOW - (now - begun))), rt\<lparr>rates := entered\<rparr>)
              else (Inr (), rt\<lparr>rates := hm_insert user (begun, count + 1) entered\<rparr>))"


section \<open>The runtime machine\<close>

datatype runtime_cmd =
    Register string string nat nat
  | BeginRequest string string nat "nat option" nat nat
  | SweepRecent nat
  | Finish string "nat option" nat recent_result nat
  | RemoveRoutes "string list"
  | WarnError nat
  | Admit string nat

fun runtime_step :: "runtime_cmd \<Rightarrow> route_runtime \<Rightarrow> route_runtime" where
  "runtime_step (Register user route rv now) rt = snd (register user route rv now rt)"
| "runtime_step (BeginRequest user route rv gen req now) rt = begin_request user route rv gen req now rt"
| "runtime_step (SweepRecent now) rt = runtime_sweep now rt"
| "runtime_step (Finish user gen req res now) rt = finish user gen req res now rt"
| "runtime_step (RemoveRoutes routes) rt = remove_routes routes rt"
| "runtime_step (WarnError now) rt = snd (should_warn_error now rt)"
| "runtime_step (Admit user now) rt = snd (admit_at user now rt)"

definition entry_ok :: "nat \<Rightarrow> string \<Rightarrow> observation \<Rightarrow> bool" where
  "entry_ok n route entry \<longleftrightarrow>
     ob_generation entry \<le> n
     \<and> (\<forall>res. ob_result entry = Some res \<longrightarrow> rr_route_id res = route \<and> rr_revision res = ob_revision entry)"

definition entries_ok :: "nat \<Rightarrow> (string, observation) hashmap \<Rightarrow> bool" where
  "entries_ok n m \<longleftrightarrow> hm_wf m \<and> length m \<le> CAPACITY \<and> (\<forall>k e. hm_get m k = Some e \<longrightarrow> entry_ok n k e)"

definition rates_ok :: "(string, nat \<times> nat) hashmap \<Rightarrow> bool" where
  "rates_ok m \<longleftrightarrow> hm_wf m \<and> length m \<le> CAPACITY \<and> (\<forall>u b c. hm_get m u = Some (b, c) \<longrightarrow> 0 < c \<and> c \<le> 3)"

definition runtime_inv :: "route_runtime \<Rightarrow> bool" where
  "runtime_inv rt \<longleftrightarrow> entries_ok (seq_counter rt) (recent rt) \<and> rates_ok (rates rt)"

lemma entries_ok_mono: "entries_ok n m \<Longrightarrow> n \<le> n' \<Longrightarrow> entries_ok n' m"
  by (auto simp: entries_ok_def entry_ok_def intro: le_trans)

lemma entries_ok_retain: "entries_ok n m \<Longrightarrow> entries_ok n (hm_retain P m)"
  by (auto simp: entries_ok_def hm_get_retain intro: le_trans [OF length_retain] split: option.splits if_splits)

lemma entries_ok_remove: "entries_ok n m \<Longrightarrow> entries_ok n (hm_remove k m)"
  by (auto simp: entries_ok_def intro: le_trans [OF length_remove])

lemma entries_ok_insert:
  "entries_ok n m \<Longrightarrow> entry_ok n k e \<Longrightarrow> hm_contains m k \<or> length m < CAPACITY \<Longrightarrow> entries_ok n (hm_insert k e m)"
  by (auto simp: entries_ok_def length_insert)

lemma make_room_ok:
  assumes "entries_ok n m"
  shows "entries_ok n (make_room k now m)" "hm_contains (make_room k now m) k \<or> length (make_room k now m) < CAPACITY"
proof -
  let ?s = "sweep_entries now m"
  have s: "entries_ok n ?s" using assms by (simp add: sweep_entries_def entries_ok_retain)
  then show "entries_ok n (make_room k now m)"
    using assms by (auto simp: make_room_def Let_def entries_ok_remove split: option.splits)
  show "hm_contains (make_room k now m) k \<or> length (make_room k now m) < CAPACITY"
    using hm_evict_length [of ?s CAPACITY "\<lambda>entry. int (ob_sequence entry)"] s
    by (auto simp: make_room_def Let_def entries_ok_def CAPACITY_def split: option.splits)
qed

lemma entries_ok_get: "entries_ok n m \<Longrightarrow> hm_get m k = Some e \<Longrightarrow> entry_ok n k e"
  by (auto simp: entries_ok_def)

lemma register_inv: "runtime_inv rt \<Longrightarrow> runtime_inv (snd (register user route rv now rt))"
proof -
  assume inv: "runtime_inv rt"
  then have r: "entries_ok (seq_counter rt) (make_room route now (recent rt))"
    "hm_contains (make_room route now (recent rt)) route \<or> length (make_room route now (recent rt)) < CAPACITY"
    unfolding runtime_inv_def using make_room_ok by blast+
  then have "entries_ok (Suc (seq_counter rt)) (hm_insert route
      \<lparr>ob_user = user, ob_revision = rv, ob_sequence = 0, ob_generation = Suc (seq_counter rt),
       ob_completed_at = None, ob_started = now, ob_result = None\<rparr> (make_room route now (recent rt)))"
    by (intro entries_ok_insert entries_ok_mono [OF r(1)]) (auto simp: entry_ok_def)
  with inv r show ?thesis
    by (auto simp: register_def Let_def next_sequence_def runtime_inv_def split: option.splits)
qed

lemma admit_inv: "rates_ok (rates rt) \<Longrightarrow> rates_ok (rates (snd (admit_at user now rt)))"
proof -
  assume ok: "rates_ok (rates rt)"
  let ?m = "hm_retain (\<lambda>_ (begun, _). now - begun < RATE_WINDOW) (rates rt)"
  have m: "rates_ok ?m"
    using ok by (fastforce simp: rates_ok_def hm_get_retain intro: le_trans [OF length_retain]
        split: option.splits if_splits)
  then show ?thesis
    by (auto simp: admit_at_def Let_def rates_ok_def length_insert split: option.splits prod.splits)
qed

lemma admit_frame [simp]:
  "recent (snd (admit_at user now rt)) = recent rt" "seq_counter (snd (admit_at user now rt)) = seq_counter rt"
  by (auto simp: admit_at_def Let_def split: option.splits prod.splits)

lemma runtime_step_inv: "runtime_inv rt \<Longrightarrow> runtime_inv (runtime_step c rt)"
proof (cases c)
  case (Register user route rv now)
  then show "runtime_inv rt \<Longrightarrow> ?thesis" by (simp add: register_inv)
next
  case (BeginRequest user route rv gen req now)
  assume "runtime_inv rt"
  with BeginRequest show ?thesis
    by (auto simp: begin_request_def runtime_inv_def entry_ok_def hm_contains_def
        intro!: entries_ok_insert dest: entries_ok_get split: option.splits)
next
  case (Finish user gen req res now)
  assume "runtime_inv rt"
  with Finish show ?thesis
    by (auto simp: finish_def runtime_inv_def entry_ok_def hm_contains_def
        intro!: entries_ok_insert dest: entries_ok_get split: option.splits)
qed (auto simp: runtime_inv_def runtime_sweep_def sweep_entries_def remove_routes_def should_warn_error_def
      entries_ok_retain admit_inv)

definition sequence_grows :: "route_runtime \<Rightarrow> route_runtime \<Rightarrow> bool" where
  "sequence_grows s t \<longleftrightarrow> seq_counter s \<le> seq_counter t"

lemma sequence_grows_step: "sequence_grows s (runtime_step c s)"
  by (cases c) (auto simp: sequence_grows_def register_def Let_def next_sequence_def begin_request_def
      runtime_sweep_def finish_def remove_routes_def should_warn_error_def admit_at_def split: option.splits prod.splits)

interpretation runtime: growing_machine runtime_step runtime_inv sequence_grows
  by unfold_locales (rule runtime_step_inv, assumption, auto simp: sequence_grows_def
      intro: sequence_grows_step [unfolded sequence_grows_def])

lemma new_runtime_inv: "runtime_inv new_runtime"
  by (simp add: runtime_inv_def new_runtime_def entries_ok_def rates_ok_def)


section \<open>Properties\<close>

text \<open>
  The diagnostics a user is shown for a revision are always results of that
  revision and of routes that were asked for, and the tables never exceed their
  capacity, whatever requests, sweeps and evictions came before.
\<close>

theorem results_isolated:
  fixes cmds
  defines "rt \<equiv> run_machine runtime_step cmds new_runtime"
  shows "length (recent rt) \<le> CAPACITY \<and> length (rates rt) \<le> CAPACITY
    \<and> (\<forall>res \<in> set (results_at user rv routes now rt). rr_revision res = rv \<and> rr_route_id res \<in> set routes)"
proof -
  have inv: "runtime_inv rt" unfolding rt_def by (rule runtime.run_inv [OF new_runtime_inv])
  then have wf: "hm_wf (recent rt)" by (simp add: runtime_inv_def entries_ok_def)
  have "rr_revision res = rv \<and> rr_route_id res \<in> set routes" if "res \<in> set (results_at user rv routes now rt)" for res
  proof -
    from that obtain route entry where e: "(route, entry) \<in> set (recent rt)" "route \<in> set routes"
      "ob_revision entry = rv" "ob_result entry = Some res"
      by (auto simp: results_at_def List.map_filter_def)
    then have "entry_ok (seq_counter rt) route entry"
      using inv wf by (auto simp: runtime_inv_def intro: entries_ok_get)
    with e show ?thesis by (simp add: entry_ok_def)
  qed
  with inv show ?thesis by (simp add: runtime_inv_def entries_ok_def rates_ok_def)
qed

text \<open>
  Progress of one route: its entry never falls back behind generation \<open>g\<close> and
  request \<open>q\<close>; a new registration draws a generation beyond the counter.
\<close>

definition route_at_least :: "string \<Rightarrow> nat \<Rightarrow> nat \<Rightarrow> route_runtime \<Rightarrow> bool" where
  "route_at_least route g q rt \<longleftrightarrow> runtime_inv rt \<and> g \<le> seq_counter rt
     \<and> (\<forall>e. hm_get (recent rt) route = Some e \<longrightarrow> g < ob_generation e \<or> (ob_generation e = g \<and> q \<le> ob_sequence e))"

lemma make_room_get: "hm_wf m \<Longrightarrow> hm_get (make_room k now m) k' = Some e \<Longrightarrow> hm_get m k' = Some e"
  by (auto simp: make_room_def Let_def sweep_entries_def hm_get_retain split: option.splits if_splits)

lemma route_at_least_step: "route_at_least route g q rt \<Longrightarrow> route_at_least route g q (runtime_step c rt)"
proof -
  assume a: "route_at_least route g q rt"
  then have inv: "runtime_inv rt" and wf: "hm_wf (recent rt)"
    by (auto simp: route_at_least_def runtime_inv_def entries_ok_def)
  have ge: "g \<le> seq_counter (runtime_step c rt)"
    using a sequence_grows_step [of rt c] by (auto simp: route_at_least_def sequence_grows_def)
  have "hm_get (recent (runtime_step c rt)) route = Some e \<Longrightarrow>
      g < ob_generation e \<or> (ob_generation e = g \<and> q \<le> ob_sequence e)" for e
  proof (cases c)
    case (Register user r rv now)
    assume "hm_get (recent (runtime_step c rt)) route = Some e"
    with Register a wf show ?thesis
      by (auto simp: route_at_least_def register_def Let_def next_sequence_def dest: make_room_get
          split: option.splits if_splits)
  next
    case (BeginRequest user r rv gen req now)
    assume "hm_get (recent (runtime_step c rt)) route = Some e"
    with BeginRequest a show ?thesis
      by (fastforce simp: route_at_least_def begin_request_def split: option.splits if_splits)
  next
    case (Finish user gen req res now)
    assume "hm_get (recent (runtime_step c rt)) route = Some e"
    with Finish a show ?thesis
      by (fastforce simp: route_at_least_def finish_def split: option.splits if_splits)
  qed (use a wf in \<open>auto simp: route_at_least_def runtime_sweep_def sweep_entries_def remove_routes_def
      should_warn_error_def hm_get_retain split: option.splits if_splits\<close>)
  with ge runtime_step_inv [OF inv] show ?thesis by (simp add: route_at_least_def)
qed

interpretation route_progress: safe_machine runtime_step "route_at_least route g q" for route g q
  by unfold_locales (rule route_at_least_step)

text \<open>
  C37. Results never go back: once a route has reached a generation and a request
  sequence, then after any further operations (evictions and new registrations
  included) the result of an older registration or of an overtaken request is
  ignored.
\<close>

theorem late_result_ignored:
  fixes cmds :: "runtime_cmd list"
  assumes "runtime_inv rt" "hm_get (recent rt) (rr_route_id res) = Some entry"
    and "g < ob_generation entry \<or> (g = ob_generation entry \<and> req < ob_sequence entry)"
  defines "rt' \<equiv> run_machine runtime_step cmds rt"
  shows "finish user (Some g) req res now rt' = rt'"
proof -
  have "route_at_least (rr_route_id res) (ob_generation entry) (ob_sequence entry) rt"
    using assms(1,2) by (auto simp: route_at_least_def runtime_inv_def entry_ok_def dest: entries_ok_get)
  then have "route_at_least (rr_route_id res) (ob_generation entry) (ob_sequence entry) rt'"
    unfolding rt'_def by (rule route_progress.run_inv)
  with assms(3) show ?thesis
    by (auto simp: route_at_least_def finish_def split: option.splits)
qed

lemma retry_secs_bounds:
  assumes "0 < r" "r \<le> from_secs 60"
  shows "1 \<le> retry_secs r \<and> retry_secs r \<le> 60 \<and> r \<le> from_secs (retry_secs r) + 1000000"
proof -
  define ms where "ms = r div 1000000"
  have r: "r < (ms + 1) * 1000000" unfolding ms_def by (simp add: dividend_less_div_times)
  have ms: "ms \<le> 60000" using assms(2) unfolding ms_def from_secs_def by simp
  define c where "c = (ms + 999) div 1000"
  have c: "ms \<le> c * 1000" unfolding c_def by linarith
  have "c \<le> 60" using ms unfolding c_def by simp
  moreover have "retry_secs r = max c 1" by (simp add: retry_secs_def c_def ms_def)
  moreover have "r \<le> (c * 1000 + 1) * 1000000" using r c by (simp add: algebra_simps)
  ultimately show ?thesis by (auto simp: from_secs_def max_def)
qed

lemma length_retain_less:
  assumes "hm_get m k = Some v" "\<not> P k v"
  shows "length (hm_retain P m) < length m"
  unfolding hm_retain_def
  using assms map_of_SomeD [OF assms(1)] by (intro length_filter_less [of "(k, v)"]) auto

text \<open>
  C38. A refused diagnostic run is told to wait between 1 and 60 seconds, and the wait
  is honest: a millisecond after it the same user is admitted, whether the user's
  window or the whole table was full.
\<close>

theorem diagnostic_retry_after_suffices:
  assumes "rates_ok (rates rt)" "\<forall>u b c. hm_get (rates rt) u = Some (b, c) \<longrightarrow> b \<le> now"
    and "admit_at user now rt = (Inl n, rt')"
  shows "1 \<le> n \<and> n \<le> 60 \<and> fst (admit_at user (now + from_secs n + 1000000) rt') = Inr ()"
proof -
  let ?P = "\<lambda>now (_ :: string) (begun, _ :: nat). now - begun < RATE_WINDOW"
  define m where "m = hm_retain (?P now) (rates rt)"
  have wf: "hm_wf (rates rt)" "hm_wf m" and len: "length m \<le> CAPACITY"
    using assms(1) by (auto simp: rates_ok_def m_def intro: le_trans [OF length_retain])
  have old: "b \<le> now \<and> now - b < RATE_WINDOW" if "hm_get m u = Some (b, c)" for u b c
    using that assms(2) wf by (auto simp: m_def hm_get_retain split: option.splits if_splits)
  show ?thesis
  proof (cases "hm_contains m user")
    case False
    then have n: "n = 60" "rt' = rt\<lparr>rates := m\<rparr>"
      using assms(3) by (auto simp: admit_at_def Let_def m_def hm_contains_def split: if_splits option.splits prod.splits)
    have "hm_retain (?P (now + from_secs 60 + 1000000)) m = []"
    proof -
      have "\<not> now + from_secs 60 + 1000000 - b < RATE_WINDOW" if "(u, b, c) \<in> set m" for u b c
        using old [of u b c] wf(2) that unfolding RATE_WINDOW_def by auto
      then show ?thesis by (auto simp: hm_retain_def filter_empty_conv)
    qed
    then show ?thesis using n by (simp add: admit_at_def Let_def CAPACITY_def)
  next
    case True
    then obtain b c where e: "hm_get m user = Some (b, c)" by (auto simp: hm_contains_def)
    have c: "3 \<le> c" and n: "n = retry_secs (RATE_WINDOW - (now - b))" "rt' = rt\<lparr>rates := hm_insert user (b, c) m\<rparr>"
      using assms(3) e True by (auto simp: admit_at_def Let_def m_def [symmetric] split: if_splits)
    have bn: "1 \<le> n \<and> n \<le> 60 \<and> RATE_WINDOW - (now - b) \<le> from_secs n + 1000000"
      unfolding n(1) by (rule retry_secs_bounds) (use old [OF e] in \<open>auto simp: RATE_WINDOW_def\<close>)
    define m2 where "m2 = hm_retain (?P (now + from_secs n + 1000000)) (rates rt')"
    have "\<not> ?P (now + from_secs n + 1000000) user (b, c)" using bn old [OF e] by auto
    moreover have "hm_get (rates rt') user = Some (b, c)" "length (rates rt') = length m" "hm_wf (rates rt')"
      using n(2) e wf by (simp_all add: length_insert hm_contains_def)
    ultimately have "length m2 < CAPACITY" "hm_get m2 user = None"
      using length_retain_less [of "rates rt'" user "(b, c)" "?P (now + from_secs n + 1000000)"] len
      by (auto simp: m2_def hm_get_retain split: option.splits)
    then show ?thesis
      using bn unfolding admit_at_def Let_def by (simp flip: m2_def add: hm_contains_def)
  qed
qed

text \<open>
  A user without a running window is admitted three times and refused the fourth
  time within 60 s of the first run.
\<close>

theorem diagnostic_three_per_window:
  assumes "hm_wf (rates rt)" "hm_get (rates rt) user = None" "length (rates rt) < CAPACITY"
    and "t0 \<le> t1" "t1 \<le> t2" "t2 \<le> t3" "t3 < t0 + from_secs 60"
  defines "r0 \<equiv> admit_at user t0 rt"
  defines "r1 \<equiv> admit_at user t1 (snd r0)"
  defines "r2 \<equiv> admit_at user t2 (snd r1)"
  shows "fst r0 = Inr () \<and> fst r1 = Inr () \<and> fst r2 = Inr () \<and> isl (fst (admit_at user t3 (snd r2)))"
proof -
  let ?P = "\<lambda>now (_ :: string) (begun, _ :: nat). now - begun < RATE_WINDOW"
  have live: "fst (admit_at user t x) = (if 3 \<le> c then Inl (retry_secs (RATE_WINDOW - (t - t0))) else Inr ())
      \<and> (c < 3 \<longrightarrow> hm_get (rates (snd (admit_at user t x))) user = Some (t0, Suc c)
           \<and> hm_wf (rates (snd (admit_at user t x))))"
    if "hm_wf (rates x)" "hm_get (rates x) user = Some (t0, c)" "t0 \<le> t" "t < t0 + from_secs 60" for t x c
  proof -
    have "hm_get (hm_retain (?P t) (rates x)) user = Some (t0, c)"
      using that by (auto simp: hm_get_retain RATE_WINDOW_def)
    with that(1) show ?thesis by (simp add: admit_at_def Let_def hm_contains_def)
  qed
  have "hm_get (hm_retain (?P t0) (rates rt)) user = None" "length (hm_retain (?P t0) (rates rt)) < CAPACITY"
    using assms(1-3) by (auto simp: hm_get_retain intro: le_less_trans [OF length_retain])
  then have "fst r0 = Inr ()" and s0: "hm_get (rates (snd r0)) user = Some (t0, 1)" "hm_wf (rates (snd r0))"
    using assms(1) by (simp_all add: r0_def admit_at_def Let_def hm_contains_def)
  moreover from live [OF s0(2,1), of t1] assms(4-7)
  have "fst r1 = Inr ()" and s1: "hm_get (rates (snd r1)) user = Some (t0, 2)" "hm_wf (rates (snd r1))"
    by (simp_all add: r1_def numeral_2_eq_2)
  moreover from live [OF s1(2,1), of t2] assms(4-7)
  have "fst r2 = Inr ()" and s2: "hm_get (rates (snd r2)) user = Some (t0, 3)" "hm_wf (rates (snd r2))"
    by (simp_all add: r2_def numeral_3_eq_3 numeral_2_eq_2)
  ultimately show ?thesis using live [OF s2(2,1), of t3] assms(4-7) by simp
qed


section \<open>Concrete runs\<close>

definition sample_result :: "nat \<Rightarrow> recent_result" where
  "sample_result rv = \<lparr>rr_route_id = ''r'', rr_revision = rv, rr_request_sequence = ''2'', rr_observed_at = 0,
     rr_source = ''request'', rr_phase = ''done'', rr_target_share_id = None, rr_position = None,
     rr_status_code = 200, rr_continued_search = False, rr_used_backup = False, rr_body_state = None\<rparr>"

definition sample_cmds :: "runtime_cmd list" where
  "sample_cmds = [Register ''u'' ''r'' 7 0, BeginRequest ''u'' ''r'' 7 (Some 1) 5 1,
     Finish ''u'' (Some 1) 5 (sample_result 7) 2]"

definition sample_rt :: route_runtime where
  "sample_rt = run_machine runtime_step sample_cmds new_runtime"

lemma sample_rt_eq:
  "sample_rt = \<lparr>seq_counter = 1,
     recent = [(''r'', \<lparr>ob_user = ''u'', ob_revision = 7, ob_sequence = 5, ob_generation = 1,
       ob_completed_at = Some 2, ob_started = 1, ob_result = Some (sample_result 7)\<rparr>)],
     last_error_warning = None, rates = []\<rparr>"
  by (simp add: sample_rt_def sample_cmds_def new_runtime_def register_def make_room_def CAPACITY_def
      next_sequence_def begin_request_def finish_def u64_max_nat_def sample_result_def)

theorem results_isolated_witness:
  "results_at ''u'' 7 [''r''] 3 sample_rt = [sample_result 7]
   \<and> rr_revision (hd (results_at ''u'' 7 [''r''] 3 sample_rt)) = 7"
proof -
  have "results_at ''u'' 7 [''r''] 3 sample_rt = [sample_result 7]"
    by (simp add: sample_rt_eq results_at_def List.map_filter_def RECENT_TTL_def from_secs_def)
  with results_isolated [of sample_cmds "''u''" 7 "[''r'']" 3, folded sample_rt_def] show ?thesis by simp
qed

theorem late_result_ignored_witness:
  "finish ''u'' (Some 1) 4 (sample_result 7) 9 sample_rt = sample_rt"
proof -
  have inv: "runtime_inv sample_rt" unfolding sample_rt_def by (rule runtime.run_inv [OF new_runtime_inv])
  have r: "rr_route_id (sample_result 7) = ''r''" by (simp add: sample_result_def)
  obtain e where "hm_get (recent sample_rt) ''r'' = Some e" "ob_generation e = 1" "ob_sequence e = 5"
    by (simp add: sample_rt_eq)
  with late_result_ignored [OF inv, where res = "sample_result 7" and entry = e and g = 1 and req = 4
      and user = "''u''" and now = 9 and cmds = "[]"] show ?thesis by (simp add: r)
qed

theorem diagnostic_retry_after_suffices_witness:
  "fst (admit_at ''u'' (5 + from_secs 60 + 1000000) (new_runtime\<lparr>rates := [(''u'', (5, 3))]\<rparr>)) = Inr ()"
  using diagnostic_retry_after_suffices [of "new_runtime\<lparr>rates := [(''u'', (5, 3))]\<rparr>" 5 "''u''" 60
      "new_runtime\<lparr>rates := [(''u'', (5, 3))]\<rparr>"]
  by (simp add: rates_ok_def admit_at_def Let_def hm_retain_def hm_contains_def RATE_WINDOW_def from_secs_def
      CAPACITY_def retry_secs_def)

theorem diagnostic_three_per_window_witness:
  "fst (admit_at ''u'' 1 (snd (admit_at ''u'' 0 new_runtime))) = Inr ()"
  using diagnostic_three_per_window [of new_runtime "''u''" 0 1 2 3]
  by (simp add: new_runtime_def CAPACITY_def from_secs_def)

end
