(* ===== verification/Abuse_Tracker.thy ===== *)
theory Abuse_Tracker
  imports Sql_Tx
begin

text \<open>
  The in-memory abuse trackers (\<open>src/src/abuse.rs\<close>): ten invalid authentications of an
  address within ten minutes ban it for an hour, and ten violations of a client of a
  share do the same for that share. Instants are nanoseconds of a monotonic clock,
  UTC times nanoseconds since the epoch.
\<close>


section \<open>Addresses\<close>

definition INVALID_AUTH_WINDOW :: nat where
  "INVALID_AUTH_WINDOW = from_secs (10 * 60)"

definition INVALID_AUTH_LIMIT :: nat where
  "INVALID_AUTH_LIMIT = 10"

definition BAN_DURATION :: nat where
  "BAN_DURATION = from_secs (60 * 60)"

definition MAX_TRACKED_IPS :: nat where
  "MAX_TRACKED_IPS = 8192"

definition MAX_IDLE_DURATION :: nat where
  "MAX_IDLE_DURATION = from_secs (70 * 60)"

record ban_decision =
  bd_failures :: nat
  bd_ban_duration :: nat

record ip_abuse_state =
  invalid_auth_at :: "nat list"
  banned_until :: "nat option"
  last_seen_at :: nat

type_synonym ip_table = "(string, ip_abuse_state) hashmap"

definition prune_old_failures :: "nat \<Rightarrow> nat list \<Rightarrow> nat list" where
  "prune_old_failures now failures = dropWhile (\<lambda>seen_at. now - seen_at > INVALID_AUTH_WINDOW) failures"

definition prune_idle_states :: "nat \<Rightarrow> ip_table \<Rightarrow> ip_table" where
  "prune_idle_states now by_ip =
     hm_retain (\<lambda>_ st. (case banned_until st of Some until \<Rightarrow> until > now | None \<Rightarrow> False)
        \<or> now - last_seen_at st \<le> MAX_IDLE_DURATION) by_ip"

definition evict_oldest_state :: "ip_table \<Rightarrow> ip_table" where
  "evict_oldest_state by_ip =
     (case hm_min_by (\<lambda>st. int (last_seen_at st)) by_ip of
        None \<Rightarrow> by_ip | Some oldest \<Rightarrow> hm_remove oldest by_ip)"

definition ban_remaining :: "string \<Rightarrow> nat \<Rightarrow> ip_table \<Rightarrow> nat option \<times> ip_table" where
  "ban_remaining ip now by_ip =
     (case hm_get by_ip ip of
        None \<Rightarrow> (None, by_ip)
      | Some st0 \<Rightarrow>
         let st = st0\<lparr>last_seen_at := now\<rparr>
         in case banned_until st of
              Some until \<Rightarrow>
                if until > now then (Some (until - now), hm_insert ip st by_ip)
                else (None, hm_insert ip (st\<lparr>banned_until := None\<rparr>) by_ip)
            | None \<Rightarrow> (None, hm_insert ip st by_ip))"

definition ip_room :: "string \<Rightarrow> nat \<Rightarrow> ip_table \<Rightarrow> ip_table" where
  "ip_room ip now by_ip =
     (if \<not> hm_contains by_ip ip \<and> length by_ip \<ge> MAX_TRACKED_IPS
      then
        let pruned = prune_idle_states now by_ip
        in if length pruned \<ge> MAX_TRACKED_IPS then evict_oldest_state pruned else pruned
      else by_ip)"

definition record_invalid_auth :: "string \<Rightarrow> nat \<Rightarrow> ip_table \<Rightarrow> ban_decision option \<times> ip_table" where
  "record_invalid_auth ip now by_ip0 =
     (let by_ip = ip_room ip now by_ip0;
          st = (case hm_get by_ip ip of Some st \<Rightarrow> st
                | None \<Rightarrow> \<lparr>invalid_auth_at = [], banned_until = None, last_seen_at = now\<rparr>);
          attempts = prune_old_failures now (invalid_auth_at st) @ [now];
          failures = length attempts
      in if failures \<ge> INVALID_AUTH_LIMIT
         then (Some \<lparr>bd_failures = failures, bd_ban_duration = BAN_DURATION\<rparr>,
               hm_insert ip \<lparr>invalid_auth_at = [], banned_until = Some (now + BAN_DURATION), last_seen_at = now\<rparr> by_ip)
         else (None, hm_insert ip (st\<lparr>last_seen_at := now, invalid_auth_at := attempts\<rparr>) by_ip))"


section \<open>Clients of a share\<close>

definition SHARE_ABUSE_WINDOW :: nat where
  "SHARE_ABUSE_WINDOW = from_secs (10 * 60)"

definition SHARE_ABUSE_LIMIT :: nat where
  "SHARE_ABUSE_LIMIT = 10"

definition SHARE_BAN_DURATION :: int where
  "SHARE_BAN_DURATION = int (from_secs 3600)"

definition MAX_TRACKED_SHARE_IPS :: nat where
  "MAX_TRACKED_SHARE_IPS = 32768"

record share_ban_decision =
  sbd_share_id :: string
  sbd_client_ip :: string
  sbd_reason_code :: string
  sbd_failure_count :: nat
  sbd_first_failure_at :: int
  sbd_last_failure_at :: int
  sbd_banned_at :: int
  sbd_banned_until :: int

record share_client_ban =
  scb_id :: string
  scb_share_id :: string
  scb_client_ip :: string
  scb_reason_code :: string
  scb_failure_count :: nat
  scb_first_failure_at :: int
  scb_last_failure_at :: int
  scb_banned_at :: int
  scb_banned_until :: int

record share_failure_state =
  sf_failures :: "(nat \<times> int) list"
  sf_last_seen_at :: nat

record share_tracker =
  share_failures :: "(string \<times> string, share_failure_state) hashmap"
  active_bans :: "(string \<times> string, share_client_ban) hashmap"

definition new_share_tracker :: "share_client_ban list \<Rightarrow> share_tracker" where
  "new_share_tracker bans =
     \<lparr>share_failures = [],
      active_bans = fold (\<lambda>ban m. hm_insert (scb_share_id ban, scb_client_ip ban) ban m) bans []\<rparr>"

definition share_ban_remaining :: "string \<Rightarrow> string \<Rightarrow> int \<Rightarrow> share_tracker \<Rightarrow> int option \<times> share_tracker" where
  "share_ban_remaining share_id client_ip now tr =
     (case hm_get (active_bans tr) (share_id, client_ip) of
        None \<Rightarrow> (None, tr)
      | Some ban \<Rightarrow>
         if scb_banned_until ban \<le> now
         then (None, tr\<lparr>active_bans := hm_remove (share_id, client_ip) (active_bans tr)\<rparr>)
         else (Some (scb_banned_until ban - now), tr))"

definition prune_share_failure_states ::
  "nat \<Rightarrow> (string \<times> string, share_failure_state) hashmap \<Rightarrow> (string \<times> string, share_failure_state) hashmap" where
  "prune_share_failure_states now m = hm_retain (\<lambda>_ st. now - sf_last_seen_at st \<le> MAX_IDLE_DURATION) m"

definition share_room ::
  "string \<times> string \<Rightarrow> nat \<Rightarrow> (string \<times> string, share_failure_state) hashmap
     \<Rightarrow> (string \<times> string, share_failure_state) hashmap" where
  "share_room key now m =
     (if \<not> hm_contains m key \<and> length m \<ge> MAX_TRACKED_SHARE_IPS
      then
        let pruned = prune_share_failure_states now m
        in if length pruned \<ge> MAX_TRACKED_SHARE_IPS
           then (case hm_min_by (\<lambda>st. int (sf_last_seen_at st)) pruned of
                   None \<Rightarrow> pruned | Some oldest \<Rightarrow> hm_remove oldest pruned)
           else pruned
      else m)"

definition record_violation ::
  "string \<Rightarrow> string \<Rightarrow> string \<Rightarrow> int \<Rightarrow> nat \<Rightarrow> int \<Rightarrow> share_tracker \<Rightarrow> share_ban_decision option \<times> share_tracker" where
  "record_violation share_id client_ip reason_code checked_at now_instant now tr0 =
     (case share_ban_remaining share_id client_ip checked_at tr0 of
        (Some _, tr) \<Rightarrow> (None, tr)
      | (None, tr) \<Rightarrow>
         let key = (share_id, client_ip);
             m = share_room key now_instant (share_failures tr);
             st = (case hm_get m key of Some st \<Rightarrow> st | None \<Rightarrow> \<lparr>sf_failures = [], sf_last_seen_at = now_instant\<rparr>);
             recent = dropWhile (\<lambda>(seen_at, _). now_instant - seen_at > SHARE_ABUSE_WINDOW) (sf_failures st)
               @ [(now_instant, now)]
         in if length recent < SHARE_ABUSE_LIMIT
            then (None, tr\<lparr>share_failures := hm_insert key \<lparr>sf_failures = recent, sf_last_seen_at = now_instant\<rparr> m\<rparr>)
            else (Some \<lparr>sbd_share_id = share_id, sbd_client_ip = client_ip, sbd_reason_code = reason_code,
                        sbd_failure_count = length recent,
                        sbd_first_failure_at = (case recent of [] \<Rightarrow> now | (_, seen_at) # _ \<Rightarrow> seen_at),
                        sbd_last_failure_at = now, sbd_banned_at = now,
                        sbd_banned_until = now + SHARE_BAN_DURATION\<rparr>,
                  tr\<lparr>share_failures := hm_insert key \<lparr>sf_failures = [], sf_last_seen_at = now_instant\<rparr> m\<rparr>))"

definition activate :: "share_client_ban \<Rightarrow> share_tracker \<Rightarrow> share_tracker" where
  "activate ban tr = tr\<lparr>active_bans := hm_insert (scb_share_id ban, scb_client_ip ban) ban (active_bans tr)\<rparr>"

definition unban :: "string \<Rightarrow> string \<Rightarrow> share_tracker \<Rightarrow> share_tracker" where
  "unban share_id client_ip tr =
     tr\<lparr>active_bans := hm_remove (share_id, client_ip) (active_bans tr),
        share_failures := hm_remove (share_id, client_ip) (share_failures tr)\<rparr>"


section \<open>The tracker machine\<close>

record abuse_sys =
  clock :: nat
  by_ip :: ip_table
  shares :: share_tracker

datatype abuse_cmd =
    Tick nat
  | CheckBan string
  | InvalidAuth string
  | CheckShareBan string string int
  | Violation string string string int int
  | Activate share_client_ban
  | Unban string string

fun abuse_step :: "abuse_cmd \<Rightarrow> abuse_sys \<Rightarrow> abuse_sys" where
  "abuse_step (Tick d) sys = sys\<lparr>clock := clock sys + d\<rparr>"
| "abuse_step (CheckBan ip) sys = sys\<lparr>by_ip := snd (ban_remaining ip (clock sys) (by_ip sys))\<rparr>"
| "abuse_step (InvalidAuth ip) sys = sys\<lparr>by_ip := snd (record_invalid_auth ip (clock sys) (by_ip sys))\<rparr>"
| "abuse_step (CheckShareBan share ip now) sys = sys\<lparr>shares := snd (share_ban_remaining share ip now (shares sys))\<rparr>"
| "abuse_step (Violation share ip reason checked now) sys =
     sys\<lparr>shares := snd (record_violation share ip reason checked (clock sys) now (shares sys))\<rparr>"
| "abuse_step (Activate ban) sys = sys\<lparr>shares := activate ban (shares sys)\<rparr>"
| "abuse_step (Unban share ip) sys = sys\<lparr>shares := unban share ip (shares sys)\<rparr>"

definition new_abuse_sys :: "share_client_ban list \<Rightarrow> abuse_sys" where
  "new_abuse_sys bans = \<lparr>clock = 0, by_ip = [], shares = new_share_tracker bans\<rparr>"

text \<open>A failure window: short of the limit, in order, nothing from the future.\<close>

definition window_ok :: "nat \<Rightarrow> nat list \<Rightarrow> bool" where
  "window_ok c ts \<longleftrightarrow> length ts < 10 \<and> sorted ts \<and> (\<forall>t \<in> set ts. t \<le> c)"

definition table_ok :: "nat \<Rightarrow> ('v \<Rightarrow> bool) \<Rightarrow> ('k, 'v) hashmap \<Rightarrow> bool" where
  "table_ok n P m \<longleftrightarrow> hm_wf m \<and> length m \<le> n \<and> (\<forall>k v. hm_get m k = Some v \<longrightarrow> P v)"

abbreviation ip_ok :: "nat \<Rightarrow> ip_abuse_state \<Rightarrow> bool" where
  "ip_ok c \<equiv> \<lambda>st. window_ok c (invalid_auth_at st)"

abbreviation share_ok :: "nat \<Rightarrow> share_failure_state \<Rightarrow> bool" where
  "share_ok c \<equiv> \<lambda>st. window_ok c (map fst (sf_failures st))"

definition abuse_inv :: "abuse_sys \<Rightarrow> bool" where
  "abuse_inv sys \<longleftrightarrow>
     table_ok MAX_TRACKED_IPS (ip_ok (clock sys)) (by_ip sys)
     \<and> table_ok MAX_TRACKED_SHARE_IPS (share_ok (clock sys)) (share_failures (shares sys))"

lemma table_ok_retain: "table_ok n P m \<Longrightarrow> table_ok n P (hm_retain Q m)"
  by (auto simp: table_ok_def hm_get_retain intro: le_trans [OF length_retain] split: option.splits if_splits)

lemma table_ok_remove: "table_ok n P m \<Longrightarrow> table_ok n P (hm_remove k m)"
  by (auto simp: table_ok_def intro: le_trans [OF length_remove])

lemma table_ok_insert:
  "table_ok n P m \<Longrightarrow> P v \<Longrightarrow> hm_contains m k \<or> length m < n \<Longrightarrow> table_ok n P (hm_insert k v m)"
  by (auto simp: table_ok_def length_insert)

lemma table_ok_mono: "table_ok n P m \<Longrightarrow> (\<And>v. P v \<Longrightarrow> Q v) \<Longrightarrow> table_ok n Q m"
  by (auto simp: table_ok_def)

lemma table_ok_get: "table_ok n P m \<Longrightarrow> hm_get m k = Some v \<Longrightarrow> P v"
  by (auto simp: table_ok_def)

lemma table_ok_evict:
  assumes "table_ok n P m" "0 < n" "n \<le> length m"
  shows "length (case hm_min_by f m of None \<Rightarrow> m | Some k \<Rightarrow> hm_remove k m) < n"
  using hm_evict_length [of m n f] assms by (auto simp: table_ok_def)

lemma dropWhile_old:
  "sorted ts \<Longrightarrow> dropWhile (\<lambda>t. now - t > (w :: nat)) ts = filter (\<lambda>t. now - t \<le> w) ts"
proof (induction ts)
  case (Cons a ts)
  have "filter (\<lambda>t. now - t \<le> w) ts = ts" if "now - a \<le> w"
    using Cons.prems that by (intro filter_True) (auto intro: le_trans [OF diff_le_mono2])
  with Cons show ?case by auto
qed simp

lemma window_ok_append:
  assumes "window_ok c ts" "length (dropWhile (\<lambda>t. c - t > w) ts @ [c]) < 10"
  shows "window_ok c (dropWhile (\<lambda>t. c - t > w) ts @ [c])"
  using assms by (auto simp: window_ok_def dropWhile_old sorted_append sorted_wrt_filter)

lemma ip_room_ok:
  assumes "table_ok MAX_TRACKED_IPS P m"
  shows "table_ok MAX_TRACKED_IPS P (ip_room ip now m)
    \<and> (hm_contains (ip_room ip now m) ip \<or> length (ip_room ip now m) < MAX_TRACKED_IPS)"
proof -
  have p: "table_ok MAX_TRACKED_IPS P (prune_idle_states now m)"
    using assms by (simp add: prune_idle_states_def table_ok_retain)
  then have "table_ok MAX_TRACKED_IPS P (evict_oldest_state (prune_idle_states now m))"
    by (auto simp: evict_oldest_state_def table_ok_remove split: option.splits)
  with p assms table_ok_evict [OF p, of "\<lambda>st. int (last_seen_at st)"] show ?thesis
    by (auto simp: ip_room_def Let_def evict_oldest_state_def MAX_TRACKED_IPS_def)
qed

lemma share_room_ok:
  assumes "table_ok MAX_TRACKED_SHARE_IPS P m"
  shows "table_ok MAX_TRACKED_SHARE_IPS P (share_room key now m)
    \<and> (hm_contains (share_room key now m) key \<or> length (share_room key now m) < MAX_TRACKED_SHARE_IPS)"
proof -
  have p: "table_ok MAX_TRACKED_SHARE_IPS P (prune_share_failure_states now m)"
    using assms by (simp add: prune_share_failure_states_def table_ok_retain)
  with assms table_ok_evict [OF p, of "\<lambda>st. int (sf_last_seen_at st)"] show ?thesis
    by (auto simp: share_room_def Let_def MAX_TRACKED_SHARE_IPS_def table_ok_remove split: option.splits)
qed

lemma record_invalid_auth_inv:
  assumes "table_ok MAX_TRACKED_IPS (ip_ok c) m"
  shows "table_ok MAX_TRACKED_IPS (ip_ok c) (snd (record_invalid_auth ip c m))"
proof -
  let ?m = "ip_room ip c m"
  let ?st = "case hm_get ?m ip of Some st \<Rightarrow> st | None \<Rightarrow> \<lparr>invalid_auth_at = [], banned_until = None, last_seen_at = c\<rparr>"
  note room = ip_room_ok [OF assms, of ip c]
  have "window_ok c (invalid_auth_at ?st)"
    using room by (auto simp: window_ok_def dest: table_ok_get split: option.splits)
  then have "length (prune_old_failures c (invalid_auth_at ?st) @ [c]) < 10 \<Longrightarrow>
      window_ok c (prune_old_failures c (invalid_auth_at ?st) @ [c])"
    unfolding prune_old_failures_def by (rule window_ok_append)
  moreover have "window_ok c []" by (simp add: window_ok_def)
  ultimately show ?thesis
    using room by (auto simp: record_invalid_auth_def Let_def INVALID_AUTH_LIMIT_def intro!: table_ok_insert)
qed

lemma record_violation_inv:
  assumes "table_ok MAX_TRACKED_SHARE_IPS (share_ok c) (share_failures tr)"
  shows "table_ok MAX_TRACKED_SHARE_IPS (share_ok c) (share_failures (snd (record_violation share ip reason chk c now tr)))"
proof -
  let ?k = "(share, ip)"
  let ?m = "share_room ?k c (share_failures tr)"
  let ?st = "case hm_get ?m ?k of Some st \<Rightarrow> st | None \<Rightarrow> \<lparr>sf_failures = [], sf_last_seen_at = c\<rparr>"
  let ?drop = "dropWhile (\<lambda>(seen_at, _). c - seen_at > SHARE_ABUSE_WINDOW) (sf_failures ?st) @ [(c, now)]"
  note room = share_room_ok [OF assms, of ?k c]
  have "window_ok c (map fst (sf_failures ?st))"
    using room by (auto simp: window_ok_def dest: table_ok_get split: option.splits)
  moreover have "map fst ?drop = dropWhile (\<lambda>t. c - t > SHARE_ABUSE_WINDOW) (map fst (sf_failures ?st)) @ [c]"
    by (simp add: dropWhile_map comp_def case_prod_beta')
  ultimately have win: "length ?drop < 10 \<Longrightarrow> window_ok c (map fst ?drop)"
    using window_ok_append [of c "map fst (sf_failures ?st)" SHARE_ABUSE_WINDOW] by (metis length_map)
  have sf: "share_failures (snd (share_ban_remaining share ip chk tr)) = share_failures tr"
    by (auto simp: share_ban_remaining_def split: option.splits)
  have "window_ok c []" by (simp add: window_ok_def)
  then show ?thesis
    using room win sf assms
    by (auto simp: record_violation_def Let_def SHARE_ABUSE_LIMIT_def intro!: table_ok_insert split: prod.splits option.splits)
qed

lemma ban_remaining_inv:
  assumes "table_ok n (ip_ok c) m"
  shows "table_ok n (ip_ok c) (snd (ban_remaining ip now m))"
  using assms by (auto simp: ban_remaining_def Let_def hm_contains_def intro!: table_ok_insert
      dest: table_ok_get split: option.splits)

lemma abuse_step_inv: "abuse_inv sys \<Longrightarrow> abuse_inv (abuse_step c sys)"
proof (cases c)
  case (Tick d)
  assume "abuse_inv sys"
  with Tick show ?thesis
    by (auto simp: abuse_inv_def window_ok_def elim!: table_ok_mono)
qed (auto simp: abuse_inv_def record_invalid_auth_inv record_violation_inv ban_remaining_inv
      activate_def unban_def table_ok_remove share_ban_remaining_def split: option.splits)

interpretation abuse: growing_machine abuse_step abuse_inv "\<lambda>s t. clock s \<le> clock t"
proof unfold_locales
  show "clock s \<le> clock (abuse_step c s)" for s c by (cases c) simp_all
qed (auto intro: abuse_step_inv)

lemma new_abuse_inv: "abuse_inv (new_abuse_sys bans)"
  by (simp add: abuse_inv_def new_abuse_sys_def table_ok_def new_share_tracker_def)


section \<open>Properties\<close>

definition recent_failures :: "string \<Rightarrow> nat \<Rightarrow> ip_table \<Rightarrow> nat list" where
  "recent_failures ip now m =
     (case hm_get m ip of None \<Rightarrow> [] | Some st \<Rightarrow> filter (\<lambda>t. now - t \<le> INVALID_AUTH_WINDOW) (invalid_auth_at st))"

text \<open>
  C31. In every reachable state the tables are within their limits, and an invalid
  authentication bans its address exactly when it is the tenth recorded within
  ten minutes; the ban lasts one hour, counted from that moment, and then lapses.
\<close>

theorem tenth_failure_bans:
  fixes cmds bans ip
  defines "sys \<equiv> run_machine abuse_step cmds (new_abuse_sys bans)"
  defines "now \<equiv> clock sys"
  defines "m' \<equiv> snd (record_invalid_auth ip now (by_ip sys))"
  shows "length (by_ip sys) \<le> MAX_TRACKED_IPS \<and> length (share_failures (shares sys)) \<le> MAX_TRACKED_SHARE_IPS
    \<and> fst (record_invalid_auth ip now (by_ip sys)) =
        (if length (recent_failures ip now (by_ip sys)) = 9
         then Some \<lparr>bd_failures = 10, bd_ban_duration = from_secs 3600\<rparr> else None)
    \<and> (length (recent_failures ip now (by_ip sys)) = 9 \<longrightarrow>
        (\<forall>d. fst (ban_remaining ip (now + d) m') = (if d < from_secs 3600 then Some (from_secs 3600 - d) else None)))"
proof -
  have inv: "abuse_inv sys" unfolding sys_def by (rule abuse.run_inv [OF new_abuse_inv])
  let ?m = "ip_room ip now (by_ip sys)"
  let ?st = "case hm_get ?m ip of Some st \<Rightarrow> st | None \<Rightarrow> \<lparr>invalid_auth_at = [], banned_until = None, last_seen_at = now\<rparr>"
  have wf: "hm_wf (by_ip sys)" using inv by (simp add: abuse_inv_def table_ok_def)
  have get: "hm_get (by_ip sys) ip = Some st \<Longrightarrow> hm_get ?m ip = Some st"
    "hm_get (by_ip sys) ip = None \<Longrightarrow> hm_get ?m ip = None" for st
    using wf by (auto simp: ip_room_def hm_contains_def Let_def evict_oldest_state_def prune_idle_states_def
        hm_get_retain split: option.splits)
  have win: "hm_get (by_ip sys) ip = Some st \<Longrightarrow> window_ok now (invalid_auth_at st)" for st
    using inv by (auto simp: abuse_inv_def now_def dest: table_ok_get)
  have pr: "prune_old_failures now (invalid_auth_at ?st) = recent_failures ip now (by_ip sys)"
    using get win by (cases "hm_get (by_ip sys) ip")
      (auto simp: prune_old_failures_def recent_failures_def dropWhile_old window_ok_def)
  have lt: "length (recent_failures ip now (by_ip sys)) < 10"
    using win by (auto simp: recent_failures_def window_ok_def intro: le_less_trans [OF length_filter_le] split: option.splits)
  have rec: "record_invalid_auth ip now (by_ip sys) =
     (if length (recent_failures ip now (by_ip sys)) = 9
      then (Some \<lparr>bd_failures = 10, bd_ban_duration = BAN_DURATION\<rparr>,
            hm_insert ip \<lparr>invalid_auth_at = [], banned_until = Some (now + BAN_DURATION), last_seen_at = now\<rparr> ?m)
      else (None, hm_insert ip (?st\<lparr>last_seen_at := now, invalid_auth_at := recent_failures ip now (by_ip sys) @ [now]\<rparr>) ?m))"
    using lt by (auto simp: record_invalid_auth_def Let_def pr INVALID_AUTH_LIMIT_def)
  have "fst (ban_remaining ip (now + d) m') = (if d < from_secs 3600 then Some (from_secs 3600 - d) else None)"
    if "length (recent_failures ip now (by_ip sys)) = 9" for d
    using that by (simp add: m'_def rec ban_remaining_def BAN_DURATION_def)
  with rec inv show ?thesis
    by (auto simp: abuse_inv_def table_ok_def BAN_DURATION_def)
qed

text \<open>
  C33. Recording a failure of another address keeps an active ban, unless the table
  is full after pruning and no address was seen longer ago than the banned one
  (only then is the oldest entry evicted, banned or not).
\<close>

theorem active_ban_survives:
  assumes "hm_wf m" "hm_get m ip = Some st" "banned_until st = Some until" "now < until" "other \<noteq> ip"
    and "hm_contains m other \<or> length (prune_idle_states now m) < MAX_TRACKED_IPS
      \<or> (\<exists>k st'. hm_get (prune_idle_states now m) k = Some st' \<and> last_seen_at st' < last_seen_at st)"
  shows "fst (ban_remaining ip now (snd (record_invalid_auth other now m))) = Some (until - now)"
proof -
  let ?p = "prune_idle_states now m"
  have p: "hm_get ?p ip = Some st" "hm_wf ?p"
    using assms(1-4) by (auto simp: prune_idle_states_def hm_get_retain)
  have "hm_get (ip_room other now m) ip = Some st"
  proof (cases "\<not> hm_contains m other \<and> length ?p \<ge> MAX_TRACKED_IPS")
    case True
    with assms(6) obtain k st' where older: "hm_get ?p k = Some st'" "last_seen_at st' < last_seen_at st"
      by (auto simp: not_less [symmetric])
    have "hm_min_by (\<lambda>s. int (last_seen_at s)) ?p \<noteq> Some ip"
      using hm_min_by_least [OF p(2) _ p(1) older(1), of "\<lambda>s. int (last_seen_at s)"] older(2) by auto
    with p(1) assms(2) show ?thesis
      by (auto simp: ip_room_def Let_def evict_oldest_state_def split: option.splits)
  qed (use p assms(2) in \<open>auto simp: ip_room_def Let_def\<close>)
  with assms(3-5) show ?thesis
    by (auto simp: record_invalid_auth_def Let_def ban_remaining_def)
qed

text \<open>
  A client banned from a share stays banned until its time is up: while the ban
  is active further violations are not counted, and after an unban both the ban
  and the failures counted so far are gone, so the next violation starts afresh.
\<close>

theorem share_ban_lifecycle:
  fixes ban :: share_client_ban and tr :: share_tracker
  defines "share \<equiv> scb_share_id ban" and "ip \<equiv> scb_client_ip ban"
  shows "(now < scb_banned_until ban \<longrightarrow>
      fst (share_ban_remaining share ip now (activate ban tr)) = Some (scb_banned_until ban - now)
      \<and> record_violation share ip reason now inst utc (activate ban tr) = (None, activate ban tr))
    \<and> (scb_banned_until ban \<le> now \<longrightarrow> fst (share_ban_remaining share ip now (activate ban tr)) = None)
    \<and> fst (share_ban_remaining share ip now (unban share ip (activate ban tr))) = None
    \<and> hm_get (share_failures (unban share ip (activate ban tr))) (share, ip) = None"
  by (simp add: activate_def unban_def share_ban_remaining_def record_violation_def share_def ip_def)



section \<open>Concrete runs\<close>

definition nine_failures :: "abuse_cmd list" where
  "nine_failures =
     (let f = InvalidAuth ''ip'' in [f, f, f, f, f, f, f, f, f])"


theorem tenth_failure_bans_witness:
  "fst (record_invalid_auth ''ip'' 0 (by_ip (run_machine abuse_step nine_failures (new_abuse_sys [])))) =
     Some \<lparr>bd_failures = 10, bd_ban_duration = from_secs 3600\<rparr>"
proof -
  have s: "clock (run_machine abuse_step nine_failures (new_abuse_sys [])) = 0"
    "length (recent_failures ''ip'' 0 (by_ip (run_machine abuse_step nine_failures (new_abuse_sys [])))) = 9"
    by (simp_all add: Let_def nine_failures_def new_abuse_sys_def record_invalid_auth_def ip_room_def hm_contains_def
        MAX_TRACKED_IPS_def INVALID_AUTH_LIMIT_def prune_old_failures_def recent_failures_def)
  from tenth_failure_bans [of nine_failures "[]" "''ip''"] s show ?thesis by simp
qed

theorem active_ban_survives_witness:
  "fst (ban_remaining ''a'' 5 (snd (record_invalid_auth ''b'' 5
     [(''a'', \<lparr>invalid_auth_at = [], banned_until = Some 9, last_seen_at = 1\<rparr>)]))) = Some 4"
  using active_ban_survives [of "[(''a'', \<lparr>invalid_auth_at = [], banned_until = Some 9, last_seen_at = 1\<rparr>)]"
      "''a''" "\<lparr>invalid_auth_at = [], banned_until = Some 9, last_seen_at = 1\<rparr>" 9 5 "''b''"]
  by (simp add: prune_idle_states_def hm_retain_def MAX_TRACKED_IPS_def)

theorem share_ban_lifecycle_witness:
  "fst (share_ban_remaining ''s'' ''ip'' 7 (activate
      \<lparr>scb_id = ''b'', scb_share_id = ''s'', scb_client_ip = ''ip'', scb_reason_code = ''auth'', scb_failure_count = 10,
       scb_first_failure_at = 0, scb_last_failure_at = 1, scb_banned_at = 1, scb_banned_until = 10\<rparr>
      (new_share_tracker []))) = Some 3"
  using share_ban_lifecycle [of 7 "\<lparr>scb_id = ''b'', scb_share_id = ''s'', scb_client_ip = ''ip'',
      scb_reason_code = ''auth'', scb_failure_count = 10, scb_first_failure_at = 0, scb_last_failure_at = 1,
      scb_banned_at = 1, scb_banned_until = 10\<rparr>" "new_share_tracker []"] by simp


end
