(* ===== verification/Market_Common.thy ===== *)
theory Market_Common
  imports Money
begin

text \<open>
  Rules shared by the markets (\<open>src/src/market_common.rs\<close>): the persistent ledger of
  free usage, the health state a billing period sees, and the calendar of recurring
  periods. The calendar of the \<open>chrono\<close> library is a record of functions, with its
  documented behaviour as the hypothesis \<open>gregorian\<close>; what a share reports as its
  latest observation is an argument.
\<close>


section \<open>Free usage\<close>

record free_usage_key =
  fk_buyer :: string
  fk_supplier :: string
  fk_product :: string
  fk_scope_kind :: string
  fk_scope_ref :: string

record free_usage_row =
  fu_allowance :: int
  fu_granted :: int
  fu_created_at :: string
  fu_updated_at :: string

type_synonym free_usage_db = "free_usage_key \<rightharpoonup> free_usage_row"

definition free_usage_allowance_seconds :: "nat \<Rightarrow> int result" where
  "free_usage_allowance_seconds free_duration_days =
     (case checked_mul64 (int free_duration_days) 86400 of
        None \<Rightarrow> Inl (BadRequest ''free usage duration is too large'')
      | Some s \<Rightarrow> Inr s)"

definition free_usage_check :: "free_usage_key \<Rightarrow> free_usage_row \<Rightarrow> bool" where
  "free_usage_check k r \<longleftrightarrow>
     fk_scope_kind k \<in> {''service'', ''supplier''} \<and> 0 \<le> fu_allowance r \<and> 0 \<le> fu_granted r"

definition ensure_free_usage_scope_tx ::
  "string \<Rightarrow> string \<Rightarrow> string \<Rightarrow> string \<Rightarrow> string \<Rightarrow> int \<Rightarrow> string \<Rightarrow> (free_usage_db, int) tx" where
  "ensure_free_usage_scope_tx buyer supplier product_kind scope_kind scope_ref allowance now db =
     (let key = \<lparr>fk_buyer = buyer, fk_supplier = supplier, fk_product = product_kind,
            fk_scope_kind = scope_kind, fk_scope_ref = scope_ref\<rparr>;
          row = (case db key of
              None \<Rightarrow> \<lparr>fu_allowance = allowance, fu_granted = 0, fu_created_at = now, fu_updated_at = now\<rparr>
            | Some r \<Rightarrow> r\<lparr>fu_allowance := max (fu_allowance r) allowance, fu_updated_at := now\<rparr>)
      in if \<not> free_usage_check key row
         then Inl (db_error ''ensure persistent free usage ledger'' (Database ''market_free_usage_ledgers''))
         else Inr (max (fu_allowance row - fu_granted row) 0, db(key \<mapsto> row)))"

definition free_usage_available_tx ::
  "string \<Rightarrow> string \<Rightarrow> string \<Rightarrow> string \<Rightarrow> nat \<Rightarrow> string \<Rightarrow> (free_usage_db, bool) tx" where
  "free_usage_available_tx buyer supplier product_kind service_ref days now =
     bind_tx (lift_tx (free_usage_allowance_seconds days)) (\<lambda>allowance.
     bind_tx (ensure_free_usage_scope_tx buyer supplier product_kind ''service'' service_ref allowance now)
       (\<lambda>service_remaining.
     bind_tx (ensure_free_usage_scope_tx buyer supplier product_kind ''supplier'' supplier allowance now)
       (\<lambda>supplier_remaining. return_tx (service_remaining > 0 \<and> supplier_remaining > 0))))"

definition grant_scope_tx ::
  "string \<Rightarrow> string \<Rightarrow> string \<Rightarrow> string \<Rightarrow> string \<Rightarrow> int \<Rightarrow> string \<Rightarrow> (free_usage_db, unit) tx" where
  "grant_scope_tx buyer supplier product_kind scope_kind scope_ref granted now db =
     (let key = \<lparr>fk_buyer = buyer, fk_supplier = supplier, fk_product = product_kind,
            fk_scope_kind = scope_kind, fk_scope_ref = scope_ref\<rparr>
      in case db key of
           None \<Rightarrow> Inr ((), db)
         | Some r \<Rightarrow>
            let row = r\<lparr>fu_granted := min (fu_allowance r) (fu_granted r + granted), fu_updated_at := now\<rparr>
            in if \<not> free_usage_check key row
               then Inl (db_error ''claim persistent free usage'' (Database ''market_free_usage_ledgers''))
               else Inr ((), db(key \<mapsto> row)))"

definition claim_free_usage_tx ::
  "string \<Rightarrow> string \<Rightarrow> string \<Rightarrow> string \<Rightarrow> nat \<Rightarrow> string \<Rightarrow> (free_usage_db, int) tx" where
  "claim_free_usage_tx buyer supplier product_kind service_ref days now =
     bind_tx (lift_tx (free_usage_allowance_seconds days)) (\<lambda>allowance.
     bind_tx (ensure_free_usage_scope_tx buyer supplier product_kind ''service'' service_ref allowance now)
       (\<lambda>service_remaining.
     bind_tx (ensure_free_usage_scope_tx buyer supplier product_kind ''supplier'' supplier allowance now)
       (\<lambda>supplier_remaining.
         let granted = min service_remaining supplier_remaining
         in if granted \<le> 0 then return_tx 0
            else
              bind_tx (grant_scope_tx buyer supplier product_kind ''service'' service_ref granted now) (\<lambda>_.
              bind_tx (grant_scope_tx buyer supplier product_kind ''supplier'' supplier granted now) (\<lambda>_.
              return_tx granted)))))"


section \<open>Service health\<close>

definition HEALTH_FRESHNESS_SECS :: int where
  "HEALTH_FRESHNESS_SECS = 90"

definition MAX_ACCRUAL_GAP_SECS :: int where
  "MAX_ACCRUAL_GAP_SECS = 20"

record health_tables =
  share_subscriptions :: "(string \<times> string) list"
  client_subscriptions :: "(string \<times> string) list"
  installation_health_checks :: "(string \<times> int \<times> string \<times> string) list"

fun latest_of :: "(int \<times> string \<times> string) list \<Rightarrow> (int \<times> string \<times> string) option" where
  "latest_of [] = None"
| "latest_of (x # xs) =
     (case latest_of xs of None \<Rightarrow> Some x | Some y \<Rightarrow> if fst y \<le> fst x then Some x else Some y)"

definition latest_health_observation_tx ::
  "(string \<Rightarrow> int \<Rightarrow> (int \<times> string \<times> string) option result) \<Rightarrow> string \<Rightarrow> string \<Rightarrow> string \<Rightarrow> int
     \<Rightarrow> health_tables \<Rightarrow> (int \<times> string \<times> string) option result" where
  "latest_health_observation_tx share_observation product_kind product_ref service_ref observed_at t =
     (let service_active =
        (if product_kind = ''share''
         then \<exists>(i, status) \<in> set (share_subscriptions t). i = product_ref
                \<and> status \<in> {''active_free'', ''active_postpaid'', ''active_prepaid''}
         else if product_kind = ''client_host''
         then \<exists>(i, status) \<in> set (client_subscriptions t). i = product_ref \<and> status = ''active''
         else False)
      in if \<not> service_active then Inr None
         else if product_kind = ''share'' then share_observation product_ref observed_at
         else Inr (latest_of (map snd
           (filter (\<lambda>(i, checked_at, _). i = service_ref \<and> checked_at \<le> observed_at)
             (installation_health_checks t)))))"

definition effective_service_health_tx ::
  "(string \<Rightarrow> int \<Rightarrow> (int \<times> string \<times> string) option result) \<Rightarrow> string \<Rightarrow> string \<Rightarrow> string \<Rightarrow> int \<Rightarrow> int
     \<Rightarrow> health_tables \<Rightarrow> (string \<times> string) result" where
  "effective_service_health_tx share_observation product_kind product_ref service_ref started_at ended_at t =
     (let gap = max (ended_at - started_at) 0
      in case latest_health_observation_tx share_observation product_kind product_ref service_ref ended_at t of
           Inl e \<Rightarrow> Inl e
         | Inr observation \<Rightarrow>
            let (observed_state, reason) =
              (case observation of
                 Some (checked_at, status, reason) \<Rightarrow>
                   if status = ''healthy'' \<and> ended_at - checked_at \<le> HEALTH_FRESHNESS_SECS
                   then (''healthy'', reason)
                   else if status = ''unhealthy'' then (''unhealthy'', reason)
                   else (''unknown'', reason)
               | None \<Rightarrow> (''unknown'', ''no_router_observation''))
            in if gap > MAX_ACCRUAL_GAP_SECS then Inr (''unknown'', ''billing_worker_gap'')
               else Inr (observed_state, reason))"


section \<open>Recurring periods\<close>

record 'd chrono =
  from_ymd_opt :: "int \<Rightarrow> nat \<Rightarrow> nat \<Rightarrow> 'd option"
  pred_day :: "'d \<Rightarrow> 'd"
  year_of :: "'d \<Rightarrow> int"
  month_of :: "'d \<Rightarrow> nat"
  day_of :: "'d \<Rightarrow> nat"

definition next_month :: "int \<Rightarrow> nat \<Rightarrow> int \<times> nat" where
  "next_month year month = (if month = 12 then (year + 1, 1) else (year, month + 1))"

definition days_in_month :: "'d chrono \<Rightarrow> int \<Rightarrow> nat \<Rightarrow> nat result" where
  "days_in_month c year month =
     (let (next_year, next_m) = next_month year month
      in case from_ymd_opt c next_year next_m 1 of
           None \<Rightarrow> Inl (Internal ''calendar month is outside the supported range'')
         | Some next \<Rightarrow> Inr (day_of c (pred_day c next)))"

definition next_calendar_month_at :: "'d chrono \<Rightarrow> 'd \<times> 't \<Rightarrow> nat \<Rightarrow> ('d \<times> 't) result" where
  "next_calendar_month_at c current anchor_day =
     (if \<not> (1 \<le> anchor_day \<and> anchor_day \<le> 31)
      then Inl (Internal ''recurring billing anchor day is invalid'')
      else
        let (year, month) = next_month (year_of c (fst current)) (month_of c (fst current))
        in case days_in_month c year month of
             Inl e \<Rightarrow> Inl e
           | Inr days \<Rightarrow>
              (case from_ymd_opt c year month (min anchor_day days) of
                 None \<Rightarrow> Inl (Internal ''recurring period date is invalid'')
               | Some date \<Rightarrow> Inr (date, snd current)))"


section \<open>Free usage is bounded by the allowance\<close>

abbreviation supplier_key :: "string \<Rightarrow> string \<Rightarrow> string \<Rightarrow> free_usage_key" where
  "supplier_key buyer supplier product_kind \<equiv>
     \<lparr>fk_buyer = buyer, fk_supplier = supplier, fk_product = product_kind,
      fk_scope_kind = ''supplier'', fk_scope_ref = supplier\<rparr>"

abbreviation service_key :: "string \<Rightarrow> string \<Rightarrow> string \<Rightarrow> string \<Rightarrow> free_usage_key" where
  "service_key buyer supplier product_kind service \<equiv>
     \<lparr>fk_buyer = buyer, fk_supplier = supplier, fk_product = product_kind,
      fk_scope_kind = ''service'', fk_scope_ref = service\<rparr>"

definition granted_of :: "free_usage_key \<Rightarrow> free_usage_db \<Rightarrow> int" where
  "granted_of k db = (case db k of None \<Rightarrow> 0 | Some r \<Rightarrow> fu_granted r)"

definition allowance_of :: "free_usage_key \<Rightarrow> free_usage_db \<Rightarrow> int" where
  "allowance_of k db = (case db k of None \<Rightarrow> 0 | Some r \<Rightarrow> fu_allowance r)"

definition free_usage_inv :: "free_usage_db \<Rightarrow> bool" where
  "free_usage_inv db \<longleftrightarrow> (\<forall>k r. db k = Some r \<longrightarrow> 0 \<le> fu_granted r \<and> fu_granted r \<le> fu_allowance r)"

lemma allowance_seconds_Inr: "free_usage_allowance_seconds d = Inr a \<Longrightarrow> a = int d * 86400 \<and> 0 \<le> a"
  by (auto simp: free_usage_allowance_seconds_def i64_simps split: option.splits)

lemma free_usage_inv_row: "free_usage_inv db \<Longrightarrow> db k = Some r \<Longrightarrow> 0 \<le> fu_granted r \<and> fu_granted r \<le> fu_allowance r"
  by (auto simp: free_usage_inv_def)

lemma granted_le_allowance: "free_usage_inv db \<Longrightarrow> granted_of k db \<le> allowance_of k db"
  using free_usage_inv_row [of db k] by (auto simp: granted_of_def allowance_of_def split: option.splits)

lemma free_usage_inv_upd:
  "free_usage_inv db \<Longrightarrow> 0 \<le> fu_granted r \<Longrightarrow> fu_granted r \<le> fu_allowance r \<Longrightarrow> free_usage_inv (db(k \<mapsto> r))"
  by (auto simp: free_usage_inv_def)

lemma ensure_scope_Inr:
  assumes "ensure_free_usage_scope_tx b p k sk sr a now db = Inr (rem, db')" "free_usage_inv db" "0 \<le> a"
  defines "key \<equiv> \<lparr>fk_buyer = b, fk_supplier = p, fk_product = k, fk_scope_kind = sk, fk_scope_ref = sr\<rparr>"
  shows "free_usage_inv db'" "\<And>k'. granted_of k' db' = granted_of k' db"
    "\<And>k'. allowance_of k' db' = (if k' = key then max (allowance_of key db) a else allowance_of k' db)"
    "rem = max (allowance_of key db) a - granted_of key db" "0 \<le> rem" "db' key \<noteq> None"
    "\<And>k'. db k' \<noteq> None \<Longrightarrow> db' k' \<noteq> None"
proof -
  define row where "row = (case db key of
      None \<Rightarrow> \<lparr>fu_allowance = a, fu_granted = 0, fu_created_at = now, fu_updated_at = now\<rparr>
    | Some r \<Rightarrow> r\<lparr>fu_allowance := max (fu_allowance r) a, fu_updated_at := now\<rparr>)"
  have r: "fu_granted row = granted_of key db" "fu_allowance row = max (allowance_of key db) a"
    "0 \<le> fu_granted row" "fu_granted row \<le> fu_allowance row"
    using assms(3) free_usage_inv_row [OF assms(2), of key]
    by (auto simp: row_def granted_of_def allowance_of_def max_def split: option.splits)
  have db': "db' = db(key \<mapsto> row)" "rem = max (fu_allowance row - fu_granted row) 0"
    using assms(1) by (auto simp: ensure_free_usage_scope_tx_def Let_def key_def row_def split: if_splits)
  show "free_usage_inv db'" unfolding db'(1) by (rule free_usage_inv_upd [OF assms(2) r(3,4)])
  show "granted_of k' db' = granted_of k' db"
    "allowance_of k' db' = (if k' = key then max (allowance_of key db) a else allowance_of k' db)"
    "db' key \<noteq> None" "db k' \<noteq> None \<Longrightarrow> db' k' \<noteq> None" for k'
    using r db' by (auto simp: granted_of_def allowance_of_def)
  show "rem = max (allowance_of key db) a - granted_of key db" "0 \<le> rem" using r db' by auto
qed

lemma grant_scope_Inr:
  assumes "grant_scope_tx b p k sk sr g now db = Inr (x, db')" "free_usage_inv db" "0 \<le> g"
  defines "key \<equiv> \<lparr>fk_buyer = b, fk_supplier = p, fk_product = k, fk_scope_kind = sk, fk_scope_ref = sr\<rparr>"
  assumes "db key \<noteq> None" "granted_of key db + g \<le> allowance_of key db"
  shows "free_usage_inv db'" "\<And>k'. granted_of k' db' = granted_of k' db + (if k' = key then g else 0)"
    "\<And>k'. allowance_of k' db' = allowance_of k' db" "\<And>k'. db k' \<noteq> None \<Longrightarrow> db' k' \<noteq> None"
proof -
  from assms(5) obtain r where r: "db key = Some r" by blast
  define row where "row = r\<lparr>fu_granted := fu_granted r + g, fu_updated_at := now\<rparr>"
  have db': "db' = db(key \<mapsto> row)"
    using assms(1,6) r by (auto simp: grant_scope_tx_def Let_def key_def row_def granted_of_def allowance_of_def
        min_def split: if_splits)
  show "free_usage_inv db'"
    unfolding db' using assms(3,6) r free_usage_inv_row [OF assms(2) r]
    by (intro free_usage_inv_upd [OF assms(2)]) (auto simp: row_def granted_of_def allowance_of_def)
  show "granted_of k' db' = granted_of k' db + (if k' = key then g else 0)"
    "allowance_of k' db' = allowance_of k' db" "db k' \<noteq> None \<Longrightarrow> db' k' \<noteq> None" for k'
    using r by (auto simp: db' row_def granted_of_def allowance_of_def)
qed

lemma claim_free_usage_Inr:
  assumes "claim_free_usage_tx b p k sv d now db = Inr (g, db')" "free_usage_inv db"
  shows "free_usage_inv db' \<and> 0 \<le> g
    \<and> granted_of (supplier_key b p k) db' = granted_of (supplier_key b p k) db + g
    \<and> granted_of (service_key b p k sv) db' = granted_of (service_key b p k sv) db + g
    \<and> allowance_of (supplier_key b p k) db' = max (allowance_of (supplier_key b p k) db) (int d * 86400)
    \<and> allowance_of (service_key b p k sv) db' = max (allowance_of (service_key b p k sv) db) (int d * 86400)
    \<and> (g = 0 \<longrightarrow> granted_of (supplier_key b p k) db' = allowance_of (supplier_key b p k) db'
          \<or> granted_of (service_key b p k sv) db' = allowance_of (service_key b p k sv) db')"
proof -
  from assms(1) obtain a r1 r2 db1 db2 where
    a: "free_usage_allowance_seconds d = Inr a"
    and e1: "ensure_free_usage_scope_tx b p k ''service'' sv a now db = Inr (r1, db1)"
    and e2: "ensure_free_usage_scope_tx b p k ''supplier'' p a now db1 = Inr (r2, db2)"
    and rest: "(let granted = min r1 r2 in if granted \<le> 0 then return_tx 0
            else bind_tx (grant_scope_tx b p k ''service'' sv granted now) (\<lambda>_.
              bind_tx (grant_scope_tx b p k ''supplier'' p granted now) (\<lambda>_. return_tx granted))) db2 = Inr (g, db')"
    unfolding claim_free_usage_tx_def by (simp only: tx_simps) blast
  note al = allowance_seconds_Inr [OF a]
  note x1 = ensure_scope_Inr [OF e1 assms(2) conjunct2 [OF al]]
  note x2 = ensure_scope_Inr [OF e2 x1(1) conjunct2 [OF al]]
  show ?thesis
  proof (cases "min r1 r2 \<le> 0")
    case True
    then have "r1 = 0 \<or> r2 = 0" using x1(5) x2(5) by linarith
    moreover have "g = 0" "db' = db2" using True rest by (simp_all add: tx_simps)
    ultimately show ?thesis using x1 x2 al by auto
  next
    case False
    define m where "m = min r1 r2"
    have m: "0 \<le> m" "0 < m" "m \<le> r1" "m \<le> r2" using False by (auto simp: m_def)
    from False rest obtain db3 u v where
      g1: "grant_scope_tx b p k ''service'' sv m now db2 = Inr (u, db3)"
      and g2: "grant_scope_tx b p k ''supplier'' p m now db3 = Inr (v, db')" and g: "g = m"
      by (auto simp: tx_simps Let_def m_def)
    have y1: "db2 (service_key b p k sv) \<noteq> None"
      "granted_of (service_key b p k sv) db2 + m \<le> allowance_of (service_key b p k sv) db2"
      using x2(7) [OF x1(6)] m x1(4) by (simp_all add: x2(2,3) x1(2,3))
    note z1 = grant_scope_Inr [OF g1 x2(1) m(1) y1]
    have y2: "db3 (supplier_key b p k) \<noteq> None"
      "granted_of (supplier_key b p k) db3 + m \<le> allowance_of (supplier_key b p k) db3"
      using z1(4) [OF x2(6)] m x2(4) by (simp_all add: z1(2,3) x2(2,3))
    note z2 = grant_scope_Inr [OF g2 z1(1) m(1) y2]
    show ?thesis using m g z2(1) al by (simp add: z2(2,3) z1(2,3) x2(2,3) x1(2,3))
  qed
qed

fun claim_all_tx :: "string \<Rightarrow> string \<Rightarrow> string \<Rightarrow> (string \<times> nat \<times> string) list \<Rightarrow> (free_usage_db, int) tx" where
  "claim_all_tx buyer supplier product_kind [] = return_tx 0"
| "claim_all_tx buyer supplier product_kind ((service, days, now) # cs) =
     bind_tx (claim_free_usage_tx buyer supplier product_kind service days now) (\<lambda>g.
     bind_tx (claim_all_tx buyer supplier product_kind cs) (\<lambda>rest. return_tx (g + rest)))"

lemma claim_all_Inr:
  assumes "claim_all_tx b p k cs db = Inr (sum_granted, db')" "free_usage_inv db"
  shows "free_usage_inv db' \<and> granted_of (supplier_key b p k) db' = granted_of (supplier_key b p k) db + sum_granted
    \<and> allowance_of (supplier_key b p k) db' =
        fold (\<lambda>(_, d, _) m. max m (int d * 86400)) cs (allowance_of (supplier_key b p k) db)"
  using assms
proof (induction cs arbitrary: db sum_granted)
  case (Cons c cs)
  obtain sv d now where c: "c = (sv, d, now)" by (cases c)
  from Cons.prems(1) obtain g rest db1 where
    step: "claim_free_usage_tx b p k sv d now db = Inr (g, db1)"
    and more: "claim_all_tx b p k cs db1 = Inr (rest, db')" and t: "sum_granted = g + rest"
    by (auto simp: c tx_simps)
  note s = claim_free_usage_Inr [OF step Cons.prems(2)]
  with Cons.IH [OF more] show ?case by (simp add: c t)
qed (simp add: tx_simps)

lemma fold_max_le:
  "(\<forall>c \<in> set cs. int (fst (snd c)) * 86400 \<le> A) \<Longrightarrow> a \<le> A \<Longrightarrow> fold (\<lambda>(_, d, _) m. max m (int d * 86400)) cs a \<le> A"
  by (induction cs arbitrary: a) (auto simp: case_prod_beta)

text \<open>
  C34. However a buyer claims the free usage of a supplier's services of one kind, in
  any order and number, the seconds granted in total never exceed the largest
  allowance any of those services offered.
\<close>

theorem free_usage_bounded_per_supplier:
  assumes "claim_all_tx buyer supplier product_kind cs (\<lambda>_. None) = Inr (sum_granted, db)"
    and "\<forall>(_, days, _) \<in> set cs. days \<le> max_days"
  shows "0 \<le> sum_granted \<and> sum_granted \<le> int max_days * 86400"
proof -
  let ?k = "supplier_key buyer supplier product_kind"
  have inv: "free_usage_inv (\<lambda>_. None)" by (simp add: free_usage_inv_def)
  note c = claim_all_Inr [OF assms(1) inv]
  have "allowance_of ?k db \<le> int max_days * 86400"
    using c assms(2) fold_max_le [of cs "int max_days * 86400" 0] by (force simp: allowance_of_def)
  moreover have "granted_of ?k db \<le> max (allowance_of ?k db) 0" "0 \<le> granted_of ?k db"
    using free_usage_inv_row [OF conjunct1 [OF c], of ?k]
    by (auto simp: granted_of_def allowance_of_def max_def split: option.splits)
  ultimately show ?thesis using c by (auto simp: granted_of_def)
qed

text \<open>
  C35. The free usage the service announces is the one it grants: when
  \<open>free_usage_available_tx\<close> answers yes, the claim that follows grants at least one
  second, and otherwise it grants none.
\<close>

theorem free_usage_available_iff_claim:
  assumes "free_usage_inv db"
    and "free_usage_available_tx b p k sv d now db = Inr (available, db1)"
    and "claim_free_usage_tx b p k sv d now' db1 = Inr (g, db2)"
  shows "available \<longleftrightarrow> 0 < g"
proof -
  from assms(2) obtain a r1 r2 dba where
    a: "free_usage_allowance_seconds d = Inr a"
    and e1: "ensure_free_usage_scope_tx b p k ''service'' sv a now db = Inr (r1, dba)"
    and e2: "ensure_free_usage_scope_tx b p k ''supplier'' p a now dba = Inr (r2, db1)"
    and av: "available \<longleftrightarrow> 0 < r1 \<and> 0 < r2"
    by (auto simp: free_usage_available_tx_def tx_simps)
  note al = allowance_seconds_Inr [OF a]
  note x1 = ensure_scope_Inr [OF e1 assms(1) conjunct2 [OF al]]
  note x2 = ensure_scope_Inr [OF e2 x1(1) conjunct2 [OF al]]
  note c = claim_free_usage_Inr [OF assms(3) x2(1)]
  let ?S = "supplier_key b p k" and ?V = "service_key b p k sv"
  have r: "r2 = allowance_of ?S db1 - granted_of ?S db1" "r1 = allowance_of ?V db1 - granted_of ?V db1"
    using x1(4) x2(4) by (simp_all add: x1(2,3) x2(2,3))
  have al2: "allowance_of ?S db2 = allowance_of ?S db1" "allowance_of ?V db2 = allowance_of ?V db1"
    using c al by (simp_all add: x1(3) x2(3))
  have le: "granted_of ?S db2 \<le> allowance_of ?S db2" "granted_of ?V db2 \<le> allowance_of ?V db2"
    using granted_le_allowance c by blast+
  show ?thesis
  proof (cases "g = 0")
    case True
    then have "r2 = 0 \<or> r1 = 0" using c r al2 by auto
    with True av show ?thesis by auto
  next
    case False
    then have "0 < g" "g \<le> r2" "g \<le> r1" using c r al2 le by auto
    with av show ?thesis by auto
  qed
qed


section \<open>Billing sees health only when it was observed\<close>

lemma latest_of_None: "latest_of xs = None \<longleftrightarrow> xs = []"
  by (cases xs) (auto split: option.splits if_splits)

lemma latest_of_Some:
  "latest_of xs = Some x \<Longrightarrow> x \<in> set xs \<and> (\<forall>y \<in> set xs. fst y \<le> fst x)"
  by (induction xs arbitrary: x) (fastforce simp: latest_of_None split: option.splits if_splits)+

text \<open>
  A hosted client is billed as healthy for a period only when its subscription is
  active, the billing worker evaluated the period without a gap of more than 20
  seconds, and the newest health check made by the end of the period says healthy
  and is at most 90 seconds old.
\<close>

theorem client_healthy_only_if_observed:
  assumes "effective_service_health_tx obs ''client_host'' ref service started ended t = Inr (''healthy'', reason)"
  shows "(ref, ''active'') \<in> set (client_subscriptions t) \<and> ended - started \<le> 20
    \<and> (\<exists>checked_at. (service, checked_at, ''healthy'', reason) \<in> set (installation_health_checks t)
        \<and> checked_at \<le> ended \<and> ended \<le> checked_at + 90
        \<and> (\<forall>c st r. (service, c, st, r) \<in> set (installation_health_checks t) \<and> c \<le> ended \<longrightarrow> c \<le> checked_at))"
proof -
  let ?rows = "map snd (filter (\<lambda>(i, checked_at, _). i = service \<and> checked_at \<le> ended) (installation_health_checks t))"
  from assms obtain c where act: "(ref, ''active'') \<in> set (client_subscriptions t)"
    and lat: "latest_of ?rows = Some (c, ''healthy'', reason)"
    and fresh: "ended - c \<le> 90" "ended - started \<le> 20"
    by (auto simp: effective_service_health_tx_def latest_health_observation_tx_def Let_def
        HEALTH_FRESHNESS_SECS_def MAX_ACCRUAL_GAP_SECS_def max_def split: option.splits prod.splits if_splits sum.splits)
  from latest_of_Some [OF lat] have "(service, c, ''healthy'', reason) \<in> set (installation_health_checks t)" "c \<le> ended"
    and "\<forall>y \<in> set ?rows. fst y \<le> c" by auto
  with act fresh show ?thesis by (intro conjI exI [of _ c]) force+
qed


section \<open>Recurring periods do not drift\<close>

definition leap_year :: "int \<Rightarrow> bool" where
  "leap_year y \<longleftrightarrow> (4 dvd y \<and> \<not> 100 dvd y) \<or> 400 dvd y"

definition month_length :: "int \<Rightarrow> nat \<Rightarrow> nat" where
  "month_length y m =
     (if m = 2 then (if leap_year y then 29 else 28) else if m \<in> {4, 6, 9, 11} then 30 else 31)"

text \<open>
  The documented calendar of \<open>chrono\<close> for the years \<open>lo\<close> to \<open>hi\<close>: \<open>from_ymd_opt\<close> accepts
  exactly the dates of the Gregorian calendar, and the day before the first of a
  month is the last of the month before.
\<close>

definition gregorian :: "'d chrono \<Rightarrow> int \<Rightarrow> int \<Rightarrow> bool" where
  "gregorian c lo hi \<longleftrightarrow>
     (\<forall>y m d. from_ymd_opt c y m d \<noteq> None \<longleftrightarrow>
        lo \<le> y \<and> y \<le> hi \<and> 1 \<le> m \<and> m \<le> 12 \<and> 1 \<le> d \<and> d \<le> month_length y m)
     \<and> (\<forall>y m d x. from_ymd_opt c y m d = Some x \<longrightarrow> year_of c x = y \<and> month_of c x = m \<and> day_of c x = d)
     \<and> (\<forall>y m x. from_ymd_opt c (fst (next_month y m)) (snd (next_month y m)) 1 = Some x \<longrightarrow>
          1 \<le> m \<longrightarrow> m \<le> 12 \<longrightarrow> day_of c (pred_day c x) = month_length y m)"

definition month_index :: "'d chrono \<Rightarrow> 'd \<Rightarrow> int" where
  "month_index c x = year_of c x * 12 + int (month_of c x) - 1"

fun periods_after :: "'d chrono \<Rightarrow> nat \<Rightarrow> 'd \<times> 't \<Rightarrow> nat \<Rightarrow> ('d \<times> 't) result" where
  "periods_after c 0 current anchor_day = Inr current"
| "periods_after c (Suc n) current anchor_day =
     (case periods_after c n current anchor_day of
        Inl e \<Rightarrow> Inl e
      | Inr p \<Rightarrow> next_calendar_month_at c p anchor_day)"

lemma month_length_pos: "28 \<le> month_length y m" "month_length y m \<le> 31"
  by (auto simp: month_length_def)

lemma gregorian_Some:
  assumes "gregorian c lo hi" "lo \<le> y" "y \<le> hi" "1 \<le> m" "m \<le> 12" "1 \<le> d" "d \<le> month_length y m"
  shows "\<exists>x. from_ymd_opt c y m d = Some x \<and> year_of c x = y \<and> month_of c x = m \<and> day_of c x = d"
proof -
  have "from_ymd_opt c y m d \<noteq> None" using assms unfolding gregorian_def by blast
  then obtain x where "from_ymd_opt c y m d = Some x" by blast
  moreover from this assms(1) have "year_of c x = y \<and> month_of c x = m \<and> day_of c x = d"
    unfolding gregorian_def by blast
  ultimately show ?thesis by blast
qed

lemma gregorian_pred:
  assumes "gregorian c lo hi" "from_ymd_opt c (fst (next_month y m)) (snd (next_month y m)) 1 = Some x" "1 \<le> m" "m \<le> 12"
  shows "day_of c (pred_day c x) = month_length y m"
  using assms unfolding gregorian_def by blast

lemma next_calendar_month_Inr:
  assumes g: "gregorian c lo hi" and a: "1 \<le> anchor" "anchor \<le> 31"
    and cur: "1 \<le> month_of c x" "month_of c x \<le> 12" "lo \<le> year_of c x" "year_of c x + 2 \<le> hi"
  shows "\<exists>x'. next_calendar_month_at c (x, tm) anchor = Inr (x', tm)
    \<and> month_index c x' = month_index c x + 1 \<and> 1 \<le> month_of c x' \<and> month_of c x' \<le> 12
    \<and> lo \<le> year_of c x' \<and> day_of c x' = min anchor (month_length (year_of c x') (month_of c x'))"
proof -
  obtain y m where ym: "next_month (year_of c x) (month_of c x) = (y, m)" by force
  then have r: "1 \<le> m" "m \<le> 12" "lo \<le> y" "y + 1 \<le> hi" "y * 12 + int m = year_of c x * 12 + int (month_of c x) + 1"
    using cur by (auto simp: next_month_def split: if_splits)
  obtain y2 m2 where ym2: "next_month y m = (y2, m2)" by force
  then have "lo \<le> y2 \<and> y2 \<le> hi \<and> 1 \<le> m2 \<and> m2 \<le> 12" using r by (auto simp: next_month_def split: if_splits)
  then obtain z where z: "from_ymd_opt c y2 m2 1 = Some z"
    using gregorian_Some [OF g, of y2 m2 1] month_length_pos(1) [of y2 m2] by auto
  then have days: "days_in_month c y m = Inr (month_length y m)"
    using gregorian_pred [OF g, of y m z] ym2 r by (simp add: days_in_month_def)
  let ?d = "min anchor (month_length y m)"
  have "1 \<le> ?d" "?d \<le> month_length y m" using a month_length_pos(1) [of y m] by auto
  then obtain x' where x': "from_ymd_opt c y m ?d = Some x'" "year_of c x' = y" "month_of c x' = m" "day_of c x' = ?d"
    using gregorian_Some [OF g, of y m ?d] r by auto
  with r a show ?thesis
    by (intro exI [of _ x']) (simp add: next_calendar_month_at_def ym days month_index_def)
qed

text \<open>
  C36. Recurring periods do not drift: the n-th renewal falls in the n-th month after
  the start, at the same time of day, on the anchor day or on the last day of a
  shorter month, so a contract anchored on the 31st returns to the 31st.
\<close>

theorem recurring_periods_keep_anchor:
  assumes "gregorian c lo hi" "1 \<le> anchor" "anchor \<le> 31"
    and "1 \<le> month_of c x" "month_of c x \<le> 12" "lo \<le> year_of c x" "year_of c x + int n + 2 \<le> hi" "0 < n"
  shows "\<exists>x'. periods_after c n (x, tm) anchor = Inr (x', tm)
    \<and> month_index c x' = month_index c x + int n
    \<and> day_of c x' = min anchor (month_length (year_of c x') (month_of c x'))"
proof -
  have "\<exists>x'. periods_after c n (x, tm) anchor = Inr (x', tm) \<and> month_index c x' = month_index c x + int n
      \<and> 1 \<le> month_of c x' \<and> month_of c x' \<le> 12 \<and> lo \<le> year_of c x'
      \<and> (0 < n \<longrightarrow> day_of c x' = min anchor (month_length (year_of c x') (month_of c x')))"
    using assms(7)
  proof (induction n)
    case 0
    then show ?case using assms(4-6) by simp
  next
    case (Suc n)
    then obtain y where y: "periods_after c n (x, tm) anchor = Inr (y, tm)"
      "month_index c y = month_index c x + int n" "1 \<le> month_of c y" "month_of c y \<le> 12" "lo \<le> year_of c y" by auto
    have "year_of c y \<le> year_of c x + int n + 0 \<or> n = 0"
      using y(2-4) assms(4,5) by (auto simp: month_index_def)
    then have "year_of c y + 2 \<le> hi" using y(1) Suc.prems by auto
    from next_calendar_month_Inr [OF assms(1-3) y(3-5) this, of tm] y show ?case by auto
  qed
  with assms(8) show ?thesis by blast
qed


section \<open>Concrete runs\<close>

definition ymd_chrono :: "(int \<times> nat \<times> nat) chrono" where
  "ymd_chrono =
     \<lparr>from_ymd_opt = (\<lambda>y m d. if 1 \<le> y \<and> y \<le> 9999 \<and> 1 \<le> m \<and> m \<le> 12 \<and> 1 \<le> d \<and> d \<le> month_length y m
         then Some (y, m, d) else None),
      pred_day = (\<lambda>(y, m, d). if 1 < d then (y, m, d - 1)
         else if 1 < m then (y, m - 1, month_length y (m - 1)) else (y - 1, 12, 31)),
      year_of = fst, month_of = fst \<circ> snd, day_of = snd \<circ> snd\<rparr>"

lemma ymd_chrono_gregorian: "gregorian ymd_chrono 1 9999"
  by (auto simp: gregorian_def ymd_chrono_def next_month_def month_length_def split: if_splits)

theorem recurring_periods_keep_anchor_witness:
  "\<exists>x'. periods_after ymd_chrono 2 ((2024, 1, 31), ''10:00'') 31 = Inr (x', ''10:00'')
    \<and> day_of ymd_chrono x' = min 31 (month_length (year_of ymd_chrono x') (month_of ymd_chrono x'))"
  using recurring_periods_keep_anchor [OF ymd_chrono_gregorian, of 31 "(2024, 1, 31)" 2 "''10:00''"]
  by (auto simp: ymd_chrono_def)

definition sample_health :: health_tables where
  "sample_health = \<lparr>share_subscriptions = [], client_subscriptions = [(''inst'', ''active'')],
     installation_health_checks = [(''inst'', 100, ''unhealthy'', ''old''), (''inst'', 190, ''healthy'', ''ok'')]\<rparr>"

theorem client_healthy_only_if_observed_witness:
  "effective_service_health_tx (\<lambda>_ _. Inr None) ''client_host'' ''inst'' ''inst'' 185 200 sample_health = Inr (''healthy'', ''ok'')
   \<and> (\<exists>checked_at. (''inst'', checked_at, ''healthy'', ''ok'') \<in> set (installation_health_checks sample_health)
        \<and> 200 \<le> checked_at + 90)"
proof -
  have run: "effective_service_health_tx (\<lambda>_ _. Inr None) ''client_host'' ''inst'' ''inst'' 185 200 sample_health
      = Inr (''healthy'', ''ok'')"
    by (simp add: sample_health_def effective_service_health_tx_def latest_health_observation_tx_def Let_def
        HEALTH_FRESHNESS_SECS_def MAX_ACCRUAL_GAP_SECS_def)
  from client_healthy_only_if_observed [OF run] run show ?thesis by blast
qed

theorem free_usage_bounded_per_supplier_witness:
  "\<exists>g db. claim_all_tx ''b'' ''s'' ''share'' [(''x'', 2, ''t''), (''y'', 3, ''t'')] (\<lambda>_. None) = Inr (g, db) \<and> g \<le> 259200"
proof -
  have "\<not> isl (claim_all_tx ''b'' ''s'' ''share'' [(''x'', 2, ''t''), (''y'', 3, ''t'')] (\<lambda>_. None))"
    by code_simp
  then obtain g db where "claim_all_tx ''b'' ''s'' ''share'' [(''x'', 2, ''t''), (''y'', 3, ''t'')] (\<lambda>_. None) = Inr (g, db)"
    by (cases "claim_all_tx ''b'' ''s'' ''share'' [(''x'', 2, ''t''), (''y'', 3, ''t'')] (\<lambda>_. None)") auto
  with free_usage_bounded_per_supplier [OF this, of 3] show ?thesis by simp
qed

theorem free_usage_available_iff_claim_witness:
  "\<exists>a db1 g db2. free_usage_available_tx ''b'' ''s'' ''share'' ''x'' 2 ''t'' (\<lambda>_. None) = Inr (a, db1)
    \<and> claim_free_usage_tx ''b'' ''s'' ''share'' ''x'' 2 ''t2'' db1 = Inr (g, db2) \<and> a = (0 < g)"
proof -
  have "\<not> isl (bind_tx (free_usage_available_tx ''b'' ''s'' ''share'' ''x'' 2 ''t'')
      (\<lambda>_. claim_free_usage_tx ''b'' ''s'' ''share'' ''x'' 2 ''t2'') (\<lambda>_. None))"
    by code_simp
  from not_isl_bind [OF this] obtain a db1 g db2 where "free_usage_available_tx ''b'' ''s'' ''share'' ''x'' 2 ''t'' (\<lambda>_. None) = Inr (a, db1)"
    "claim_free_usage_tx ''b'' ''s'' ''share'' ''x'' 2 ''t2'' db1 = Inr (g, db2)"
    by blast
  with free_usage_available_iff_claim [of "\<lambda>_. None"] show ?thesis by (fastforce simp: free_usage_inv_def)
qed

end
