(* ===== verification/Value_Pricing.thy ===== *)
theory Value_Pricing
  imports Money "HOL-Library.Char_ord" "HOL-Library.List_Lexorder"
begin

text \<open>
  The pure arithmetic of API-price-equivalent quotas (\<open>src/src/share_value_pricing.rs\<close>):
  canonical decimals, quota limits, execution rates, context tiers and pricing
  snapshots. A \<open>BTreeMap\<close> is an association list in key order and text is ASCII. The
  JSON printer and SHA-256 belong to libraries and are arguments, as are the candidate
  names of a model (\<open>model_price_catalog.rs\<close>).
\<close>


section \<open>Limits\<close>

definition TARIFF_POLICY :: string where
  "TARIFF_POLICY = ''api-equivalent-v1''"

definition PICOS_PER_MICRO :: int where
  "PICOS_PER_MICRO = 1000000"

definition MAX_LIMIT_MICROS :: int where
  "MAX_LIMIT_MICROS = 1000000000000000"

definition MAX_SNAPSHOT_BYTES :: nat where
  "MAX_SNAPSHOT_BYTES = 4 * 1024 * 1024"

definition MAX_MODELS :: nat where
  "MAX_MODELS = 10000"

datatype value_error =
    InvalidDecimal | OutOfRange | InvalidPolicy | InvalidSnapshot | PriceUnavailable | UsageUnavailable | Overflow

fun value_error_text :: "value_error \<Rightarrow> string" where
  "value_error_text InvalidDecimal = ''invalid canonical unsigned decimal''"
| "value_error_text OutOfRange = ''value exceeds the supported range''"
| "value_error_text InvalidPolicy = ''invalid USD-equivalent quota policy''"
| "value_error_text InvalidSnapshot = ''invalid pricing snapshot''"
| "value_error_text PriceUnavailable = ''price_unavailable''"
| "value_error_text UsageUnavailable = ''usage_unavailable''"
| "value_error_text Overflow = ''quota arithmetic overflow''"

type_synonym 'a priced = "value_error + 'a"

definition and_then :: "'a priced \<Rightarrow> ('a \<Rightarrow> 'b priced) \<Rightarrow> 'b priced" where
  "and_then r f = (case r of Inl e \<Rightarrow> Inl e | Inr x \<Rightarrow> f x)"

lemma and_then_Inr [simp]: "and_then r f = Inr y \<longleftrightarrow> (\<exists>x. r = Inr x \<and> f x = Inr y)"
  by (auto simp: and_then_def split: sum.splits)

definition ok_or :: "'a option \<Rightarrow> value_error \<Rightarrow> 'a priced" where
  "ok_or r e = (case r of None \<Rightarrow> Inl e | Some x \<Rightarrow> Inr x)"

lemma ok_or_Inr [simp]: "ok_or r e = Inr x \<longleftrightarrow> r = Some x"
  by (auto simp: ok_or_def split: option.splits)

definition unsigned_decimal :: "string \<Rightarrow> int priced" where
  "unsigned_decimal raw =
     (if raw = [] \<or> length raw > 39 \<or> (length raw > 1 \<and> hd raw = CHR ''0'') \<or> \<not> all_digits raw
      then Inl InvalidDecimal else ok_or (parse_i128 raw) OutOfRange)"

record value_quota =
  vq_limit_usd_micros :: string
  vq_tariff_policy_id :: string

definition limit_picos :: "value_quota \<Rightarrow> int priced" where
  "limit_picos q =
     and_then (unsigned_decimal (vq_limit_usd_micros q)) (\<lambda>micros.
       if vq_tariff_policy_id q \<noteq> TARIFF_POLICY \<or> micros = 0 \<or> micros > MAX_LIMIT_MICROS
       then Inl InvalidPolicy
       else ok_or (checked_mul128 micros PICOS_PER_MICRO) Overflow)"


section \<open>Execution rates\<close>

datatype context_input_basis = FreshInput | RawInput

datatype cache_write_policy = CacheUnavailable | FiveMinutesOnly | OneHourOnly | Both

record execution_rates =
  er_input :: "string option"
  er_output :: "string option"
  er_cache_read :: "string option"
  er_cache_write5m :: "string option"
  er_cache_write1h :: "string option"
  er_cache_write_policy :: cache_write_policy

definition rate :: "string option \<Rightarrow> int option priced" where
  "rate raw =
     (case raw of
        None \<Rightarrow> Inr None
      | Some s \<Rightarrow> and_then (unsigned_decimal s) (\<lambda>v. if v > i64_max then Inl OutOfRange else Inr (Some v)))"

definition validate_rates :: "execution_rates \<Rightarrow> unit priced" where
  "validate_rates r =
     and_then (rate (er_input r)) (\<lambda>_.
     and_then (rate (er_output r)) (\<lambda>_.
     and_then (rate (er_cache_read r)) (\<lambda>_.
     and_then (rate (er_cache_write5m r)) (\<lambda>_.
     and_then (rate (er_cache_write1h r)) (\<lambda>_.
       if er_input r = None \<or> er_output r = None then Inl PriceUnavailable
       else
         (let w5 = er_cache_write5m r \<noteq> None; w1 = er_cache_write1h r \<noteq> None
          in case er_cache_write_policy r of
               CacheUnavailable \<Rightarrow> if w5 \<or> w1 then Inl InvalidSnapshot else Inr ()
             | FiveMinutesOnly \<Rightarrow> if \<not> w5 \<or> w1 then Inl InvalidSnapshot else Inr ()
             | OneHourOnly \<Rightarrow> if \<not> w1 \<or> w5 then Inl InvalidSnapshot else Inr ()
             | Both \<Rightarrow> if \<not> w5 \<or> \<not> w1 then Inl InvalidSnapshot else Inr ()))))))"

record value_tokens =
  fresh_input :: int
  output_tokens :: int
  cache_read :: int
  cache_write5m :: int
  cache_write1h :: int
  cache_write_unknown :: int

definition raw_input :: "value_tokens \<Rightarrow> int priced" where
  "raw_input t =
     fold (\<lambda>n acc. and_then acc (\<lambda>sum. ok_or (checked_addu64 sum n) Overflow))
       [cache_read t, cache_write5m t, cache_write1h t, cache_write_unknown t] (Inr (fresh_input t))"

record priced_value =
  usage_picos :: int
  conservative_cache_ttl :: bool

definition add_count :: "int \<Rightarrow> int option \<Rightarrow> int \<Rightarrow> int priced" where
  "add_count count r acc =
     (if count = 0 then Inr acc
      else and_then (ok_or r PriceUnavailable) (\<lambda>v.
           and_then (ok_or (checked_mul128 count v) Overflow) (\<lambda>x.
           ok_or (checked_add128 acc x) Overflow)))"

definition unknown_rate :: "execution_rates \<Rightarrow> int option priced" where
  "unknown_rate r =
     (case er_cache_write_policy r of
        CacheUnavailable \<Rightarrow> Inr None
      | FiveMinutesOnly \<Rightarrow> rate (er_cache_write5m r)
      | OneHourOnly \<Rightarrow> rate (er_cache_write1h r)
      | Both \<Rightarrow>
         and_then (rate (er_cache_write5m r)) (\<lambda>a. and_then (ok_or a PriceUnavailable) (\<lambda>w5.
         and_then (rate (er_cache_write1h r)) (\<lambda>b. and_then (ok_or b PriceUnavailable) (\<lambda>w1.
         Inr (Some (max w5 w1)))))))"

definition price_rates :: "execution_rates \<Rightarrow> value_tokens \<Rightarrow> priced_value priced" where
  "price_rates r t =
     and_then (validate_rates r) (\<lambda>_.
     and_then (rate (er_input r)) (\<lambda>v1. and_then (add_count (fresh_input t) v1 0) (\<lambda>a1.
     and_then (rate (er_output r)) (\<lambda>v2. and_then (add_count (output_tokens t) v2 a1) (\<lambda>a2.
     and_then (rate (er_cache_read r)) (\<lambda>v3. and_then (add_count (cache_read t) v3 a2) (\<lambda>a3.
     and_then (rate (er_cache_write5m r)) (\<lambda>v4. and_then (add_count (cache_write5m t) v4 a3) (\<lambda>a4.
     and_then (rate (er_cache_write1h r)) (\<lambda>v5. and_then (add_count (cache_write1h t) v5 a4) (\<lambda>a5.
     and_then (unknown_rate r) (\<lambda>v6. and_then (add_count (cache_write_unknown t) v6 a5) (\<lambda>a6.
     Inr \<lparr>usage_picos = a6,
          conservative_cache_ttl = (cache_write_unknown t > 0 \<and> er_cache_write_policy r = Both)\<rparr>)))))))))))))"


section \<open>Model prices\<close>

record execution_model_price =
  context_basis :: context_input_basis
  long_context_threshold :: "int option"
  long_context_inclusive :: bool
  model_rates :: "(string, execution_rates) hashmap"

definition rate_keys :: "string list" where
  "rate_keys = [''standard/base'', ''standard/long'', ''priority/base'', ''priority/long'', ''flex/base'', ''flex/long'']"

definition tiers :: "string list" where
  "tiers = [''standard'', ''priority'', ''flex'']"

definition supports_tier :: "execution_model_price \<Rightarrow> string \<Rightarrow> bool" where
  "supports_tier m tier \<longleftrightarrow>
     hm_contains (model_rates m) (tier @ ''/base'')
     \<and> (long_context_threshold m = None \<or> hm_contains (model_rates m) (tier @ ''/long''))"

fun validate_rate_entries :: "int option \<Rightarrow> (string \<times> execution_rates) list \<Rightarrow> unit priced" where
  "validate_rate_entries threshold [] = Inr ()"
| "validate_rate_entries threshold ((key, r) # rest) =
     (if key \<notin> set rate_keys then Inl InvalidSnapshot
      else if ends_with ''/long'' key \<and> threshold = None then Inl InvalidSnapshot
      else and_then (validate_rates r) (\<lambda>_. validate_rate_entries threshold rest))"

definition validate_model :: "execution_model_price \<Rightarrow> unit priced" where
  "validate_model m =
     (if long_context_threshold m = Some 0 \<or> model_rates m = [] \<or> length (model_rates m) > 6
      then Inl InvalidSnapshot
      else and_then (validate_rate_entries (long_context_threshold m) (model_rates m)) (\<lambda>_.
        if \<exists>tier \<in> set tiers. (\<exists>key \<in> fst ` set (model_rates m). starts_with (tier @ ''/'') key) \<and> \<not> supports_tier m tier
        then Inl InvalidSnapshot else Inr ()))"

definition price_model :: "execution_model_price \<Rightarrow> string \<Rightarrow> value_tokens \<Rightarrow> priced_value priced" where
  "price_model m effective_tier t =
     (if effective_tier \<notin> set tiers then Inl PriceUnavailable
      else and_then (case context_basis m of FreshInput \<Rightarrow> Inr (fresh_input t) | RawInput \<Rightarrow> raw_input t) (\<lambda>context_input.
        let long = (case long_context_threshold m of
              None \<Rightarrow> False
            | Some n \<Rightarrow> if long_context_inclusive m then context_input \<ge> n else context_input > n);
            key = effective_tier @ ''/'' @ (if long then ''long'' else ''base'')
        in and_then (ok_or (hm_get (model_rates m) key) PriceUnavailable) (\<lambda>r. price_rates r t)))"


section \<open>Snapshots\<close>

record pricing_snapshot =
  schema_version :: nat
  tariff_policy_id :: string
  currency :: string
  models :: "(string, execution_model_price) hashmap"
  exact_aliases :: "(string, string) hashmap"

definition is_control :: "char \<Rightarrow> bool" where
  "is_control c \<longleftrightarrow> (let n = (of_char c :: nat) in n < 32 \<or> (127 \<le> n \<and> n \<le> 159))"

definition valid_model_key :: "string \<Rightarrow> bool" where
  "valid_model_key key \<longleftrightarrow> key \<noteq> [] \<and> length key \<le> 250 \<and> trim key = key \<and> \<not> list_ex is_control key"

fun validate_models :: "(string \<times> execution_model_price) list \<Rightarrow> unit priced" where
  "validate_models [] = Inr ()"
| "validate_models ((key, price) # rest) =
     (if \<not> valid_model_key key then Inl InvalidSnapshot
      else and_then (validate_model price) (\<lambda>_. validate_models rest))"

definition validate_fields :: "pricing_snapshot \<Rightarrow> unit priced" where
  "validate_fields s =
     (if schema_version s \<noteq> 1 \<or> tariff_policy_id s \<noteq> TARIFF_POLICY \<or> currency s \<noteq> ''USD''
         \<or> models s = [] \<or> length (models s) > MAX_MODELS \<or> length (exact_aliases s) > MAX_MODELS * 4
      then Inl InvalidSnapshot
      else and_then (validate_models (models s)) (\<lambda>_.
        if \<exists>(alias, key) \<in> set (exact_aliases s). \<not> valid_model_key alias
             \<or> \<not> hm_contains (models s) key \<or> hm_contains (models s) alias
        then Inl InvalidSnapshot else Inr ()))"

text \<open>
  The canonical text of a snapshot and the revision it is stored under;
  \<open>to_json\<close> stands for \<open>serde_json::to_string\<close> and \<open>sha256_hex\<close> for the digest of the
  \<open>sha2\<close> crate.
\<close>

definition canonical_json :: "(pricing_snapshot \<Rightarrow> string option) \<Rightarrow> pricing_snapshot \<Rightarrow> string priced" where
  "canonical_json to_json s =
     and_then (validate_fields s) (\<lambda>_. and_then (ok_or (to_json s) InvalidSnapshot) (\<lambda>json.
       if length json > MAX_SNAPSHOT_BYTES then Inl InvalidSnapshot else Inr json))"

definition revision_of_canonical_json :: "(string \<Rightarrow> string) \<Rightarrow> string \<Rightarrow> string" where
  "revision_of_canonical_json sha256_hex json = ''sha256:'' @ sha256_hex json"

definition revision_of_snapshot ::
  "(pricing_snapshot \<Rightarrow> string option) \<Rightarrow> (string \<Rightarrow> string) \<Rightarrow> pricing_snapshot \<Rightarrow> string priced"
where
  "revision_of_snapshot to_json sha256_hex s =
     and_then (canonical_json to_json s) (\<lambda>json. Inr (revision_of_canonical_json sha256_hex json))"

text \<open>\<open>candidates\<close> are the identities \<open>identity_candidates\<close> derives from the name.\<close>

definition resolve_candidate :: "pricing_snapshot \<Rightarrow> string \<Rightarrow> execution_model_price option" where
  "resolve_candidate s candidate =
     hm_get (models s) (case hm_get (exact_aliases s) candidate of Some key \<Rightarrow> key | None \<Rightarrow> candidate)"

fun find_map :: "('a \<Rightarrow> 'b option) \<Rightarrow> 'a list \<Rightarrow> 'b option" where
  "find_map f [] = None"
| "find_map f (x # xs) = (case f x of Some y \<Rightarrow> Some y | None \<Rightarrow> find_map f xs)"

definition model_price :: "pricing_snapshot \<Rightarrow> string list \<Rightarrow> string \<Rightarrow> execution_model_price priced" where
  "model_price s candidates effective_model =
     ok_or (find_map (resolve_candidate s) (effective_model # candidates)) PriceUnavailable"

text \<open>Insertion into an ordered map, and the reader of a wire map, which refuses a repeated key.\<close>

fun bt_insert :: "string \<Rightarrow> 'v \<Rightarrow> (string \<times> 'v) list \<Rightarrow> (string \<times> 'v) list" where
  "bt_insert key v [] = [(key, v)]"
| "bt_insert key v ((k, w) # rest) =
     (if key < k then (key, v) # (k, w) # rest
      else if key = k then (key, v) # rest
      else (k, w) # bt_insert key v rest)"

fun unique_map :: "(string \<times> 'v) list \<Rightarrow> (string, 'v) hashmap \<Rightarrow> (string + (string, 'v) hashmap)" where
  "unique_map [] values = Inr values"
| "unique_map ((key, v) # rest) values =
     (if hm_contains values key then Inl ''duplicate pricing key''
      else unique_map rest (bt_insert key v values))"


section \<open>Canonical decimals\<close>

lemma show_nat_digits_val:
  "all_digits s \<Longrightarrow> s \<noteq> [] \<Longrightarrow> length s = 1 \<or> hd s \<noteq> CHR ''0'' \<Longrightarrow>
   show_nat (nat (digits_val s)) = s \<and> (hd s \<noteq> CHR ''0'' \<longrightarrow> 0 < digits_val s)"
proof (induction s rule: rev_induct)
  case (snoc c t)
  have c: "is_ascii_digit c" using snoc.prems(1) by simp
  note d = digit_of_nonneg [OF c]
  have dc: "digit_char (nat (digit_of c)) = c"
    using c by (simp add: digit_char_def digit_of_def is_ascii_digit_def nat_diff_distrib')
  have pos: "c \<noteq> CHR ''0'' \<Longrightarrow> 0 < digit_of c"
  proof -
    assume "c \<noteq> CHR ''0''"
    moreover have "char_of (48 :: nat) = CHR ''0''" by code_simp
    ultimately have "(of_char c :: nat) \<noteq> 48" by (metis char_of_char)
    with d show ?thesis by (simp add: digit_of_def)
  qed
  show ?case
  proof (cases "t = []")
    case True
    with d dc pos digits_val_snoc [of "[]" c] show ?thesis by (auto simp: show_nat.simps nat_less_iff)
  next
    case False
    have t: "all_digits t" "hd t \<noteq> CHR ''0''" using snoc.prems False by auto
    with snoc.IH False have ih: "show_nat (nat (digits_val t)) = t" "0 < digits_val t" by auto
    define n where "n = nat (10 * digits_val t + digit_of c)"
    obtain a b where ab: "digits_val t = int a" "digit_of c = int b" "0 < a" "b < 10"
      using ih(2) d that [of "nat (digits_val t)" "nat (digit_of c)"] by auto
    then have n: "\<not> n < 10" "n div 10 = nat (digits_val t)" "n mod 10 = nat (digit_of c)"
      by (auto simp: n_def nat_add_distrib nat_mult_distrib)
    show ?thesis
      using n ih dc d False by (simp add: show_nat.simps [of n] flip: n_def)
  qed
qed simp

lemma show_nat_head: "n \<noteq> 0 \<Longrightarrow> hd (show_nat n) \<noteq> CHR ''0''"
proof (induction n rule: show_nat.induct)
  case (1 n)
  show ?case
  proof (cases "n < 10")
    case True
    have "digit_of CHR ''0'' = 0" by (simp add: digit_of_def)
    then have "digit_char n \<noteq> CHR ''0''" using digit_char_props(2) [OF True] 1(2) by auto
    with True show ?thesis by (simp add: show_nat.simps [of n])
  next
    case False
    with 1 show ?thesis by (simp add: show_nat.simps [of n])
  qed
qed

lemma show_nat_length: "n < 10 ^ Suc k \<Longrightarrow> length (show_nat n) \<le> Suc k"
proof (induction k arbitrary: n)
  case (Suc k)
  then show ?case
    by (cases "n < 10") (auto simp: show_nat.simps [of n] less_mult_imp_div_less)
qed (simp add: show_nat.simps)

text \<open>
  The decimals on the wire are canonical: \<open>unsigned_decimal\<close> accepts exactly the
  printed form of the naturals up to the i128 maximum, so a value has one text and
  an accepted text one value.
\<close>

theorem unsigned_decimal_canonical:
  "unsigned_decimal raw = Inr n \<longleftrightarrow> 0 \<le> n \<and> n \<le> i128_max \<and> raw = show_int n"
proof
  assume a: "unsigned_decimal raw = Inr n"
  then have r: "raw \<noteq> []" "length raw = 1 \<or> hd raw \<noteq> CHR ''0''" "all_digits raw"
    by (auto simp: unsigned_decimal_def Suc_lessI split: if_splits)
  then have n: "n = digits_val raw" "in_i128 n"
    using a parse_signed_digits [OF r(3,1), of in_i128]
    by (auto simp: unsigned_decimal_def parse_i128_def split: if_splits)
  with show_nat_digits_val [OF r(3,1,2)] digits_val_bounds [OF r(3)]
  show "0 \<le> n \<and> n \<le> i128_max \<and> raw = show_int n"
    by (simp add: show_int_def in_i128_def)
next
  assume n: "0 \<le> n \<and> n \<le> i128_max \<and> raw = show_int n"
  then have raw: "raw = show_nat (nat n)" by (simp add: show_int_def)
  have "nat n < 10 ^ Suc 38" using n by (simp add: i128_max_def nat_less_iff)
  then have len: "length raw \<le> 39" using show_nat_length [of "nat n" 38] raw by simp
  have hd: "length raw = 1 \<or> hd raw \<noteq> CHR ''0''"
    using raw show_nat_head [of "nat n"] by (cases "nat n = 0") (auto simp: show_nat.simps)
  have "parse_i128 raw = Some n"
    unfolding raw using n by (simp add: parse_i128_def parse_signed_digits in_i128_def i128_min_def)
  with len hd raw show "unsigned_decimal raw = Inr n"
    by (auto simp: unsigned_decimal_def)
qed


section \<open>Prices are exact\<close>

lemma rate_Inr:
  "rate raw = Inr v \<longleftrightarrow> (case raw of None \<Rightarrow> v = None
     | Some s \<Rightarrow> \<exists>n. unsigned_decimal s = Inr n \<and> n \<le> i64_max \<and> v = Some n)"
  by (auto simp: rate_def and_then_def split: option.splits sum.splits if_splits)

lemma unsigned_decimal_nonneg: "unsigned_decimal s = Inr n \<Longrightarrow> 0 \<le> n"
  using digits_val_bounds [of s] parse_signed_digits [of s in_i128]
  by (auto simp: unsigned_decimal_def parse_i128_def split: if_splits)

lemma rate_bounds: "rate raw = Inr (Some n) \<Longrightarrow> 0 \<le> n \<and> n \<le> i64_max"
  by (auto simp: rate_Inr dest: unsigned_decimal_nonneg split: option.splits)

text \<open>What a category costs: its count times its rate, nothing without tokens.\<close>

definition cost :: "int \<Rightarrow> int option \<Rightarrow> int" where
  "cost count r = (if count = 0 then 0 else count * the r)"

lemma add_count_Inr:
  "add_count count r acc = Inr x \<longleftrightarrow>
     x = acc + cost count r \<and> (count \<noteq> 0 \<longrightarrow> r \<noteq> None \<and> in_i128 (count * the r) \<and> in_i128 (acc + count * the r))"
  by (cases r) (auto simp: add_count_def cost_def checked_mul128_def checked_add128_def checked_i128_def)

definition rate_of :: "string option \<Rightarrow> int option" where
  "rate_of raw = (case rate raw of Inr v \<Rightarrow> v | Inl _ \<Rightarrow> None)"

definition unknown_rate_of :: "execution_rates \<Rightarrow> int option" where
  "unknown_rate_of r =
     (case er_cache_write_policy r of
        CacheUnavailable \<Rightarrow> None
      | FiveMinutesOnly \<Rightarrow> rate_of (er_cache_write5m r)
      | OneHourOnly \<Rightarrow> rate_of (er_cache_write1h r)
      | Both \<Rightarrow> Some (max (the (rate_of (er_cache_write5m r))) (the (rate_of (er_cache_write1h r)))))"

text \<open>The categories of a request with their rates, in the order they are added.\<close>

definition categories :: "execution_rates \<Rightarrow> value_tokens \<Rightarrow> (int \<times> int option) list" where
  "categories r t =
     [(fresh_input t, rate_of (er_input r)), (output_tokens t, rate_of (er_output r)),
      (cache_read t, rate_of (er_cache_read r)), (cache_write5m t, rate_of (er_cache_write5m r)),
      (cache_write1h t, rate_of (er_cache_write1h r)), (cache_write_unknown t, unknown_rate_of r)]"

definition rates_present :: "(int \<times> int option) list \<Rightarrow> bool" where
  "rates_present cs \<longleftrightarrow> (\<forall>(count, v) \<in> set cs. count \<noteq> 0 \<longrightarrow> v \<noteq> None)"

definition total_cost :: "(int \<times> int option) list \<Rightarrow> int" where
  "total_cost cs = (\<Sum>(count, v) \<leftarrow> cs. cost count v)"

fun add_counts :: "(int \<times> int option) list \<Rightarrow> int \<Rightarrow> int priced" where
  "add_counts [] acc = Inr acc"
| "add_counts ((count, v) # cs) acc = and_then (add_count count v acc) (add_counts cs)"

lemma validate_rates_rate:
  assumes "validate_rates r = Inr ()"
  shows "rate (er_input r) = Inr (rate_of (er_input r))" "rate (er_output r) = Inr (rate_of (er_output r))"
    "rate (er_cache_read r) = Inr (rate_of (er_cache_read r))"
    "rate (er_cache_write5m r) = Inr (rate_of (er_cache_write5m r))"
    "rate (er_cache_write1h r) = Inr (rate_of (er_cache_write1h r))"
  using assms by (auto simp: validate_rates_def rate_of_def)

lemma rate_of_Some: "rate (Some s) = Inr v \<Longrightarrow> v \<noteq> None"
  by (auto simp: rate_Inr)

lemma validate_rates_both:
  assumes "validate_rates r = Inr ()" "er_cache_write_policy r = Both"
  obtains w5 w1 where "rate_of (er_cache_write5m r) = Some w5" "rate_of (er_cache_write1h r) = Some w1"
proof -
  from assms obtain a b where ab: "er_cache_write5m r = Some a" "er_cache_write1h r = Some b"
    by (auto simp: validate_rates_def Let_def split: if_splits)
  note v = validate_rates_rate(4,5) [OF assms(1), unfolded ab]
  from rate_of_Some [OF v(1)] rate_of_Some [OF v(2)] that show ?thesis by (auto simp: ab)
qed

lemma validate_rates_unknown:
  assumes "validate_rates r = Inr ()"
  shows "unknown_rate r = Inr (unknown_rate_of r)"
proof (cases "er_cache_write_policy r")
  case Both
  with assms obtain w5 w1 where "rate_of (er_cache_write5m r) = Some w5" "rate_of (er_cache_write1h r) = Some w1"
    by (rule validate_rates_both)
  with Both validate_rates_rate(4,5) [OF assms] show ?thesis
    by (simp add: unknown_rate_def unknown_rate_of_def and_then_def ok_or_def)
qed (use validate_rates_rate [OF assms] in \<open>simp_all add: unknown_rate_def unknown_rate_of_def\<close>)

lemma price_rates_eq:
  assumes "validate_rates r = Inr ()"
  shows "price_rates r t = and_then (add_counts (categories r t) 0) (\<lambda>a.
    Inr \<lparr>usage_picos = a, conservative_cache_ttl = (cache_write_unknown t > 0 \<and> er_cache_write_policy r = Both)\<rparr>)"
  unfolding price_rates_def categories_def assms validate_rates_rate [OF assms] validate_rates_unknown [OF assms]
  by (simp add: and_then_def split: sum.splits)

lemma price_rates_validates: "price_rates r t = Inr p \<Longrightarrow> validate_rates r = Inr ()"
  by (auto simp: price_rates_def)

lemma rate_of_nonneg: "rate_of raw = Some v \<Longrightarrow> 0 \<le> v"
  using rate_bounds by (auto simp: rate_of_def split: sum.splits)

lemma unknown_rate_nonneg:
  assumes "validate_rates r = Inr ()" "unknown_rate_of r = Some v"
  shows "0 \<le> v"
proof (cases "er_cache_write_policy r")
  case Both
  with assms(1) obtain w5 w1 where "rate_of (er_cache_write5m r) = Some w5" "rate_of (er_cache_write1h r) = Some w1"
    by (rule validate_rates_both)
  with Both assms(2) show ?thesis using rate_of_nonneg by (fastforce simp: unknown_rate_of_def)
qed (use assms(2) rate_of_nonneg in \<open>auto simp: unknown_rate_of_def\<close>)

definition nonneg_categories :: "(int \<times> int option) list \<Rightarrow> bool" where
  "nonneg_categories cs \<longleftrightarrow> (\<forall>(count, v) \<in> set cs. 0 \<le> count \<and> (\<forall>x. v = Some x \<longrightarrow> 0 \<le> x))"

lemma cost_nonneg: "0 \<le> count \<Longrightarrow> \<forall>x. v = Some x \<longrightarrow> 0 \<le> x \<Longrightarrow> count \<noteq> 0 \<longrightarrow> v \<noteq> None \<Longrightarrow> 0 \<le> cost count v"
  by (auto simp: cost_def)

lemma total_cost_nonneg: "nonneg_categories cs \<Longrightarrow> rates_present cs \<Longrightarrow> 0 \<le> total_cost cs"
  by (induction cs) (auto simp: total_cost_def nonneg_categories_def rates_present_def intro!: add_nonneg_nonneg cost_nonneg)

lemma add_counts_Inr:
  assumes "nonneg_categories cs" "0 \<le> acc" "acc \<le> i128_max"
  shows "add_counts cs acc = Inr x \<longleftrightarrow>
    rates_present cs \<and> x = acc + total_cost cs \<and> acc + total_cost cs \<le> i128_max"
  using assms
proof (induction cs arbitrary: acc)
  case Nil
  then show ?case by (auto simp: rates_present_def total_cost_def)
next
  case (Cons c cs)
  obtain count v where c: "c = (count, v)" by force
  have nn: "nonneg_categories cs" "0 \<le> count" "\<forall>x. v = Some x \<longrightarrow> 0 \<le> x"
    using Cons.prems(1) by (auto simp: nonneg_categories_def c)
  have split: "rates_present (c # cs) \<longleftrightarrow> (count \<noteq> 0 \<longrightarrow> v \<noteq> None) \<and> rates_present cs"
    "total_cost (c # cs) = cost count v + total_cost cs"
    "add_counts (c # cs) acc = and_then (add_count count v acc) (add_counts cs)"
    by (auto simp: rates_present_def total_cost_def c)
  show ?case
  proof (cases "count \<noteq> 0 \<longrightarrow> v \<noteq> None")
    case True
    have k: "0 \<le> cost count v" using cost_nonneg nn True by blast
    have fits: "add_count count v acc = Inr y \<longleftrightarrow> y = acc + cost count v \<and> acc + cost count v \<le> i128_max" for y
      using True k Cons.prems(2,3)
      by (auto simp: add_count_Inr cost_def in_i128_def i128_min_def split: if_splits)
    show ?thesis
      using True k Cons.prems(2) Cons.IH [OF nn(1), of "acc + cost count v"] total_cost_nonneg [OF nn(1)]
      by (auto simp: split fits add.assoc)
  next
    case False
    then show ?thesis by (auto simp: split add_count_def)
  qed
qed

lemma categories_nonneg:
  assumes "validate_rates r = Inr ()" "\<forall>(count, v) \<in> set (categories r t). 0 \<le> count"
  shows "nonneg_categories (categories r t)"
  using assms rate_of_nonneg unknown_rate_nonneg [OF assms(1)]
  by (auto simp: nonneg_categories_def categories_def)

text \<open>The counts of a request are unsigned 64-bit numbers.\<close>

definition tokens_ok :: "value_tokens \<Rightarrow> bool" where
  "tokens_ok t \<longleftrightarrow> list_all (\<lambda>n. 0 \<le> n \<and> n \<le> u64_max)
     [fresh_input t, output_tokens t, cache_read t, cache_write5m t, cache_write1h t, cache_write_unknown t]"

lemma price_rates_Inr:
  assumes "tokens_ok t"
  shows "price_rates r t = Inr p \<longleftrightarrow>
    validate_rates r = Inr () \<and> rates_present (categories r t) \<and> total_cost (categories r t) \<le> i128_max
    \<and> p = \<lparr>usage_picos = total_cost (categories r t),
           conservative_cache_ttl = (cache_write_unknown t > 0 \<and> er_cache_write_policy r = Both)\<rparr>"
proof (cases "validate_rates r = Inr ()")
  case True
  have "nonneg_categories (categories r t)"
    using assms by (intro categories_nonneg [OF True]) (auto simp: tokens_ok_def categories_def)
  from add_counts_Inr [OF this, of 0] True show ?thesis
    by (auto simp: price_rates_eq i128_max_def)
next
  case False
  then show ?thesis using price_rates_validates by blast
qed

text \<open>
  C18. Pricing is exact and total: a request is priced exactly when its rate card is
  valid, every token category it uses has a rate and the sum fits an i128, and it then
  costs the sum of count times rate over the categories, without rounding; cache
  writes of unknown lifetime go at the dearer of the two rates when the model offers
  both, and the price is flagged as conservative exactly then.
\<close>

theorem price_is_exact:
  assumes "tokens_ok t"
  shows "price_rates r t = Inr p \<longleftrightarrow>
    validate_rates r = Inr () \<and> rates_present (categories r t) \<and> total_cost (categories r t) \<le> i128_max
    \<and> p = \<lparr>usage_picos = total_cost (categories r t),
           conservative_cache_ttl = (cache_write_unknown t > 0 \<and> er_cache_write_policy r = Both)\<rparr>"
  by (rule price_rates_Inr [OF assms])

definition sample_rates :: execution_rates where
  "sample_rates = \<lparr>er_input = Some ''3000000'', er_output = Some ''15000000'', er_cache_read = Some ''300000'',
     er_cache_write5m = Some ''3750000'', er_cache_write1h = Some ''6000000'', er_cache_write_policy = Both\<rparr>"

definition sample_tokens :: value_tokens where
  "sample_tokens = \<lparr>fresh_input = 1000, output_tokens = 200, cache_read = 5000,
     cache_write5m = 0, cache_write1h = 10, cache_write_unknown = 40\<rparr>"

theorem price_is_exact_witness:
  "tokens_ok sample_tokens
   \<and> price_rates sample_rates sample_tokens = Inr \<lparr>usage_picos = 7800000000, conservative_cache_ttl = True\<rparr>"
proof
  show t: "tokens_ok sample_tokens" by code_simp
  have "validate_rates sample_rates = Inr () \<and> rates_present (categories sample_rates sample_tokens)
    \<and> total_cost (categories sample_rates sample_tokens) = 7800000000"
    by code_simp
  with price_is_exact [OF t] show "price_rates sample_rates sample_tokens
      = Inr \<lparr>usage_picos = 7800000000, conservative_cache_ttl = True\<rparr>"
    by (simp add: i128_max_def sample_rates_def sample_tokens_def)
qed


section \<open>Unknown cache lifetimes are priced conservatively\<close>

definition resolve_unknown :: "int \<Rightarrow> value_tokens \<Rightarrow> value_tokens" where
  "resolve_unknown a t = t\<lparr>cache_write5m := cache_write5m t + a,
     cache_write1h := cache_write1h t + (cache_write_unknown t - a), cache_write_unknown := 0\<rparr>"

lemma cost_Some: "cost n (Some v) = n * v"
  by (simp add: cost_def)

lemma total_cost_categories:
  "total_cost (categories r t) =
     cost (fresh_input t) (rate_of (er_input r)) + cost (output_tokens t) (rate_of (er_output r))
     + cost (cache_read t) (rate_of (er_cache_read r)) + cost (cache_write5m t) (rate_of (er_cache_write5m r))
     + cost (cache_write1h t) (rate_of (er_cache_write1h r)) + cost (cache_write_unknown t) (unknown_rate_of r)"
  by (simp add: total_cost_def categories_def)

text \<open>
  When a model offers both cache lifetimes and the lifetime of some cache writes is
  not known, the charged price bounds the price of every way the unknown writes could
  have split between the two lifetimes, and every such split is itself priced.
\<close>

theorem unknown_ttl_conservative:
  assumes "tokens_ok t" "price_rates r t = Inr p" "er_cache_write_policy r = Both"
    and a: "0 \<le> a" "a \<le> cache_write_unknown t"
    and t': "tokens_ok (resolve_unknown a t)"
  shows "\<exists>p'. price_rates r (resolve_unknown a t) = Inr p'
    \<and> usage_picos p' \<le> usage_picos p \<and> \<not> conservative_cache_ttl p'"
proof -
  from assms(1,2) have val: "validate_rates r = Inr ()" and pres: "rates_present (categories r t)"
    and fit: "total_cost (categories r t) \<le> i128_max" and p: "usage_picos p = total_cost (categories r t)"
    by (auto simp: price_rates_Inr)
  from val assms(3) obtain w5 w1 where
    w: "rate_of (er_cache_write5m r) = Some w5" "rate_of (er_cache_write1h r) = Some w1"
    by (rule validate_rates_both)
  define u where "u = cache_write_unknown t"
  have "a * w5 + (u - a) * w1 \<le> a * max w5 w1 + (u - a) * max w5 w1"
    using a by (intro add_mono mult_left_mono) (auto simp: u_def)
  then have split: "a * w5 + (u - a) * w1 \<le> u * max w5 w1" by (simp add: algebra_simps)
  have le: "total_cost (categories r (resolve_unknown a t)) \<le> total_cost (categories r t)"
    using split w assms(3)
    by (simp add: total_cost_categories resolve_unknown_def cost_Some unknown_rate_of_def u_def algebra_simps)
  have "rates_present (categories r (resolve_unknown a t))"
    using pres w by (simp add: rates_present_def categories_def resolve_unknown_def)
  moreover have "cache_write_unknown (resolve_unknown a t) = 0" by (simp add: resolve_unknown_def)
  ultimately show ?thesis
    using le fit p val by (simp add: price_rates_Inr [OF t'])
qed

theorem unknown_ttl_conservative_witness:
  "\<exists>p'. price_rates sample_rates (resolve_unknown 15 sample_tokens) = Inr p' \<and> usage_picos p' \<le> 7800000000
     \<and> \<not> conservative_cache_ttl p'"
proof -
  have "price_rates sample_rates sample_tokens = Inr \<lparr>usage_picos = 7800000000, conservative_cache_ttl = True\<rparr>"
    by code_simp
  from unknown_ttl_conservative [OF _ this, of 15] show ?thesis
    by (simp add: tokens_ok_def sample_tokens_def sample_rates_def resolve_unknown_def u64_max_def)
qed


section \<open>Validated prices never lack a rate card\<close>

lemma validate_rate_entries_Inr:
  "validate_rate_entries threshold es = Inr () \<longleftrightarrow>
     (\<forall>(key, r) \<in> set es. key \<in> set rate_keys \<and> (ends_with ''/long'' key \<longrightarrow> threshold \<noteq> None)
        \<and> validate_rates r = Inr ())"
  by (induction threshold es rule: validate_rate_entries.induct) auto

text \<open>The rate card a request falls under.\<close>

definition long_request :: "execution_model_price \<Rightarrow> int \<Rightarrow> bool" where
  "long_request m context_input =
     (case long_context_threshold m of
        None \<Rightarrow> False
      | Some n \<Rightarrow> if long_context_inclusive m then context_input \<ge> n else context_input > n)"

text \<open>
  C29. A validated model that offers a tier has a valid rate card for every request in
  that tier, whichever side of the long-context threshold the request falls on: pricing
  never fails for want of a card, and the card is the base one below the threshold and
  the long one from it.
\<close>

theorem validated_tier_always_priced:
  assumes "validate_model m = Inr ()" "tier \<in> set tiers"
    and "\<exists>key \<in> fst ` set (model_rates m). starts_with (tier @ ''/'') key"
    and "context_basis m = RawInput \<longrightarrow> raw_input t = Inr n"
    and "context_basis m = FreshInput \<longrightarrow> n = fresh_input t"
  shows "\<exists>r. hm_get (model_rates m) (tier @ (if long_request m n then ''/long'' else ''/base'')) = Some r
    \<and> validate_rates r = Inr () \<and> price_model m tier t = price_rates r t"
proof -
  define key where "key = tier @ (if long_request m n then ''/long'' else ''/base'')"
  from assms(1-3) have sup: "supports_tier m tier"
    and entries: "validate_rate_entries (long_context_threshold m) (model_rates m) = Inr ()"
    by (auto simp: validate_model_def split: if_splits)
  from sup have "hm_contains (model_rates m) key"
    by (auto simp: supports_tier_def key_def long_request_def)
  then obtain r where r: "hm_get (model_rates m) key = Some r" by (auto simp: hm_contains_def)
  with entries have "validate_rates r = Inr ()"
    by (auto simp: validate_rate_entries_Inr dest: map_of_SomeD)
  moreover have "price_model m tier t = price_rates r t"
    using assms(2,4,5) r
    by (cases "context_basis m"; cases "long_request m n")
       (auto simp: price_model_def and_then_def ok_or_def key_def long_request_def Let_def)
  ultimately show ?thesis using r by (auto simp: key_def)
qed

definition sample_model :: execution_model_price where
  "sample_model = \<lparr>context_basis = RawInput, long_context_threshold = Some 200000, long_context_inclusive = False,
     model_rates = [(''standard/base'', sample_rates), (''standard/long'', sample_rates\<lparr>er_input := Some ''6000000''\<rparr>)]\<rparr>"

theorem validated_tier_always_priced_witness:
  "\<exists>r. price_model sample_model ''standard'' sample_tokens = price_rates r sample_tokens
     \<and> validate_rates r = Inr ()"
proof -
  have "validate_model sample_model = Inr ()" by code_simp
  moreover have "''standard'' \<in> set tiers" by code_simp
  moreover have "\<exists>key \<in> fst ` set (model_rates sample_model). starts_with (''standard'' @ ''/'') key" by code_simp
  moreover have "raw_input sample_tokens = Inr 6050" by code_simp
  ultimately show ?thesis
    using validated_tier_always_priced [of sample_model "''standard''" sample_tokens 6050]
    by (auto simp: sample_model_def)
qed


section \<open>Snapshots resolve their aliases\<close>

lemma validate_models_Inr:
  "validate_models ms = Inr () \<longleftrightarrow> (\<forall>(key, m) \<in> set ms. valid_model_key key \<and> validate_model m = Inr ())"
  by (induction ms rule: validate_models.induct) auto

lemma validate_fields_Inr:
  "validate_fields s = Inr () \<Longrightarrow>
     (\<forall>(key, m) \<in> set (models s). valid_model_key key \<and> validate_model m = Inr ())
     \<and> (\<forall>(alias, key) \<in> set (exact_aliases s). hm_contains (models s) key \<and> \<not> hm_contains (models s) alias)"
  by (auto simp: validate_fields_def validate_models_Inr split: if_splits)

lemma find_map_Some: "find_map f xs = Some y \<Longrightarrow> \<exists>x \<in> set xs. f x = Some y"
  by (induction xs) (auto split: option.splits)

text \<open>
  In a validated snapshot every alias names a priced model and hides none: a request
  for an alias gets its target's price and a request for a model key gets that model's
  own price, whatever other identities the name has; and whatever identity a name is
  resolved by, the price it gets is a validated one.
\<close>

theorem snapshot_resolution:
  assumes "validate_fields s = Inr ()"
  shows "(hm_get (exact_aliases s) name = Some key \<longrightarrow>
      (\<exists>m. model_price s candidates name = Inr m \<and> hm_get (models s) key = Some m))
    \<and> (hm_get (models s) name = Some m \<longrightarrow> model_price s candidates name = Inr m)
    \<and> (model_price s candidates name = Inr m' \<longrightarrow> validate_model m' = Inr ())"
proof (intro conjI impI)
  note v = validate_fields_Inr [OF assms]
  show "\<exists>m. model_price s candidates name = Inr m \<and> hm_get (models s) key = Some m"
    if "hm_get (exact_aliases s) name = Some key"
    using v that by (auto simp: model_price_def resolve_candidate_def ok_or_def hm_contains_def dest!: map_of_SomeD [of "exact_aliases s"])
  show "model_price s candidates name = Inr m" if "hm_get (models s) name = Some m"
  proof -
    have "hm_get (exact_aliases s) name = None"
      using v that by (cases "hm_get (exact_aliases s) name") (auto simp: hm_contains_def dest!: map_of_SomeD [of "exact_aliases s"])
    with that show ?thesis by (simp add: model_price_def resolve_candidate_def ok_or_def)
  qed
  show "validate_model m' = Inr ()" if "model_price s candidates name = Inr m'"
    using v that
    by (auto simp: model_price_def resolve_candidate_def simp del: find_map.simps dest!: find_map_Some map_of_SomeD)
qed

definition sample_snapshot :: pricing_snapshot where
  "sample_snapshot = \<lparr>schema_version = 1, tariff_policy_id = TARIFF_POLICY, currency = ''USD'',
     models = [(''m-1'', sample_model)], exact_aliases = [(''m'', ''m-1'')]\<rparr>"

theorem snapshot_resolution_witness:
  "\<exists>m. model_price sample_snapshot [] ''m'' = Inr m \<and> validate_model m = Inr ()"
proof -
  have "validate_model sample_model = Inr ()" "valid_model_key ''m-1''" "valid_model_key ''m''" by code_simp+
  then have v: "validate_fields sample_snapshot = Inr ()"
    by (simp add: validate_fields_def sample_snapshot_def MAX_MODELS_def hm_contains_def and_then_def)
  have a: "hm_get (exact_aliases sample_snapshot) ''m'' = Some ''m-1''" by code_simp
  note res = snapshot_resolution [OF v, of "''m''" "''m-1''" "[]"]
  from res a obtain m where "model_price sample_snapshot [] ''m'' = Inr m" by blast
  with res show ?thesis by blast
qed


section \<open>Wire maps\<close>

lemma bt_insert_map_of [simp]:
  "map_of (bt_insert key v m) = (map_of m)(key \<mapsto> v)"
  by (induction key v m rule: bt_insert.induct) (auto simp: fun_eq_iff)

lemma bt_insert_keys: "fst ` set (bt_insert key v m) = insert key (fst ` set m)"
  by (induction key v m rule: bt_insert.induct) auto

lemma bt_insert_sorted:
  "sorted_wrt (<) (map fst m) \<Longrightarrow> sorted_wrt (<) (map fst (bt_insert key v m))"
proof (induction key v m rule: bt_insert.induct)
  case (2 key v k w rest)
  then show ?case
    using bt_insert_keys [of key v rest] by (auto simp flip: image_set)
qed simp

lemma unique_map_Inr:
  assumes "sorted_wrt (<) (map fst m)"
  shows "unique_map es m = Inr m' \<Longrightarrow>
    distinct (map fst es) \<and> fst ` set es \<inter> fst ` set m = {} \<and> sorted_wrt (<) (map fst m')
    \<and> map_of m' = map_of m ++ map_of es"
  using assms
proof (induction es m rule: unique_map.induct)
  case (2 key v rest m)
  have new: "hm_get m key = None" and run: "unique_map rest (bt_insert key v m) = Inr m'"
    using 2(2) by (auto simp: hm_contains_def split: if_splits)
  with 2(1) [OF _ run bt_insert_sorted [OF 2(3)]]
  have ih: "distinct (map fst rest)" "fst ` set rest \<inter> insert key (fst ` set m) = {}"
    "sorted_wrt (<) (map fst m')" "map_of m' = (map_of m)(key \<mapsto> v) ++ map_of rest"
    by (auto simp: hm_contains_def bt_insert_keys fun_upd_def)
  then have "key \<notin> dom (map_of rest)" by (auto simp: dom_map_of_conv_image_fst)
  then have "map_of m' = map_of m ++ map_of ((key, v) # rest)"
    by (simp only: ih(4) map_of.simps fst_conv snd_conv map_add_upd) (rule map_add_upd_left)
  moreover have "distinct (map fst ((key, v) # rest))" "fst ` set ((key, v) # rest) \<inter> fst ` set m = {}"
    using ih(1,2) new by (auto simp: map_of_eq_None_iff)
  ultimately show ?case using ih(3) by blast
qed auto

lemma unique_map_distinct:
  "distinct (map fst es) \<Longrightarrow> fst ` set es \<inter> fst ` set m = {} \<Longrightarrow> \<exists>m'. unique_map es m = Inr m'"
proof (induction es m rule: unique_map.induct)
  case (2 key v rest m)
  then have "hm_get m key = None" by (auto simp: map_of_eq_None_iff)
  with 2 show ?case by (auto simp: hm_contains_def bt_insert_keys)
qed simp

lemma keyed_values: "distinct (map fst m) \<Longrightarrow> map (\<lambda>k. (k, the (map_of m k))) (map fst m) = m"
  unfolding map_map by (rule map_idI) (auto simp: map_of_is_SomeI)

lemma sorted_map_unique:
  fixes m m' :: "(string \<times> 'v) list"
  assumes "sorted_wrt (<) (map fst m)" "sorted_wrt (<) (map fst m')" "map_of m = map_of m'"
  shows "m = m'"
proof -
  have "set (map fst m) = set (map fst m')"
    using assms(3) by (metis dom_map_of_conv_image_fst image_set)
  with assms(1,2) have keys: "map fst m = map fst m'" by (simp add: strict_sorted_equal)
  have "distinct (map fst m)" "distinct (map fst m')" using assms(1,2) by (simp_all add: strict_sorted_iff)
  then show ?thesis using keyed_values [of m] keyed_values [of m'] keys assms(3) by simp
qed

text \<open>
  C30. Reading a wire map succeeds exactly when no key is repeated; the map read is then
  the one that holds every entry of the wire in strictly ascending key order.
\<close>

theorem unique_map_reads_all:
  "unique_map es [] = Inr m \<longleftrightarrow>
     distinct (map fst es) \<and> sorted_wrt (<) (map fst m) \<and> map_of m = map_of es"
proof
  show "distinct (map fst es) \<and> sorted_wrt (<) (map fst m) \<and> map_of m = map_of es"
    if "unique_map es [] = Inr m"
    using unique_map_Inr [of "[]" es m] that by simp
  assume r: "distinct (map fst es) \<and> sorted_wrt (<) (map fst m) \<and> map_of m = map_of es"
  then obtain m' where m': "unique_map es [] = Inr m'" using unique_map_distinct [of es "[]"] by auto
  with unique_map_Inr [of "[]" es m'] r have "m' = m" by (auto intro: sorted_map_unique)
  with m' show "unique_map es [] = Inr m" by simp
qed

end
