(* ===== verification/Notification_Kinds.thy ===== *)
theory Notification_Kinds
  imports Router_Prelude
begin

text \<open>
  The registry of operator notices (\<open>src/src/notification_kinds.rs\<close>): every kind with
  its level, flap window and wording, the lookups over it, and the templates its
  wording is filled from. The Chinese half of the wording is left out; how a single
  fact is rendered (\<open>fact_string\<close>, which formats floating-point numbers) is an
  argument of \<open>fill\<close>.
\<close>


section \<open>Levels\<close>

datatype notice_level = Record | Attention | Action

fun level_rank :: "notice_level \<Rightarrow> nat" where
  "level_rank Record = 0"
| "level_rank Attention = 1"
| "level_rank Action = 2"

fun level_as_str :: "notice_level \<Rightarrow> string" where
  "level_as_str Record = ''record''"
| "level_as_str Attention = ''attention''"
| "level_as_str Action = ''action''"

definition level_parse :: "string \<Rightarrow> notice_level" where
  "level_parse v =
     (let w = to_ascii_lowercase (trim v)
      in if w = ''record'' \<or> w = ''info'' then Record
         else if w = ''attention'' \<or> w = ''warning'' then Attention
         else Action)"

definition level_meets :: "notice_level \<Rightarrow> notice_level \<Rightarrow> bool" where
  "level_meets l minimum \<longleftrightarrow> level_rank minimum \<le> level_rank l"

fun severity_for_level :: "notice_level \<Rightarrow> string" where
  "severity_for_level Action = ''critical''"
| "severity_for_level Attention = ''warning''"
| "severity_for_level Record = ''info''"


section \<open>The registry\<close>

record notice_kind =
  n_kind :: string
  n_level :: notice_level
  n_flap_suppress_secs :: int
  n_title_en :: string
  n_summary_en :: string
  n_action_en :: "string option"

definition base ::
  "string \<Rightarrow> notice_level \<Rightarrow> int \<Rightarrow> string \<Rightarrow> string \<Rightarrow> string option \<Rightarrow> notice_kind"
where
  "base kind level flap title summary act =
     \<lparr>n_kind = kind, n_level = level, n_flap_suppress_secs = flap, n_title_en = title,
      n_summary_en = summary, n_action_en = act\<rparr>"

definition NO_FLAP :: int where
  "NO_FLAP = 0"

definition METRIC_FLAP_SECS :: int where
  "METRIC_FLAP_SECS = 15 * 60"

definition METRIC_KINDS :: "notice_kind list" where
  "METRIC_KINDS = [
    base ''fd_pressure'' Attention METRIC_FLAP_SECS
      ''Router file descriptor pressure''
      ''FD usage reached {fdUsagePercent}% of the process limit.''
      (Some ''Raise the nofile limit or restart the Router during a quiet window.''),
    base ''host_cpu_pressure'' Attention METRIC_FLAP_SECS
      ''Host CPU pressure''
      ''Host CPU usage reached {cpuPercent}%.''
      (Some ''Check for runaway processes; sustained load slows request proxying.''),
    base ''host_memory_pressure'' Attention METRIC_FLAP_SECS
      ''Host memory pressure''
      ''Host memory usage reached {memoryUsagePercent}%.''
      (Some ''Free memory or resize the host before the OOM killer picks a victim.''),
    base ''host_disk_pressure'' Attention METRIC_FLAP_SECS
      ''Host disk pressure''
      ''Primary disk usage reached {diskUsagePercent}%.''
      (Some ''Prune logs and old metrics; a full disk stops the business database.''),
    base ''route_lifecycle'' Action NO_FLAP
      ''SSH route lifecycle mismatch''
      ''The proxy route table and SSH forwarding state disagree ({mismatches} mismatches).''
      (Some ''Requests to affected Shares may be dropped; inspect recent tunnel churn.''),
    base ''route_failover'' Attention METRIC_FLAP_SECS
      ''Model route retry forwards''
      ''In approximately 10 minutes, {count} retry forwards started after failed attempts.''
      (Some ''Inspect upstream errors. This count does not prove that fallback succeeded.''),
    base ''db_error'' Record METRIC_FLAP_SECS
      ''Router database errors''
      ''{newErrors} new database errors (total {total}).''
      (Some ''Check server logs for the failing statement.''),
    base ''ssh_emfile'' Action METRIC_FLAP_SECS
      ''SSH listener file descriptor exhaustion''
      ''The SSH tunnel listener ran out of file descriptors ({total} accept failures).''
      (Some ''New Client tunnels cannot connect until FDs are freed.''),
    base ''ssh_bridge_write_stall'' Record METRIC_FLAP_SECS
      ''SSH bridge write progress stalled''
      ''{newStalls} bridge writes stalled (total {total}).''
      None,
    base ''ssh_channel_open_timeout'' Record METRIC_FLAP_SECS
      ''SSH forwarded channel open timed out''
      ''{newTimeouts} channel opens timed out (total {total}).''
      None,
    base ''ssh_channel_open_session_error'' Record METRIC_FLAP_SECS
      ''SSH session failed while opening a channel''
      ''{newErrors} terminal session errors (total {total}).''
      None,
    base ''ssh_forward_capacity'' Attention METRIC_FLAP_SECS
      ''SSH forwarding capacity exhausted''
      ''Forwarded connections were rejected at the limit ({total} rejections, {activeBridges} active bridges).''
      (Some ''Raise the forwarding limit or shed stale tunnels.''),
    base ''share_request_watchdog_release'' Record METRIC_FLAP_SECS
      ''Share request leases were force-released''
      ''{newReleases} requests exceeded their lifecycle deadline (total {total}).''
      None,
    base ''proxy_downstream_stall'' Record METRIC_FLAP_SECS
      ''Proxy downstream delivery stalled''
      ''{newTimeouts} clients stopped consuming responses (total {total}).''
      None,
    base ''llm_error_rate'' Attention METRIC_FLAP_SECS
      ''LLM request error rate''
      ''Error rate reached {errorRate} at {rpm} requests/min.''
      (Some ''Inspect upstream provider health and recent Share runtime reports.''),
    base ''llm_rate_limit'' Record METRIC_FLAP_SECS
      ''LLM rate limiting''
      ''Rate limits hit {rateLimitPerMinute} per minute.''
      None,
    base ''client_metrics_unavailable'' Record METRIC_FLAP_SECS
      ''Client status metrics unavailable''
      ''Router could not read the Client presence state.''
      None]"

definition CLOCK_KINDS :: "notice_kind list" where
  "CLOCK_KINDS = [
    base ''router_clock_skew'' Action METRIC_FLAP_SECS
      ''Router clock drift''
      ''Router clock is {direction} by {offsetSeconds}s.''
      (Some ''Fix the host clock; signatures and payment verification depend on it.''),
    base ''router_clock_assurance_lost'' Attention METRIC_FLAP_SECS
      ''Router clock assurance unavailable''
      ''Only {validSources} of {totalSources} time sources answer.''
      (Some ''Check outbound NTP/HTTPS reachability from the host.''),
    base ''router_ntp_unsynchronized'' Record METRIC_FLAP_SECS
      ''Router NTP is not synchronized''
      ''External time is aligned, but the primary NTP guard is unavailable.''
      None]"

definition PRESENCE_KINDS :: "notice_kind list" where
  "PRESENCE_KINDS = [
    base ''client_offline'' Attention (5 * 60)
      ''Client offline''
      ''Client {clientLabel} is confirmed offline.''
      (Some ''Check the host and restart cc-switch-server if needed.''),
    base ''client_recovered'' Record NO_FLAP
      ''Client recovered''
      ''Client {clientLabel} is back online.''
      None,
    base ''client_removed'' Record NO_FLAP
      ''Client monitoring ended''
      ''Monitoring for {clientLabel} has ended.''
      None]"

definition FINANCE_KINDS :: "notice_kind list" where
  "FINANCE_KINDS = [
    base ''market_share_termination_finance_pending'' Attention NO_FLAP
      ''Share revoked; financial settlement requires review''
      ''{summary}''
      (Some ''Open the finance desk and settle the terminated rental.''),
    base ''market_finance_critical_case'' Action NO_FLAP
      ''Market finance reconciliation required''
      ''{summary}''
      (Some ''Review the open reconciliation case before further payouts.''),
    base ''market_finance_audit_mismatch'' Action NO_FLAP
      ''Market finance audit found mismatches''
      ''{summary}''
      (Some ''Reconcile the journal before the next settlement run.''),
    base ''market_payment_secret_unreadable'' Action NO_FLAP
      ''Payment channel secret cannot be decrypted''
      ''{summary}''
      (Some ''Re-enter the channel credentials; top-ups are blocked until then.''),
    base ''market_payment_channel_auth_failed'' Action NO_FLAP
      ''Payment channel credentials rejected''
      ''{summary}''
      (Some ''Rotate the channel credentials in payment settings.''),
    base ''market_topup_reconcile_failing'' Attention NO_FLAP
      ''Top-up reconciliation keeps failing''
      ''{summary}''
      (Some ''Check gateway reachability and recent top-up orders.''),
    base ''market_topup_review_stale'' Attention NO_FLAP
      ''Top-ups need owner review''
      ''{summary}''
      (Some ''Buyers are waiting; review the pending top-ups.''),
    base ''market_gateway_identity_conflict'' Attention NO_FLAP
      ''Payment gateway identity conflict''
      ''{summary}''
      (Some ''Verify the merchant account bound to this Router.''),
    base ''market_gateway_orphan_paid_order'' Attention NO_FLAP
      ''Paid gateway order without Router top-up''
      ''{summary}''
      (Some ''Credit or refund the orphan order from the finance desk.''),
    base ''market_gateway_external_refund'' Attention NO_FLAP
      ''Merchant recorded a gateway refund''
      ''{summary}''
      (Some ''Confirm the refund matches a Router reversal.''),
    base ''market_duplicate_external_reference'' Action NO_FLAP
      ''Duplicate external transfer reference''
      ''{summary}''
      (Some ''Possible double-credit; freeze the affected wallet entries.'')]"

definition DISPUTE_KINDS :: "notice_kind list" where
  "DISPUTE_KINDS = [
    base ''market_channel_promoted_live'' Record NO_FLAP
      ''Payment channel promoted to live''
      ''{summary}''
      None,
    base ''market_refund_requested'' Record NO_FLAP
      ''Buyer balance refund requested''
      ''{summary}''
      (Some ''Review the refund request in the finance desk.''),
    base ''market_dispute_opened'' Record NO_FLAP
      ''Service dispute opened''
      ''{summary}''
      (Some ''Respond before the dispute deadline.''),
    base ''market_c2c_dispute'' Attention NO_FLAP
      ''C2C balance trade needs evidence review''
      ''{summary}''
      (Some ''Review both parties' evidence and rule on the order.''),
    base ''market_client_compensation_dispute'' Attention NO_FLAP
      ''Client termination compensation needs review''
      ''{summary}''
      (Some ''Decide the compensation claim before it goes overdue.''),
    base ''market_client_compensation_dispute_overdue'' Attention NO_FLAP
      ''Client termination compensation decision is overdue''
      ''{summary}''
      (Some ''Rule now; the renter's funds are frozen while undecided.''),
    base ''market_client_cleanup_finalization_failed'' Attention NO_FLAP
      ''Client is clean but financial finalization needs review''
      ''{summary}''
      (Some ''Re-run finalization from the client market console.''),
    base ''market_earning_hold_legacy'' Attention NO_FLAP
      ''Earnings hold needs review''
      ''{summary}''
      (Some ''Release or escalate the held earning lot.''),
    base ''market_earning_unlock_failed'' Attention NO_FLAP
      ''Provider earning lot failed to unlock''
      ''{summary}''
      (Some ''Retry the unlock; the Provider cannot spend these funds.''),
    base ''market_service_notice_circuit'' Attention NO_FLAP
      ''Service notification safety policy activated''
      ''{summary}''
      (Some ''Outbound user notifications are paused; check the diagnostics panel.'')]"

definition SHARE_KINDS :: "notice_kind list" where
  "SHARE_KINDS = [
    base ''share_control_dead_letter'' Action NO_FLAP
      ''Share control operation exhausted retries''
      ''Share {shareId} control operation failed repeatedly and was parked.''
      (Some ''Inspect the dead letter queue; renters may keep stale access until resolved.''),
    base ''share_grant_contract_violation'' Action NO_FLAP
      ''Share grant violated the rental contract''
      ''Share {shareId} applied an invalid entitlement; automatic revocation was queued.''
      (Some ''Review the Server's share descriptor sync for tampering or bugs.'')]"

definition KINDS :: "notice_kind list" where
  "KINDS = METRIC_KINDS @ CLOCK_KINDS @ PRESENCE_KINDS @ FINANCE_KINDS @ DISPUTE_KINDS @ SHARE_KINDS"

definition describe :: "string \<Rightarrow> notice_kind option" where
  "describe kind =
     (case find (\<lambda>e. n_kind e = kind) KINDS of
        Some e \<Rightarrow> Some e
      | None \<Rightarrow> find (\<lambda>e. strip_prefix ''market_'' (n_kind e) = Some kind) KINDS)"

definition level_for :: "string \<Rightarrow> notice_level" where
  "level_for kind = (case describe kind of Some e \<Rightarrow> n_level e | None \<Rightarrow> Record)"

definition flap_suppress_secs_for :: "string \<Rightarrow> int" where
  "flap_suppress_secs_for kind = (case describe kind of Some e \<Rightarrow> n_flap_suppress_secs e | None \<Rightarrow> NO_FLAP)"


section \<open>Templates\<close>













definition kind_names :: "string list" where
  "kind_names = map n_kind KINDS"

lemma kind_names_distinct: "distinct kind_names"
  by code_simp

lemma kind_names_bare: "list_all (\<lambda>s. starts_with ''market_'' s \<longrightarrow> drop 7 s \<notin> set kind_names) kind_names"
  by code_simp

text \<open>
  Every kind is registered exactly once and found under its own name; a market kind
  is also found under its bare name, so both spellings of a signal give the same
  level and wording.
\<close>

theorem registry_lookup:
  "distinct (map n_kind KINDS)
   \<and> (e \<in> set KINDS \<longrightarrow> describe (n_kind e) = Some e
        \<and> (strip_prefix ''market_'' (n_kind e) = Some k \<longrightarrow> describe k = Some e))"
proof (intro conjI impI)
  show d: "distinct (map n_kind KINDS)" using kind_names_distinct by (simp only: kind_names_def)
  assume e: "e \<in> set KINDS"
  show "describe (n_kind e) = Some e"
    unfolding describe_def by (simp add: find_keyed [OF d e])
  assume k: "strip_prefix ''market_'' (n_kind e) = Some k"
  then have ke: "n_kind e = ''market_'' @ k" by (simp only: strip_prefix_Some)
  then have "k \<notin> set (map n_kind KINDS)"
    using kind_names_bare e by (auto simp: list_all_iff kind_names_def starts_with_def)
  then have "find (\<lambda>e. n_kind e = k) KINDS = None" by (auto simp: find_None_iff)
  moreover have "find (\<lambda>e. strip_prefix ''market_'' (n_kind e) = Some k) KINDS = Some e"
    using ke by (intro find_keyed [OF d e]) (simp_all only: strip_prefix_Some)
  ultimately show "describe k = Some e" by (simp add: describe_def)
qed

theorem registry_lookup_witness:
  "describe ''db_error'' = Some (KINDS ! 6)"
proof -
  have "KINDS ! 6 \<in> set KINDS" "n_kind (KINDS ! 6) = ''db_error''" by code_simp+
  with registry_lookup [of "KINDS ! 6"] show ?thesis by simp
qed

end
