(* ===== verification/Market_Outbox.thy ===== *)
theory Market_Outbox
  imports Wallet_Journal Notification_Kinds
begin

text \<open>
  The transactional outboxes of the market: notices to buyers and Providers
  (\<open>src/src/market_notifications.rs\<close>, \<open>enqueue_user_notification_tx\<close>) and alerts to the
  Owner (\<open>owner_signal_tx\<close>, written by \<open>enqueue_operator_alert_signal_tx\<close> of
  \<open>src/src/store.rs\<close>). They are rows written in the same transaction as the money event;
  the workers that deliver them are not modelled. Payloads are JSON values, and the
  Chinese subjects are left out.
\<close>


section \<open>Time\<close>

text \<open>
  The date functions of the \<open>chrono\<close> crate and of SQLite are parameters: reading and
  printing an RFC 3339 timestamp (an instant is a number of nanoseconds), SQLite's
  \<open>julianday\<close> (a number of milliseconds, none for text it cannot read), the instants a
  \<open>DateTime\<close> can hold and the clock.
\<close>

record time_lib =
  parse_rfc3339 :: "string \<Rightarrow> int option"
  to_rfc3339 :: "int \<Rightarrow> string"
  julianday :: "string \<Rightarrow> int option"
  utc_range :: "int \<Rightarrow> bool"
  utc_now :: int

definition days :: "int \<Rightarrow> int" where
  "days n = n * 86400000000000"


section \<open>Notices to users\<close>

record notification_kind =
  mk_kind :: string
  mk_mandatory :: bool
  mk_subject_en :: string

definition MARKET_NOTICES :: "notification_kind list" where
  "MARKET_NOTICES = [
    \<lparr>mk_kind = ''share_termination_updated'', mk_mandatory = True, mk_subject_en = ''Share rental termination updated''\<rparr>,
    \<lparr>mk_kind = ''client_termination_claim'', mk_mandatory = True, mk_subject_en = ''Client termination compensation claim''\<rparr>,
    \<lparr>mk_kind = ''client_termination_settled'', mk_mandatory = True, mk_subject_en = ''Client rental termination settlement''\<rparr>,
    \<lparr>mk_kind = ''c2c_order_updated'', mk_mandatory = True, mk_subject_en = ''C2C order updated''\<rparr>,
    \<lparr>mk_kind = ''c2c_seller_changed'', mk_mandatory = True, mk_subject_en = ''C2C seller settings updated''\<rparr>,
    \<lparr>mk_kind = ''earnings_converted'', mk_mandatory = True, mk_subject_en = ''Earnings moved to your wallet''\<rparr>,
    \<lparr>mk_kind = ''commission_policy_changed'', mk_mandatory = True, mk_subject_en = ''Provider service fee updated''\<rparr>,
    \<lparr>mk_kind = ''wallet_transfer_sent'', mk_mandatory = True, mk_subject_en = ''Balance sent''\<rparr>,
    \<lparr>mk_kind = ''wallet_transfer_received'', mk_mandatory = True, mk_subject_en = ''Balance received''\<rparr>,
    \<lparr>mk_kind = ''topup_credited'', mk_mandatory = True, mk_subject_en = ''Top-up credited''\<rparr>,
    \<lparr>mk_kind = ''topup_closed_unpaid'', mk_mandatory = False, mk_subject_en = ''Top-up closed without payment''\<rparr>,
    \<lparr>mk_kind = ''topup_review_required'', mk_mandatory = True, mk_subject_en = ''Top-up needs review''\<rparr>,
    \<lparr>mk_kind = ''topup_reversed'', mk_mandatory = True, mk_subject_en = ''Top-up reversed''\<rparr>,
    \<lparr>mk_kind = ''wallet_low_runway'', mk_mandatory = False, mk_subject_en = ''Wallet balance is running low''\<rparr>,
    \<lparr>mk_kind = ''renewal_upcoming_shortfall'', mk_mandatory = False, mk_subject_en = ''Upcoming renewal needs funds''\<rparr>,
    \<lparr>mk_kind = ''contract_suspended'', mk_mandatory = True, mk_subject_en = ''Service suspended''\<rparr>,
    \<lparr>mk_kind = ''service_status_summary'', mk_mandatory = True, mk_subject_en = ''Service status summary''\<rparr>,
    \<lparr>mk_kind = ''contract_resumed'', mk_mandatory = True, mk_subject_en = ''Service resumed''\<rparr>,
    \<lparr>mk_kind = ''contract_terminating_soon'', mk_mandatory = True, mk_subject_en = ''Suspended service will end soon''\<rparr>,
    \<lparr>mk_kind = ''contract_terminated'', mk_mandatory = True, mk_subject_en = ''Service ended''\<rparr>,
    \<lparr>mk_kind = ''dispute_resolved'', mk_mandatory = True, mk_subject_en = ''Service dispute resolved''\<rparr>,
    \<lparr>mk_kind = ''earnings_held'', mk_mandatory = True, mk_subject_en = ''Earnings placed on hold''\<rparr>,
    \<lparr>mk_kind = ''earnings_released'', mk_mandatory = True, mk_subject_en = ''Earnings released''\<rparr>]"

definition market_kind :: "string \<Rightarrow> notification_kind option" where
  "market_kind k = find (\<lambda>e. mk_kind e = k) MARKET_NOTICES"

record notice_row =
  no_id :: string
  no_audience :: string
  no_recipient :: string
  no_event_kind :: string
  no_object_kind :: string
  no_object_id :: string
  no_dedupe_key :: string
  no_payload :: json
  no_mandatory :: bool
  no_status :: string
  no_next_attempt_at :: string
  no_created_at :: string

record signal_row =
  sg_source_event_id :: string
  sg_fingerprint :: string
  sg_transition :: string
  sg_kind :: string
  sg_entity_kind :: string
  sg_entity_id :: "string option"
  sg_severity :: string
  sg_title :: string
  sg_message :: string
  sg_details :: json
  sg_status :: string
  sg_attempts :: int
  sg_next_attempt_at :: string
  sg_occurred_at :: string
  sg_created_at :: string
  sg_updated_at :: string

record notice_db = wallet_db +
  notification_outbox :: "notice_row list"
  operator_outbox :: "signal_row list"

text \<open>INSERT OR IGNORE: a row that breaks a primary key, UNIQUE or CHECK clause is dropped.\<close>

definition insert_notice_tx :: "notice_row \<Rightarrow> ('a notice_db_scheme, unit) tx" where
  "insert_notice_tx n s =
     (if no_id n \<in> no_id ` set (notification_outbox s)
         \<or> no_dedupe_key n \<in> no_dedupe_key ` set (notification_outbox s)
         \<or> no_audience n \<notin> {''buyer'', ''provider''}
      then Inr ((), s)
      else Inr ((), s\<lparr>notification_outbox := notification_outbox s @ [n]\<rparr>))"

definition enqueue_user_notification_tx ::
  "string \<Rightarrow> string \<Rightarrow> string \<Rightarrow> string \<Rightarrow> string \<Rightarrow> string \<Rightarrow> json \<Rightarrow> string
     \<Rightarrow> ('a notice_db_scheme, unit) tx"
where
  "enqueue_user_notification_tx audience recipient_user_id event_kind object_kind object_id dedupe_key payload time =
     (case market_kind event_kind of
        None \<Rightarrow> fail_tx (Internal (''unknown market notification kind '' @ event_kind))
      | Some entry \<Rightarrow>
         if audience \<notin> {''buyer'', ''provider''} \<or> recipient_user_id = []
         then fail_tx (Internal ''invalid market notification recipient'')
         else bind_tx new_v4 (\<lambda>nid.
           insert_notice_tx \<lparr>no_id = nid, no_audience = audience, no_recipient = recipient_user_id,
             no_event_kind = event_kind, no_object_kind = object_kind, no_object_id = object_id,
             no_dedupe_key = dedupe_key, no_payload = payload, no_mandatory = mk_mandatory entry,
             no_status = ''queued'', no_next_attempt_at = time, no_created_at = time\<rparr>))"


section \<open>Alerts to the Owner\<close>

record owner_signal =
  os_severity :: string
  os_title :: string

definition owner_signal_of :: "string \<Rightarrow> owner_signal" where
  "owner_signal_of kind =
     (let registered = describe (''market_'' @ kind)
      in \<lparr>os_severity = severity_for_level (case registered of None \<Rightarrow> Record | Some e \<Rightarrow> n_level e),
          os_title = (case registered of None \<Rightarrow> ''Marketplace finance notice'' | Some e \<Rightarrow> n_title_en e)\<rparr>)"

definition enqueue_operator_alert_signal_tx ::
  "time_lib \<Rightarrow> string \<Rightarrow> string \<Rightarrow> string \<Rightarrow> string \<Rightarrow> string \<Rightarrow> string option \<Rightarrow> string \<Rightarrow> string \<Rightarrow> string
     \<Rightarrow> json \<Rightarrow> int \<Rightarrow> ('a notice_db_scheme, unit) tx"
where
  "enqueue_operator_alert_signal_tx T source_event_id fingerprint transition kind entity_kind entity_id severity
       title message details occurred_at s =
     (let timestamp = to_rfc3339 T occurred_at
      in if source_event_id \<in> sg_source_event_id ` set (operator_outbox s)
            \<or> transition \<notin> {''firing'', ''resolved''} \<or> severity \<notin> {''info'', ''warning'', ''critical''}
         then Inr ((), s)
         else Inr ((), s\<lparr>operator_outbox := operator_outbox s @
           [\<lparr>sg_source_event_id = source_event_id, sg_fingerprint = fingerprint, sg_transition = transition,
             sg_kind = kind, sg_entity_kind = entity_kind, sg_entity_id = entity_id, sg_severity = severity,
             sg_title = title, sg_message = message, sg_details = details, sg_status = ''pending'',
             sg_attempts = 0, sg_next_attempt_at = timestamp, sg_occurred_at = timestamp,
             sg_created_at = timestamp, sg_updated_at = timestamp\<rparr>]\<rparr>))"

fun json_get :: "string \<Rightarrow> json \<Rightarrow> json option" where
  "json_get k (JObject obj) = map_of obj k"
| "json_get k _ = None"

fun as_str :: "json \<Rightarrow> string option" where
  "as_str (JString s) = Some s"
| "as_str _ = None"

definition owner_signal_tx ::
  "time_lib \<Rightarrow> string \<Rightarrow> string \<Rightarrow> string \<Rightarrow> json \<Rightarrow> string \<Rightarrow> bool \<Rightarrow> ('a notice_db_scheme, unit) tx"
where
  "owner_signal_tx T kind entity_kind entity_id details time resolved =
     (let signal = owner_signal_of kind;
          occurred_at = (case parse_rfc3339 T time of Some at \<Rightarrow> at | None \<Rightarrow> utc_now T);
          fingerprint = ''market:'' @ kind @ '':'' @ entity_kind @ '':'' @ entity_id;
          message = (case Option.bind (json_get ''summary'' details) as_str of
              Some summary \<Rightarrow> summary
            | None \<Rightarrow> os_title signal @ '' ('' @ entity_kind @ '' '' @ entity_id @ '')'')
      in bind_tx new_v4 (\<lambda>eid.
           enqueue_operator_alert_signal_tx T eid fingerprint (if resolved then ''resolved'' else ''firing'')
             (''market_'' @ kind) entity_kind (Some entity_id) (os_severity signal) (os_title signal) message
             details occurred_at))"


section \<open>The outboxes stand apart from the money\<close>

text \<open>
  Whatever is queued, the tables of the wallet are untouched but for the identifiers
  drawn, and the operation fails only for an unknown kind or recipient.
\<close>

definition queued_only :: "'a notice_db_scheme \<Rightarrow> 'a notice_db_scheme \<Rightarrow> bool" where
  "queued_only s t \<longleftrightarrow>
     t = s\<lparr>uuid_drawn := uuid_drawn t, notification_outbox := notification_outbox t,
           operator_outbox := operator_outbox t\<rparr>"

interpretation queued: tx_preorder queued_only
proof unfold_locales
  fix s t u :: "'a notice_db_scheme"
  show "queued_only s s" by (simp add: queued_only_def)
  assume "queued_only s t" "queued_only t u"
  then show "queued_only s u"
    by (cases s; cases t; cases u) (simp add: queued_only_def)
qed

lemma enqueue_user_notification_queued:
  "within queued_only (enqueue_user_notification_tx a r e ok oid d p time)"
  by (rule withinI)
    (auto simp: queued_only_def enqueue_user_notification_tx_def tx_simps insert_notice_tx_def
      split: option.splits if_splits)

lemma owner_signal_queued: "within queued_only (owner_signal_tx T k ek eid d time r)"
  by (rule withinI)
    (auto simp: queued_only_def owner_signal_tx_def tx_simps enqueue_operator_alert_signal_tx_def Let_def
      split: if_splits)

lemma owner_signal_tx_total: "\<exists>t. owner_signal_tx T k ek eid d time r s = Inr ((), t) \<and> queued_only s t"
proof -
  have "\<exists>t. owner_signal_tx T k ek eid d time r s = Inr ((), t)"
    by (auto simp: owner_signal_tx_def enqueue_operator_alert_signal_tx_def Let_def bind_tx_def new_v4_def)
  with owner_signal_queued show ?thesis by (metis withinD)
qed

lemma enqueue_user_notification_total:
  assumes "market_kind e \<noteq> None" "a \<in> {''buyer'', ''provider''}" "r \<noteq> []"
  shows "\<exists>t. enqueue_user_notification_tx a r e ok oid d p time s = Inr ((), t) \<and> queued_only s t"
proof -
  have "\<exists>t. enqueue_user_notification_tx a r e ok oid d p time s = Inr ((), t)"
    using assms by (auto simp: enqueue_user_notification_tx_def insert_notice_tx_def bind_tx_def new_v4_def
        split: option.splits)
  with enqueue_user_notification_queued show ?thesis by (metis withinD)
qed

end
