(* ===== verification/Earning_Tables.thy ===== *)
theory Earning_Tables
  imports Market_Outbox "HOL-Library.Char_ord" "HOL-Library.List_Lexorder"
begin

text \<open>
  The tables behind Provider earnings and service commissions
  (\<open>src/schema/0053\<close>, \<open>0054\<close>, \<open>0060\<close>, \<open>0072\<close>, \<open>0076\<close>, \<open>0077\<close>, \<open>0095\<close> and \<open>0107\<close>), one
  record per table, and the statements on them. A statement that breaks a CHECK, a
  UNIQUE key or a trigger fails; foreign keys are not enforced by the service.
\<close>


section \<open>Rows\<close>

record policy_row =
  cp_version :: int
  cp_rate_bps :: int
  cp_effective_at :: string
  cp_actor :: string
  cp_created_at :: string

record cancellation_row =
  cc_policy_version :: int
  cc_replaced_by :: int
  cc_created_at :: string

record quote_terms_row =
  qt_quote :: string
  qt_provider :: string
  qt_policy_version :: int
  qt_rate_bps :: int
  qt_created_at :: string

record contract_terms_row =
  kt_contract :: string
  kt_quote :: string
  kt_policy_version :: int
  kt_rate_bps :: int
  kt_created_at :: string

record commission_period_row =
  pe_id :: string
  pe_contract :: string
  pe_source_kind :: string
  pe_source_id :: string
  pe_policy_version :: int
  pe_rate_bps :: int
  pe_anchor_at :: string
  pe_created_at :: string

record split_row =
  sp_lot :: string
  sp_period :: string
  sp_gross_before :: int
  sp_gross_after :: int
  sp_fee_before :: int
  sp_fee_after :: int
  sp_journal :: "string option"
  sp_created_at :: string

record refund_row =
  rf_dispute :: string
  rf_lot :: string
  rf_gross :: int
  rf_net :: int
  rf_fee :: int
  rf_created_at :: string

record contract_row =
  pc_id :: string
  pc_buyer :: string
  pc_provider :: string
  pc_status :: string
  pc_budget_hold :: "string option"

record service_period_row =
  sv_id :: string
  sv_contract :: string
  sv_period_start :: string
  sv_debit_journal :: string
  sv_debited_at :: string

record slice_row =
  ds_id :: string
  ds_contract_kind :: string
  ds_contract :: string
  ds_source_kind :: string
  ds_source_id :: string
  ds_period :: "string option"
  ds_started_at :: string
  ds_ended_at :: string
  ds_amount :: int
  ds_debit_journal :: string
  ds_earning_journal :: string
  ds_created_at :: string

record lot_row =
  l_id :: string
  l_slice :: string
  l_provider :: string
  l_buyer :: string
  l_amount :: int
  l_reversed :: int
  l_unlocked :: int
  l_held :: int
  l_paid :: int
  l_converted :: int
  l_debited_at :: string
  l_fulfilled_at :: string
  l_unlock_at :: string
  l_disputed :: bool
  l_created_at :: string
  l_commission :: int
  l_commission_reversed :: int
  l_commission_unlocked :: int

text \<open>The generated column \<open>net_amount_units\<close>.\<close>

definition l_net :: "lot_row \<Rightarrow> int" where
  "l_net l = l_amount l - l_commission l"

record earning_hold_row =
  eh_id :: string
  eh_lot :: string
  eh_reason_kind :: string
  eh_reason_ref :: string
  eh_created_at :: string
  eh_released_at :: "string option"
  eh_released_by :: "string option"
  eh_release_reason :: "string option"

record dispute_row =
  sd_id :: string
  sd_contract :: string
  sd_buyer :: string
  sd_provider :: string
  sd_reason_code :: string
  sd_open :: bool
  sd_resolution_code :: "string option"
  sd_refunded :: int
  sd_version :: int
  sd_created_at :: string
  sd_resolved_at :: "string option"

record audit_row =
  au_id :: string
  au_actor :: string
  au_action :: string
  au_object_kind :: string
  au_object_id :: string
  au_reason_code :: string
  au_created_at :: string

record case_row =
  rc_id :: string
  rc_code :: string
  rc_object_kind :: string
  rc_object_id :: string
  rc_open :: bool
  rc_created_at :: string

record compensation_row =
  cm_provider :: string
  cm_amount :: int
  cm_reversed :: int
  cm_credited :: int

record share_income_row =
  si_provider :: string
  si_amount :: int
  si_commission :: int
  si_credited :: int

record market_db = notice_db +
  commission_version :: int
  commission_policies :: "policy_row list"
  commission_cancellations :: "cancellation_row list"
  quote_terms :: "quote_terms_row list"
  contract_terms :: "contract_terms_row list"
  commission_periods :: "commission_period_row list"
  commission_splits :: "split_row list"
  commission_refunds :: "refund_row list"
  platform_contracts :: "contract_row list"
  profile_users :: "string list"
  platform_periods :: "service_period_row list"
  slices :: "slice_row list"
  lots :: "lot_row list"
  earning_holds :: "earning_hold_row list"
  service_disputes :: "dispute_row list"
  dispute_lots :: "(string \<times> string) list"
  finance_cases :: "case_row list"
  finance_audit :: "audit_row list"
  compensations :: "compensation_row list"
  share_income :: "share_income_row list"


section \<open>Constraints\<close>

definition rate_check :: "int \<Rightarrow> bool" where
  "rate_check bps \<longleftrightarrow> 0 \<le> bps \<and> bps \<le> 10000"

definition lot_check :: "lot_row \<Rightarrow> bool" where
  "lot_check l \<longleftrightarrow>
     0 < l_amount l \<and> 0 \<le> l_reversed l \<and> 0 \<le> l_unlocked l \<and> 0 \<le> l_held l \<and> 0 \<le> l_paid l \<and> 0 \<le> l_converted l
     \<and> l_reversed l \<le> l_amount l \<and> l_unlocked l \<le> l_amount l - l_reversed l
     \<and> l_held l + l_paid l \<le> l_unlocked l
     \<and> 0 \<le> l_commission l \<and> 0 \<le> l_commission_reversed l \<and> 0 \<le> l_commission_unlocked l
     \<and> l_commission l \<le> l_amount l \<and> l_reversed l + l_unlocked l \<le> l_net l
     \<and> l_commission_reversed l + l_commission_unlocked l \<le> l_commission l
     \<and> l_held l + l_paid l \<le> l_unlocked l - l_converted l"

definition lot_update_ok :: "lot_row \<Rightarrow> lot_row \<Rightarrow> bool" where
  "lot_update_ok old new \<longleftrightarrow>
     lot_check new \<and> l_amount new = l_amount old \<and> l_commission new = l_commission old
     \<and> l_converted old \<le> l_converted new"

definition hold_reasons :: "string list" where
  "hold_reasons = [''dispute'', ''cleanup_uncertain'', ''service_missing'', ''manual'', ''legacy_unknown'']"


section \<open>Statements\<close>

definition insert_policy_tx :: "policy_row \<Rightarrow> ('a market_db_scheme, unit) tx" where
  "insert_policy_tx p s =
     (if cp_version p \<in> cp_version ` set (commission_policies s) \<or> cp_version p \<le> 0 \<or> \<not> rate_check (cp_rate_bps p)
      then Inl (db_error ''record commission policy'' (Database ''market_commission_policies''))
      else Inr ((), s\<lparr>commission_policies := commission_policies s @ [p]\<rparr>))"

definition insert_cancellation_tx :: "cancellation_row \<Rightarrow> ('a market_db_scheme, unit) tx" where
  "insert_cancellation_tx c s =
     (if cc_policy_version c \<in> cc_policy_version ` set (commission_cancellations s)
      then Inl (db_error ''supersede scheduled commission'' (Database ''market_commission_policy_cancellations''))
      else Inr ((), s\<lparr>commission_cancellations := commission_cancellations s @ [c]\<rparr>))"

definition insert_or_ignore_quote_terms_tx :: "quote_terms_row \<Rightarrow> ('a market_db_scheme, unit) tx" where
  "insert_or_ignore_quote_terms_tx q s =
     (if (\<exists>r \<in> set (quote_terms s). qt_quote r = qt_quote q \<and> qt_provider r = qt_provider q) \<or> \<not> rate_check (qt_rate_bps q)
      then Inr ((), s) else Inr ((), s\<lparr>quote_terms := quote_terms s @ [q]\<rparr>))"

definition insert_contract_terms_tx :: "contract_terms_row \<Rightarrow> ('a market_db_scheme, unit) tx" where
  "insert_contract_terms_tx k s =
     (if kt_contract k \<in> kt_contract ` set (contract_terms s) \<or> \<not> rate_check (kt_rate_bps k)
      then Inl (db_error ''freeze contract commission'' (Database ''market_commission_contract_terms''))
      else Inr ((), s\<lparr>contract_terms := contract_terms s @ [k]\<rparr>))"

definition insert_commission_period_tx :: "commission_period_row \<Rightarrow> ('a market_db_scheme, unit) tx" where
  "insert_commission_period_tx p s =
     (if pe_id p \<in> pe_id ` set (commission_periods s)
         \<or> (\<exists>q \<in> set (commission_periods s). pe_source_kind q = pe_source_kind p \<and> pe_source_id q = pe_source_id p)
         \<or> pe_source_kind p \<notin> {''monthly_period'', ''metered_budget''} \<or> \<not> rate_check (pe_rate_bps p)
      then Inl (db_error ''freeze service period commission'' (Database ''market_commission_periods''))
      else Inr ((), s\<lparr>commission_periods := commission_periods s @ [p]\<rparr>))"

definition insert_split_tx :: "split_row \<Rightarrow> ('a market_db_scheme, unit) tx" where
  "insert_split_tx x s =
     (if sp_lot x \<in> sp_lot ` set (commission_splits s)
         \<or> sp_gross_before x < 0 \<or> sp_gross_after x \<le> sp_gross_before x
         \<or> sp_fee_before x < 0 \<or> sp_fee_after x < sp_fee_before x
         \<or> (\<exists>y \<in> set (commission_splits s). sp_period y = sp_period x
              \<and> (sp_gross_before y = sp_gross_before x \<or> sp_gross_after y = sp_gross_after x))
         \<or> (sp_journal x \<noteq> None \<and> sp_journal x \<in> sp_journal ` set (commission_splits s))
      then Inl (db_error ''record commission split evidence'' (Database ''market_commission_splits''))
      else Inr ((), s\<lparr>commission_splits := commission_splits s @ [x]\<rparr>))"

definition insert_slice_tx :: "slice_row \<Rightarrow> ('a market_db_scheme, unit) tx" where
  "insert_slice_tx d s =
     (if ds_id d \<in> ds_id ` set (slices s)
         \<or> (\<exists>e \<in> set (slices s). ds_source_kind e = ds_source_kind d \<and> ds_source_id e = ds_source_id d)
         \<or> ds_contract_kind d \<notin> {''share'', ''client_host''} \<or> ds_amount d \<le> 0
      then Inl (db_error ''insert delivery slice'' (Database ''market_delivery_slices''))
      else Inr ((), s\<lparr>slices := slices s @ [d]\<rparr>))"

definition insert_lot_tx :: "lot_row \<Rightarrow> ('a market_db_scheme, unit) tx" where
  "insert_lot_tx l s =
     (if l_id l \<in> l_id ` set (lots s) \<or> l_slice l \<in> l_slice ` set (lots s) \<or> \<not> lot_check l
      then Inl (db_error ''insert Provider earning lot'' (Database ''market_provider_earning_lots''))
      else Inr ((), s\<lparr>lots := lots s @ [l]\<rparr>))"

text \<open>An UPDATE of the rows that satisfy \<open>guard\<close>; it returns how many there were.\<close>

definition update_lots_tx ::
  "string \<Rightarrow> (lot_row \<Rightarrow> bool) \<Rightarrow> (lot_row \<Rightarrow> lot_row) \<Rightarrow> ('a market_db_scheme, nat) tx"
where
  "update_lots_tx ctx guard upd s =
     (if \<exists>l \<in> set (lots s). guard l \<and> \<not> lot_update_ok l (upd l)
      then Inl (db_error ctx (Database ''market_provider_earning_lots''))
      else Inr (length (filter guard (lots s)), s\<lparr>lots := map (\<lambda>l. if guard l then upd l else l) (lots s)\<rparr>))"

text \<open>INSERT OR IGNORE of one hold per lot; it returns how many were inserted.\<close>

definition insert_hold_row_tx :: "earning_hold_row \<Rightarrow> ('a market_db_scheme, nat) tx" where
  "insert_hold_row_tx h s =
     (if eh_id h \<in> eh_id ` set (earning_holds s)
         \<or> (\<exists>g \<in> set (earning_holds s). eh_lot g = eh_lot h \<and> eh_reason_kind g = eh_reason_kind h
               \<and> eh_reason_ref g = eh_reason_ref h \<and> eh_released_at g = None)
         \<or> eh_reason_kind h \<notin> set hold_reasons
      then Inr (0, s)
      else Inr (1, s\<lparr>earning_holds := earning_holds s @ [h]\<rparr>))"

fun insert_earning_holds_tx ::
  "string list \<Rightarrow> string \<Rightarrow> string \<Rightarrow> string \<Rightarrow> ('a market_db_scheme, nat) tx"
where
  "insert_earning_holds_tx [] reason_kind reason_ref time = return_tx 0"
| "insert_earning_holds_tx (lot # rest) reason_kind reason_ref time =
     bind_tx new_v4 (\<lambda>hid.
     bind_tx (insert_hold_row_tx \<lparr>eh_id = hid, eh_lot = lot, eh_reason_kind = reason_kind, eh_reason_ref = reason_ref,
         eh_created_at = time, eh_released_at = None, eh_released_by = None, eh_release_reason = None\<rparr>) (\<lambda>n.
     bind_tx (insert_earning_holds_tx rest reason_kind reason_ref time) (\<lambda>m. return_tx (n + m))))"

definition insert_case_tx :: "case_row \<Rightarrow> ('a market_db_scheme, unit) tx" where
  "insert_case_tx c s =
     (if rc_id c \<in> rc_id ` set (finance_cases s)
         \<or> (\<exists>d \<in> set (finance_cases s). rc_open d \<and> rc_code d = rc_code c
              \<and> rc_object_kind d = rc_object_kind c \<and> rc_object_id d = rc_object_id c)
      then Inr ((), s) else Inr ((), s\<lparr>finance_cases := finance_cases s @ [c]\<rparr>))"

text \<open>At most one dispute of a contract is open.\<close>

definition insert_dispute_tx :: "dispute_row \<Rightarrow> ('a market_db_scheme, unit) tx" where
  "insert_dispute_tx d s =
     (if sd_id d \<in> sd_id ` set (service_disputes s)
         \<or> (sd_open d \<and> (\<exists>e \<in> set (service_disputes s). sd_open e \<and> sd_contract e = sd_contract d))
      then Inl (db_error ''open service dispute'' (Database ''market_service_disputes''))
      else Inr ((), s\<lparr>service_disputes := service_disputes s @ [d]\<rparr>))"

definition insert_audit_tx :: "string \<Rightarrow> audit_row \<Rightarrow> ('a market_db_scheme, unit) tx" where
  "insert_audit_tx ctx a s =
     (if au_id a \<in> au_id ` set (finance_audit s) then Inl (db_error ctx (Database ''market_finance_audit_events''))
      else Inr ((), s\<lparr>finance_audit := finance_audit s @ [a]\<rparr>))"

definition insert_refund_tx :: "refund_row \<Rightarrow> ('a market_db_scheme, unit) tx" where
  "insert_refund_tx f s =
     (if (\<exists>g \<in> set (commission_refunds s). rf_dispute g = rf_dispute f \<and> rf_lot g = rf_lot f)
         \<or> rf_gross f \<le> 0 \<or> rf_net f < 0 \<or> rf_fee f < 0 \<or> rf_gross f \<noteq> rf_net f + rf_fee f
      then Inl (db_error ''record service refund allocation'' (Database ''market_commission_refunds''))
      else Inr ((), s\<lparr>commission_refunds := commission_refunds s @ [f]\<rparr>))"

text \<open>The comparison of two timestamps by \<open>julianday\<close>; text it cannot read compares false.\<close>

definition jd_le :: "time_lib \<Rightarrow> string \<Rightarrow> string \<Rightarrow> bool" where
  "jd_le T a b = (case (julianday T a, julianday T b) of (Some x, Some y) \<Rightarrow> x \<le> y | _ \<Rightarrow> False)"

definition jd_less :: "time_lib \<Rightarrow> string \<Rightarrow> string \<Rightarrow> bool" where
  "jd_less T a b = (case (julianday T a, julianday T b) of (Some x, Some y) \<Rightarrow> x < y | _ \<Rightarrow> False)"

end
