(* ===== verification/Market_Commission.thy ===== *)
theory Market_Commission
  imports Earning_Tables
begin

text \<open>
  Service commissions (\<open>src/src/market_commission.rs\<close>): the versioned policy, the terms
  frozen with a quote, a contract and a service period, the cumulative split of a
  delivery between Provider and platform, and the audit of that split. The HTTP
  handlers are not modelled.
\<close>


section \<open>The policy\<close>

record terms =
  tm_policy_version :: int
  tm_rate_bps :: int
  tm_effective_at :: string

definition terms_of :: "policy_row \<Rightarrow> terms" where
  "terms_of p = \<lparr>tm_policy_version = cp_version p, tm_rate_bps = cp_rate_bps p, tm_effective_at = cp_effective_at p\<rparr>"

definition cancelled :: "'a market_db_scheme \<Rightarrow> policy_row \<Rightarrow> bool" where
  "cancelled s p \<longleftrightarrow> cp_version p \<in> cc_policy_version ` set (commission_cancellations s)"

definition later_policy :: "time_lib \<Rightarrow> policy_row \<Rightarrow> policy_row \<Rightarrow> bool" where
  "later_policy T p q \<longleftrightarrow>
     jd_less T (cp_effective_at q) (cp_effective_at p)
     \<or> (julianday T (cp_effective_at q) = julianday T (cp_effective_at p) \<and> cp_version q < cp_version p)"

definition terms_at_tx :: "time_lib \<Rightarrow> string \<Rightarrow> ('a market_db_scheme, terms) tx" where
  "terms_at_tx T at = read_tx (\<lambda>s.
     case first_by (later_policy T)
         (filter (\<lambda>p. jd_le T (cp_effective_at p) at \<and> \<not> cancelled s p) (commission_policies s)) of
       None \<Rightarrow> Inl (db_error ''read service commission policy'' QueryReturnedNoRows)
     | Some p \<Rightarrow> Inr (terms_of p))"

record policy_view =
  pv_version :: int
  pv_current :: terms
  pv_scheduled :: "terms option"
  pv_increase_notice_days :: int
  pv_can_edit :: bool

definition sooner_policy :: "time_lib \<Rightarrow> policy_row \<Rightarrow> policy_row \<Rightarrow> bool" where
  "sooner_policy T p q \<longleftrightarrow>
     jd_less T (cp_effective_at p) (cp_effective_at q)
     \<or> (julianday T (cp_effective_at p) = julianday T (cp_effective_at q) \<and> cp_version q < cp_version p)"

definition scheduled_policy :: "time_lib \<Rightarrow> string \<Rightarrow> 'a market_db_scheme \<Rightarrow> policy_row option" where
  "scheduled_policy T at s =
     first_by (sooner_policy T)
       (filter (\<lambda>p. jd_less T at (cp_effective_at p) \<and> \<not> cancelled s p) (commission_policies s))"

definition view_tx :: "time_lib \<Rightarrow> string \<Rightarrow> bool \<Rightarrow> ('a market_db_scheme, policy_view) tx" where
  "view_tx T at can_edit =
     bind_tx (gets_tx commission_version) (\<lambda>version.
     bind_tx (gets_tx (scheduled_policy T at)) (\<lambda>scheduled.
     bind_tx (terms_at_tx T at) (\<lambda>current.
       return_tx \<lparr>pv_version = version, pv_current = current, pv_scheduled = map_option terms_of scheduled,
                  pv_increase_notice_days = 7, pv_can_edit = can_edit\<rparr>)))"

definition terms_json :: "terms \<Rightarrow> json" where
  "terms_json t = JObject [(''policyVersion'', JNumber (tm_policy_version t)), (''rateBps'', JNumber (tm_rate_bps t)),
     (''effectiveAt'', JString (tm_effective_at t))]"

definition view_json :: "policy_view \<Rightarrow> json" where
  "view_json v = JObject [(''version'', JNumber (pv_version v)), (''current'', terms_json (pv_current v)),
     (''scheduled'', case pv_scheduled v of None \<Rightarrow> JNull | Some t \<Rightarrow> terms_json t),
     (''increaseNoticeDays'', JNumber (pv_increase_notice_days v)), (''canEdit'', JBool (pv_can_edit v))]"

definition update_control_tx :: "int \<Rightarrow> int \<Rightarrow> ('a market_db_scheme, nat) tx" where
  "update_control_tx expected version s =
     (if commission_version s \<noteq> expected then Inr (0, s)
      else if version \<le> 0 then Inl (db_error ''update commission policy control'' (Database ''market_commission_policy_control''))
      else Inr (1, s\<lparr>commission_version := version\<rparr>))"

definition notice_recipients :: "'a market_db_scheme \<Rightarrow> string list" where
  "notice_recipients s =
     remdups (map pc_provider (platform_contracts s) @ map l_provider (lots s) @ profile_users s)"

fun notify_policy_tx ::
  "string list \<Rightarrow> int \<Rightarrow> int \<Rightarrow> string \<Rightarrow> string \<Rightarrow> ('a market_db_scheme, unit) tx"
where
  "notify_policy_tx [] version rate effective at = return_tx ()"
| "notify_policy_tx (provider # rest) version rate effective at =
     bind_tx (enqueue_user_notification_tx ''provider'' provider ''commission_policy_changed'' ''commission_policy''
         (show_int version) (''commission_policy:'' @ show_int version @ '':'' @ provider)
         (JObject [(''rateBps'', JNumber rate), (''effectiveAt'', JString effective),
                   (''reason'', JString ''new_service_periods_only'')]) at)
       (\<lambda>_. notify_policy_tx rest version rate effective at)"

text \<open>Adding days outside the range of a \<open>DateTime\<close> panics, which rolls the transaction back.\<close>

definition add_days :: "time_lib \<Rightarrow> int \<Rightarrow> int \<Rightarrow> int result" where
  "add_days T t n = (if utc_range T (t + days n) then Inr (t + days n) else Inl (Internal ''panic''))"

definition set_policy_tx ::
  "time_lib \<Rightarrow> int \<Rightarrow> int \<Rightarrow> string \<Rightarrow> string \<Rightarrow> ('a market_db_scheme, policy_view) tx"
where
  "set_policy_tx T expected rate actor at =
     bind_tx (require_tx (rate_check rate) (BadRequest ''commission rate must be between 0 and 100 percent'')) (\<lambda>_.
     bind_tx (view_tx T at True) (\<lambda>before.
     bind_tx (require_tx (pv_version before = expected) (Conflict ''commission policy changed; reload before saving'')) (\<lambda>_.
     bind_tx (lift_tx (case parse_rfc3339 T at of
         None \<Rightarrow> Inl (Internal ''invalid commission policy time'') | Some time \<Rightarrow> Inr time)) (\<lambda>time.
     bind_tx (lift_tx (if tm_rate_bps (pv_current before) < rate then add_days T time 7 else Inr time)) (\<lambda>effective_at.
     let effective = to_rfc3339 T effective_at in
     bind_tx (lift_tx (case checked_add64 expected 1 of
         None \<Rightarrow> Inl (Internal ''commission version overflow'') | Some v \<Rightarrow> Inr v)) (\<lambda>version.
     bind_tx (update_control_tx expected version) (\<lambda>n.
     bind_tx (require_tx (n = 1) (Conflict ''commission policy changed; reload before saving'')) (\<lambda>_.
     bind_tx (insert_policy_tx \<lparr>cp_version = version, cp_rate_bps = rate, cp_effective_at = effective,
         cp_actor = actor, cp_created_at = at\<rparr>) (\<lambda>_.
     bind_tx (case pv_scheduled before of
         None \<Rightarrow> return_tx ()
       | Some pending \<Rightarrow> insert_cancellation_tx \<lparr>cc_policy_version = tm_policy_version pending,
           cc_replaced_by = version, cc_created_at = at\<rparr>) (\<lambda>_.
     bind_tx (view_tx T at True) (\<lambda>after.
     bind_tx (owner_signal_tx T ''commission_policy_changed'' ''commission_policy'' (show_int version)
         (JObject [(''actorUserId'', JString actor), (''before'', view_json before), (''after'', view_json after)])
         at False) (\<lambda>_.
     bind_tx (gets_tx notice_recipients) (\<lambda>providers.
     bind_tx (notify_policy_tx providers version rate effective at) (\<lambda>_.
     return_tx after))))))))))))))"


section \<open>Frozen terms\<close>

definition freeze_quote_tx :: "time_lib \<Rightarrow> string \<Rightarrow> string \<Rightarrow> string \<Rightarrow> ('a market_db_scheme, unit) tx" where
  "freeze_quote_tx T quote provider at =
     bind_tx (terms_at_tx T at) (\<lambda>t.
     insert_or_ignore_quote_terms_tx \<lparr>qt_quote = quote, qt_provider = provider,
       qt_policy_version = tm_policy_version t, qt_rate_bps = tm_rate_bps t, qt_created_at = at\<rparr>)"

definition freeze_contract_tx ::
  "string \<Rightarrow> string \<Rightarrow> string \<Rightarrow> string \<Rightarrow> ('a market_db_scheme, unit) tx"
where
  "freeze_contract_tx contract quote provider at =
     bind_tx (gets_tx (\<lambda>s. find (\<lambda>q. qt_quote q = quote \<and> qt_provider q = provider) (quote_terms s))) (\<lambda>q.
     let (version, rate) = (case q of None \<Rightarrow> (0, 0) | Some q \<Rightarrow> (qt_policy_version q, qt_rate_bps q)) in
     insert_contract_terms_tx \<lparr>kt_contract = contract, kt_quote = quote, kt_policy_version = version,
       kt_rate_bps = rate, kt_created_at = at\<rparr>)"

definition protected_contract :: "string \<Rightarrow> 'a market_db_scheme \<Rightarrow> bool" where
  "protected_contract contract s \<longleftrightarrow>
     (\<exists>k \<in> set (contract_terms s). kt_contract k = contract \<and> 0 < kt_policy_version k)"

text \<open>
  Whether a later period predates the installation of commissions. SQL's three-valued
  AND: a protected contract is no backlog whatever the dates; otherwise an unreadable
  date gives NULL, which does not convert to a boolean.
\<close>

definition legacy_backlog_tx :: "time_lib \<Rightarrow> string \<Rightarrow> string \<Rightarrow> ('a market_db_scheme, bool) tx" where
  "legacy_backlog_tx T contract anchor = read_tx (\<lambda>s.
     case find (\<lambda>p. cp_version p = 1) (commission_policies s) of
       None \<Rightarrow> Inl (db_error ''check pre-commission service backlog'' QueryReturnedNoRows)
     | Some p \<Rightarrow>
        if protected_contract contract s then Inr False
        else (case (julianday T anchor, julianday T (cp_created_at p)) of
            (Some a, Some b) \<Rightarrow> Inr (a < b)
          | _ \<Rightarrow> Inl (db_error ''check pre-commission service backlog'' (InvalidColumnType 0))))"

definition freeze_period_tx ::
  "time_lib \<Rightarrow> string \<Rightarrow> string \<Rightarrow> string \<Rightarrow> bool \<Rightarrow> string \<Rightarrow> string \<Rightarrow> ('a market_db_scheme, unit) tx"
where
  "freeze_period_tx T contract kind source first_period anchor at =
     bind_tx (if first_period
       then gets_tx (\<lambda>s. case find (\<lambda>k. kt_contract k = contract) (contract_terms s) of
           None \<Rightarrow> (0, 0) | Some k \<Rightarrow> (kt_policy_version k, kt_rate_bps k))
       else bind_tx (legacy_backlog_tx T contract anchor) (\<lambda>backlog.
         if backlog then return_tx (0, 0)
         else bind_tx (terms_at_tx T anchor) (\<lambda>t. return_tx (tm_policy_version t, tm_rate_bps t)))) (\<lambda>(version, rate).
     bind_tx new_v4 (\<lambda>pid.
     insert_commission_period_tx \<lparr>pe_id = pid, pe_contract = contract, pe_source_kind = kind, pe_source_id = source,
       pe_policy_version = version, pe_rate_bps = rate, pe_anchor_at = anchor, pe_created_at = at\<rparr>))"


section \<open>Splitting a delivery\<close>

definition cumulative_fee :: "int \<Rightarrow> int \<Rightarrow> int result" where
  "cumulative_fee gross bps =
     (if gross < 0 \<or> \<not> rate_check bps then Inl (Internal ''invalid cumulative commission'')
      else Inr ((gross * bps + 5000) div 10000))"

record split_evidence =
  ev_period :: string
  ev_gross_before :: int
  ev_gross_after :: int
  ev_fee_before :: int
  ev_fee_after :: int
  ev_journal :: "string option"

record delivery_allocation =
  da_fee_units :: int
  da_evidence :: "split_evidence option"

definition no_allocation :: delivery_allocation where
  "no_allocation = \<lparr>da_fee_units = 0, da_evidence = None\<rparr>"

definition commission_source_tx ::
  "string \<Rightarrow> string option \<Rightarrow> string \<Rightarrow> ('a market_db_scheme, (string \<times> string) option) tx"
where
  "commission_source_tx contract period source_kind =
     (case period of
        Some p \<Rightarrow> return_tx (Some (''monthly_period'', p))
      | None \<Rightarrow>
         if source_kind = ''metered_batch''
         then read_tx (\<lambda>s. case find (\<lambda>c. pc_id c = contract) (platform_contracts s) of
             None \<Rightarrow> Inl (db_error ''read service commission budget'' QueryReturnedNoRows)
           | Some c \<Rightarrow> (case pc_budget_hold c of
               None \<Rightarrow> Inl (db_error ''read service commission budget'' (InvalidColumnType 0))
             | Some hold \<Rightarrow> Inr (Some (''metered_budget'', hold))))
         else return_tx None)"

definition find_commission_period ::
  "string \<Rightarrow> string \<Rightarrow> string \<Rightarrow> 'a market_db_scheme \<Rightarrow> commission_period_row option"
where
  "find_commission_period kind source contract s =
     find (\<lambda>p. pe_source_kind p = kind \<and> pe_source_id p = source \<and> pe_contract p = contract) (commission_periods s)"

definition max_or_zero :: "int list \<Rightarrow> int" where
  "max_or_zero xs = (if xs = [] then 0 else Max (set xs))"

definition period_splits :: "string \<Rightarrow> 'a market_db_scheme \<Rightarrow> split_row list" where
  "period_splits period s = filter (\<lambda>x. sp_period x = period) (commission_splits s)"

definition commission_postings :: "string \<Rightarrow> string \<Rightarrow> int \<Rightarrow> posting list" where
  "commission_postings provider lot fee =
     [\<lparr>p_kind = ''provider_pending'', p_subject = provider, p_units = fee\<rparr>,
      \<lparr>p_kind = ''platform_commission_pending'', p_subject = lot, p_units = - fee\<rparr>]"

definition allocate_in_period_tx ::
  "string \<Rightarrow> commission_period_row \<Rightarrow> int \<Rightarrow> string \<Rightarrow> string \<Rightarrow> ('a market_db_scheme, delivery_allocation) tx"
where
  "allocate_in_period_tx lot p gross provider at =
     bind_tx (gets_tx (\<lambda>s. (max_or_zero (map sp_gross_after (period_splits (pe_id p) s)),
                           max_or_zero (map sp_fee_after (period_splits (pe_id p) s))))) (\<lambda>(before, fee_before).
     bind_tx (lift_tx (case checked_add64 before gross of
         None \<Rightarrow> Inl (Internal ''commission gross overflow'') | Some after \<Rightarrow> Inr after)) (\<lambda>after.
     bind_tx (lift_tx (cumulative_fee before (pe_rate_bps p))) (\<lambda>expected.
     bind_tx (require_tx (expected = fee_before) (Internal ''cumulative commission evidence drift'')) (\<lambda>_.
     bind_tx (lift_tx (cumulative_fee after (pe_rate_bps p))) (\<lambda>fee_after.
     let fee = fee_after - fee_before in
     bind_tx (if 0 < fee
       then bind_tx (post_journal_tx ''earning_lot'' lot ''commission''
              (pe_id p @ '':'' @ show_int before @ '':'' @ show_int after @ '':'' @ show_int fee)
              (commission_postings provider lot fee) at) (\<lambda>journal.
            bind_tx (require_tx (jr_inserted journal) (Internal ''commission allocation replay drift''))
              (\<lambda>_. return_tx (Some (jr_id journal))))
       else return_tx None) (\<lambda>journal.
     return_tx \<lparr>da_fee_units = fee, da_evidence = Some \<lparr>ev_period = pe_id p, ev_gross_before = before,
       ev_gross_after = after, ev_fee_before = fee_before, ev_fee_after = fee_after, ev_journal = journal\<rparr>\<rparr>))))))"

definition allocate_delivery_tx ::
  "string \<Rightarrow> string \<Rightarrow> string option \<Rightarrow> string \<Rightarrow> int \<Rightarrow> string \<Rightarrow> string
     \<Rightarrow> ('a market_db_scheme, delivery_allocation) tx"
where
  "allocate_delivery_tx lot contract period source_kind gross provider at =
     bind_tx (commission_source_tx contract period source_kind) (\<lambda>source.
     case source of
       None \<Rightarrow> return_tx no_allocation
     | Some (kind, source) \<Rightarrow>
        bind_tx (gets_tx (find_commission_period kind source contract)) (\<lambda>p.
        case p of
          None \<Rightarrow>
            bind_tx (gets_tx (protected_contract contract)) (\<lambda>protected.
            bind_tx (require_tx (\<not> protected) (Internal ''service commission period missing'')) (\<lambda>_.
            return_tx no_allocation))
        | Some p \<Rightarrow> allocate_in_period_tx lot p gross provider at))"

definition finish_delivery_tx ::
  "string \<Rightarrow> delivery_allocation \<Rightarrow> string \<Rightarrow> ('a market_db_scheme, unit) tx"
where
  "finish_delivery_tx lot allocation at =
     (case da_evidence allocation of
        None \<Rightarrow> return_tx ()
      | Some e \<Rightarrow> insert_split_tx \<lparr>sp_lot = lot, sp_period = ev_period e, sp_gross_before = ev_gross_before e,
          sp_gross_after = ev_gross_after e, sp_fee_before = ev_fee_before e, sp_fee_after = ev_fee_after e,
          sp_journal = ev_journal e, sp_created_at = at\<rparr>)"


section \<open>The audit of a split\<close>

text \<open>
  \<open>sum_is\<close>: a \<open>COALESCE(SUM(...), 0)\<close> with this value. A sum that overflows is an error
  in SQL and no value here; the callers refuse the lot either way.
\<close>

definition sum_is :: "int list \<Rightarrow> int \<Rightarrow> bool" where
  "sum_is xs v \<longleftrightarrow> sql_sum xs = Some v"

definition journal_acct :: "string \<Rightarrow> string \<Rightarrow> string \<Rightarrow> 'a wallet_db_scheme \<Rightarrow> int list" where
  "journal_acct jid kind subject s =
     map pr_units (filter (\<lambda>p. pr_journal p = jid \<and> pr_kind p = kind \<and> pr_subject p = subject) (postings s))"

definition lot_refunds :: "string \<Rightarrow> 'a market_db_scheme \<Rightarrow> refund_row list" where
  "lot_refunds lot s = filter (\<lambda>f. rf_lot f = lot) (commission_refunds s)"

definition allocation_booked :: "lot_row \<Rightarrow> split_row \<Rightarrow> 'a market_db_scheme \<Rightarrow> bool" where
  "allocation_booked l x s \<longleftrightarrow>
     (l_commission l = 0 \<and> sp_journal x = None)
     \<or> (\<exists>j \<in> set (journals s). \<exists>seal \<in> set (seals s).
          s_journal seal = j_id j \<and> sp_journal x = Some (j_id j)
          \<and> j_source_kind j = ''earning_lot'' \<and> j_source_id j = l_id l \<and> j_action j = ''commission'' \<and> s_count seal = 2
          \<and> sum_is (journal_acct (j_id j) ''provider_pending'' (l_provider l) s) (l_commission l)
          \<and> sum_is (journal_acct (j_id j) ''platform_commission_pending'' (l_id l) s) (- l_commission l))"

definition split_recorded ::
  "lot_row \<Rightarrow> slice_row \<Rightarrow> split_row \<Rightarrow> commission_period_row \<Rightarrow> 'a market_db_scheme \<Rightarrow> bool"
where
  "split_recorded l d x p s \<longleftrightarrow>
     pe_contract p = ds_contract d
     \<and> (pe_source_kind p \<noteq> ''monthly_period'' \<or> ds_period d = Some (pe_source_id p))
     \<and> sp_gross_after x - sp_gross_before x = l_amount l
     \<and> sp_fee_after x - sp_fee_before x = l_commission l
     \<and> ((sp_gross_before x = 0 \<and> sp_fee_before x = 0)
        \<or> (\<exists>prev \<in> set (commission_splits s). sp_period prev = sp_period x
             \<and> sp_gross_after prev = sp_gross_before x \<and> sp_fee_after prev = sp_fee_before x))
     \<and> ((pe_policy_version p = 0 \<and> pe_rate_bps p = 0)
        \<or> (\<exists>policy \<in> set (commission_policies s). cp_version policy = pe_policy_version p \<and> cp_rate_bps policy = pe_rate_bps p))
     \<and> sum_is (map rf_net (lot_refunds (l_id l) s)) (l_reversed l)
     \<and> sum_is (map rf_fee (lot_refunds (l_id l) s)) (l_commission_reversed l)
     \<and> ds_earning_journal d \<in> s_journal ` set (seals s)
     \<and> sum_is (journal_acct (ds_earning_journal d) ''provider_pending'' (l_provider l) s) (- l_amount l)
     \<and> allocation_booked l x s"

definition unsplit_recorded :: "lot_row \<Rightarrow> slice_row \<Rightarrow> 'a market_db_scheme \<Rightarrow> bool" where
  "unsplit_recorded l d s \<longleftrightarrow>
     l_commission l = 0 \<and> l_commission_reversed l = 0 \<and> l_commission_unlocked l = 0
     \<and> \<not> protected_contract (ds_contract d) s"

definition lot_basics :: "string \<Rightarrow> 'a market_db_scheme \<Rightarrow> bool" where
  "lot_basics lot s \<longleftrightarrow>
     (\<exists>l \<in> set (lots s). \<exists>d \<in> set (slices s).
        l_id l = lot \<and> ds_id d = l_slice l \<and> l_amount l = ds_amount d
        \<and> (if lot \<notin> sp_lot ` set (commission_splits s) then unsplit_recorded l d s
           else \<exists>x \<in> set (commission_splits s). sp_lot x = lot
             \<and> (\<exists>p \<in> set (commission_periods s). pe_id p = sp_period x \<and> split_recorded l d x p s)))"

definition refund_postings ::
  "string \<Rightarrow> string list \<Rightarrow> string list \<Rightarrow> string \<Rightarrow> 'a wallet_db_scheme \<Rightarrow> int list"
where
  "refund_postings dispute actions kinds subject s =
     concat (map (\<lambda>j. map pr_units (filter (\<lambda>p. pr_journal p = j_id j \<and> pr_kind p \<in> set kinds \<and> pr_subject p = subject)
                        (postings s)))
       (filter (\<lambda>j. j_source_kind j = ''service_dispute'' \<and> j_source_id j = dispute \<and> j_action j \<in> set actions)
          (journals s)))"

definition refund_booked :: "lot_row \<Rightarrow> refund_row \<Rightarrow> 'a market_db_scheme \<Rightarrow> bool" where
  "refund_booked l f s \<longleftrightarrow>
     (let net_actions = [''refund_pending:'' @ l_id l, ''refund_available:'' @ l_id l];
          fee_actions = [''refund_commission_pending:'' @ l_id l, ''refund_commission_revenue:'' @ l_id l]
      in sum_is (refund_postings (rf_dispute f) net_actions [''provider_pending'', ''provider_available''] (l_provider l) s)
           (rf_net f)
       \<and> sum_is (refund_postings (rf_dispute f) fee_actions
           [''platform_commission_pending'', ''platform_commission_revenue''] (l_id l) s) (rf_fee f)
       \<and> sum_is (refund_postings (rf_dispute f) (net_actions @ fee_actions) [''wallet_available''] (l_buyer l) s)
           (- rf_gross f))"

definition refund_share_ok :: "lot_row \<Rightarrow> bool" where
  "refund_share_ok l \<longleftrightarrow>
     ((l_reversed l + l_commission_reversed l) * l_commission l + l_amount l div 2) div l_amount l = l_commission_reversed l"

definition liability_booked :: "lot_row \<Rightarrow> 'a wallet_db_scheme \<Rightarrow> bool" where
  "liability_booked l s \<longleftrightarrow>
     sum_is (acct_rows ''platform_commission_pending'' (l_id l) s)
       (- (l_commission l - l_commission_reversed l - l_commission_unlocked l))
     \<and> sum_is (acct_rows ''platform_commission_revenue'' (l_id l) s) (- l_commission_unlocked l)"

definition split_of :: "string \<Rightarrow> 'a market_db_scheme \<Rightarrow> (split_row \<times> commission_period_row) option" where
  "split_of lot s =
     (case find (\<lambda>x. sp_lot x = lot \<and> sp_period x \<in> pe_id ` set (commission_periods s)) (commission_splits s) of
        None \<Rightarrow> None
      | Some x \<Rightarrow> map_option (Pair x) (find (\<lambda>p. pe_id p = sp_period x) (commission_periods s)))"

definition find_lot :: "string \<Rightarrow> 'a market_db_scheme \<Rightarrow> lot_row option" where
  "find_lot lot s = find (\<lambda>l. l_id l = lot) (lots s)"

definition lot_evidence_valid_tx :: "string \<Rightarrow> ('a market_db_scheme, bool) tx" where
  "lot_evidence_valid_tx lot = read_tx (\<lambda>s.
     if \<not> lot_basics lot s then Inr False
     else case find_lot lot s of
       None \<Rightarrow> Inl (db_error ''audit cumulative refund allocation'' QueryReturnedNoRows)
     | Some l \<Rightarrow>
        if \<not> refund_share_ok l then Inr False
        else (case (case split_of lot s of
              None \<Rightarrow> Inr True
            | Some (x, p) \<Rightarrow>
               (case (cumulative_fee (sp_gross_before x) (pe_rate_bps p), cumulative_fee (sp_gross_after x) (pe_rate_bps p)) of
                  (Inr a, Inr b) \<Rightarrow> Inr (a = sp_fee_before x \<and> b = sp_fee_after x)
                | (Inr a, Inl e) \<Rightarrow> if a \<noteq> sp_fee_before x then Inr False else Inl e
                | (Inl e, _) \<Rightarrow> Inl e)) of
            Inl e \<Rightarrow> Inl e
          | Inr ok \<Rightarrow>
             if \<not> ok then Inr False
             else if \<exists>f \<in> set (lot_refunds lot s). \<not> refund_booked l f s then Inr False
             else Inr (liability_booked l s)))"

end
