(* ===== verification/Market_Finance.thy ===== *)
theory Market_Finance
  imports Market_Commission Market_Wallet
begin

text \<open>
  Delivery-backed Provider earnings (\<open>src/src/market_finance.rs\<close>): a delivery of service
  becomes a slice with an earning lot, the lot may be held for a recorded cause, and it
  unlocks seven days after the buyer was debited and the service fulfilled. Fixture
  helpers that exist for tests only are left out.
\<close>


section \<open>Deliveries\<close>

definition parse_utc :: "time_lib \<Rightarrow> string \<Rightarrow> int result" where
  "parse_utc T v = (case parse_rfc3339 T v of
     None \<Rightarrow> Inl (Internal ''invalid market finance timestamp'') | Some t \<Rightarrow> Inr t)"

definition unlock_at :: "time_lib \<Rightarrow> string \<Rightarrow> string \<Rightarrow> string result" where
  "unlock_at T debited_at fulfilled_at =
     (case parse_utc T debited_at of Inl e \<Rightarrow> Inl e
      | Inr d \<Rightarrow> (case parse_utc T fulfilled_at of Inl e \<Rightarrow> Inl e
         | Inr f \<Rightarrow> if utc_range T (max d f + days 7) then Inr (to_rfc3339 T (max d f + days 7))
                  else Inl (Internal ''market earning maturity overflow'')))"

definition validate_slice :: "time_lib \<Rightarrow> string \<Rightarrow> string \<Rightarrow> string \<Rightarrow> int \<Rightarrow> unit result" where
  "validate_slice T kind start finish units =
     (if kind \<notin> {''share'', ''client_host''} \<or> units \<le> 0 then Inl (BadRequest ''invalid market delivery slice'')
      else (case parse_utc T start of Inl e \<Rightarrow> Inl e
        | Inr a \<Rightarrow> (case parse_utc T finish of Inl e \<Rightarrow> Inl e
           | Inr b \<Rightarrow> if b \<le> a then Inl (BadRequest ''invalid market delivery slice'') else Inr ())))"

definition find_slice :: "string \<Rightarrow> string \<Rightarrow> 'a market_db_scheme \<Rightarrow> (slice_row \<times> lot_row) option" where
  "find_slice source_kind source_id s =
     (case find (\<lambda>d. ds_source_kind d = source_kind \<and> ds_source_id d = source_id \<and> ds_id d \<in> l_slice ` set (lots s))
         (slices s) of
        None \<Rightarrow> None
      | Some d \<Rightarrow> map_option (Pair d) (find (\<lambda>l. l_slice l = ds_id d) (lots s)))"

definition existing_slice_tx ::
  "string \<Rightarrow> string \<Rightarrow> string \<Rightarrow> string \<Rightarrow> int \<Rightarrow> ('a market_db_scheme, string option) tx"
where
  "existing_slice_tx source_kind source_id buyer provider amount_units = read_tx (\<lambda>s.
     case find_slice source_kind source_id s of
       None \<Rightarrow> Inr None
     | Some (d, l) \<Rightarrow>
        if l_buyer l \<noteq> buyer \<or> l_provider l \<noteq> provider \<or> l_amount l \<noteq> amount_units
        then Inl (Conflict ''market delivery idempotency conflict'')
        else Inr (Some (ds_id d)))"

definition open_disputes :: "string \<Rightarrow> 'a market_db_scheme \<Rightarrow> string list" where
  "open_disputes contract s = map sd_id (filter (\<lambda>d. sd_contract d = contract \<and> sd_open d) (service_disputes s))"

definition insert_dispute_lots_tx :: "string list \<Rightarrow> string \<Rightarrow> ('a market_db_scheme, unit) tx" where
  "insert_dispute_lots_tx disputes lot s =
     (if \<exists>d \<in> set disputes. (d, lot) \<in> set (dispute_lots s)
      then Inl (db_error ''record earning frozen by ongoing dispute'' (Database ''market_service_dispute_lots''))
      else Inr ((), s\<lparr>dispute_lots := dispute_lots s @ map (\<lambda>d. (d, lot)) disputes\<rparr>))"

fun hold_for_disputes_tx :: "string list \<Rightarrow> string \<Rightarrow> string \<Rightarrow> ('a market_db_scheme, unit) tx" where
  "hold_for_disputes_tx [] lot now = return_tx ()"
| "hold_for_disputes_tx (d # ds) lot now =
     bind_tx (insert_earning_holds_tx [lot] ''dispute'' d now) (\<lambda>_. hold_for_disputes_tx ds lot now)"

definition insert_slice_and_lot_tx ::
  "time_lib \<Rightarrow> string \<Rightarrow> string \<Rightarrow> string \<Rightarrow> string \<Rightarrow> string option \<Rightarrow> string \<Rightarrow> string \<Rightarrow> string \<Rightarrow> string
     \<Rightarrow> int \<Rightarrow> string \<Rightarrow> string \<Rightarrow> string \<Rightarrow> string \<Rightarrow> ('a market_db_scheme, string) tx"
where
  "insert_slice_and_lot_tx T contract_kind contract_id source_kind source_id period_id buyer provider
       started_at ended_at amount_units debit_journal_id earning_journal_id buyer_debited_at now =
     bind_tx new_v4 (\<lambda>slice_id.
     bind_tx (insert_slice_tx \<lparr>ds_id = slice_id, ds_contract_kind = contract_kind, ds_contract = contract_id,
         ds_source_kind = source_kind, ds_source_id = source_id, ds_period = period_id, ds_started_at = started_at,
         ds_ended_at = ended_at, ds_amount = amount_units, ds_debit_journal = debit_journal_id,
         ds_earning_journal = earning_journal_id, ds_created_at = now\<rparr>) (\<lambda>_.
     bind_tx new_v4 (\<lambda>lot_id.
     bind_tx (allocate_delivery_tx lot_id contract_id period_id source_kind amount_units provider now) (\<lambda>allocation.
     bind_tx (gets_tx (open_disputes contract_id)) (\<lambda>disputes.
     bind_tx (lift_tx (unlock_at T buyer_debited_at ended_at)) (\<lambda>maturity.
     bind_tx (insert_lot_tx \<lparr>l_id = lot_id, l_slice = slice_id, l_provider = provider, l_buyer = buyer,
         l_amount = amount_units, l_reversed = 0, l_unlocked = 0, l_held = 0, l_paid = 0, l_converted = 0,
         l_debited_at = buyer_debited_at, l_fulfilled_at = ended_at, l_unlock_at = maturity,
         l_disputed = (disputes \<noteq> []), l_created_at = now, l_commission = da_fee_units allocation,
         l_commission_reversed = 0, l_commission_unlocked = 0\<rparr>) (\<lambda>_.
     bind_tx (finish_delivery_tx lot_id allocation now) (\<lambda>_.
     bind_tx (if disputes = [] then return_tx ()
       else bind_tx (insert_dispute_lots_tx disputes lot_id) (\<lambda>_. hold_for_disputes_tx disputes lot_id now)) (\<lambda>_.
     return_tx slice_id)))))))))"

definition record_captured_metered_delivery_tx ::
  "time_lib \<Rightarrow> string \<Rightarrow> string \<Rightarrow> string \<Rightarrow> string \<Rightarrow> string \<Rightarrow> string \<Rightarrow> string \<Rightarrow> string \<Rightarrow> int \<Rightarrow> string
     \<Rightarrow> ('a market_db_scheme, string \<times> string) tx"
where
  "record_captured_metered_delivery_tx T contract_kind contract_id batch_id hold_id buyer provider started_at ended_at
       amount_units now =
     bind_tx (lift_tx (validate_slice T contract_kind started_at ended_at amount_units)) (\<lambda>_.
     bind_tx (existing_slice_tx ''metered_batch'' batch_id buyer provider amount_units) (\<lambda>existing.
     bind_tx (require_tx (existing = None) (Conflict ''metered batch already posted'')) (\<lambda>_.
     bind_tx (capture_hold_tx hold_id amount_units ''provider_pending'' provider ''metered_batch'' batch_id now) (\<lambda>journal.
     bind_tx (require_tx (jr_inserted journal) (Internal ''metered batch journal exists without delivery evidence'')) (\<lambda>_.
     bind_tx (insert_slice_and_lot_tx T contract_kind contract_id ''metered_batch'' batch_id None buyer provider
         started_at ended_at amount_units (jr_id journal) (jr_id journal) now now) (\<lambda>slice.
     return_tx (slice, jr_id journal)))))))"

definition liability_balance_tx :: "string \<Rightarrow> string \<Rightarrow> ('a wallet_db_scheme, int) tx" where
  "liability_balance_tx kind subject = read_tx (\<lambda>s.
     case sql_sum (acct_rows kind subject s) of
       None \<Rightarrow> Inl (db_error ''read market liability balance'' (Database ''integer overflow''))
     | Some signed \<Rightarrow> (case checked_neg64 signed of
         None \<Rightarrow> Inl (Internal ''market liability overflow'') | Some v \<Rightarrow> Inr v))"

definition earn_postings :: "string \<Rightarrow> string \<Rightarrow> int \<Rightarrow> posting list" where
  "earn_postings period provider units =
     [\<lparr>p_kind = ''unfulfilled'', p_subject = period, p_units = units\<rparr>,
      \<lparr>p_kind = ''provider_pending'', p_subject = provider, p_units = - units\<rparr>]"

definition record_monthly_delivery_tx ::
  "time_lib \<Rightarrow> string \<Rightarrow> string \<Rightarrow> string \<Rightarrow> string \<Rightarrow> string \<Rightarrow> string \<Rightarrow> string \<Rightarrow> string \<Rightarrow> int \<Rightarrow> string \<Rightarrow> string
     \<Rightarrow> string \<Rightarrow> ('a market_db_scheme, string) tx"
where
  "record_monthly_delivery_tx T contract_kind contract_id period_id delivery_source_id buyer provider started_at
       ended_at amount_units debit_journal_id buyer_debited_at now =
     bind_tx (lift_tx (validate_slice T contract_kind started_at ended_at amount_units)) (\<lambda>_.
     bind_tx (existing_slice_tx ''monthly_delivery'' delivery_source_id buyer provider amount_units) (\<lambda>existing.
     case existing of
       Some slice \<Rightarrow> return_tx slice
     | None \<Rightarrow>
        bind_tx (liability_balance_tx ''unfulfilled'' period_id) (\<lambda>balance.
        bind_tx (require_tx (amount_units \<le> balance) (Conflict ''monthly unfulfilled funds are insufficient'')) (\<lambda>_.
        bind_tx (post_journal_tx ''monthly_delivery'' delivery_source_id ''earn''
            (contract_id @ '':'' @ period_id @ '':'' @ provider @ '':'' @ show_int amount_units @ '':'' @ started_at
              @ '':'' @ ended_at)
            (earn_postings period_id provider amount_units) now) (\<lambda>journal.
        bind_tx (require_tx (jr_inserted journal) (Internal ''monthly earning journal missing delivery evidence'')) (\<lambda>_.
        insert_slice_and_lot_tx T contract_kind contract_id ''monthly_delivery'' delivery_source_id (Some period_id)
          buyer provider started_at ended_at amount_units debit_journal_id (jr_id journal) buyer_debited_at now))))))"

text \<open>What the quantity delivery reads of a terminated Share (\<open>Termination\<close>).\<close>

record share_termination =
  te_id :: string
  te_buyer :: string
  te_provider :: string
  te_contract :: "string option"
  te_period :: "string option"
  te_cutoff_at :: string

definition record_share_quota_delivery_tx ::
  "time_lib \<Rightarrow> share_termination \<Rightarrow> int \<Rightarrow> string \<Rightarrow> ('a market_db_scheme, unit) tx"
where
  "record_share_quota_delivery_tx T t units at =
     (if units = 0 then return_tx ()
      else case te_period t of
        None \<Rightarrow> fail_tx (Internal ''Share quota period missing'')
      | Some period \<Rightarrow> (case te_contract t of
          None \<Rightarrow> fail_tx (Internal ''Share quota contract missing'')
        | Some contract \<Rightarrow>
           bind_tx (read_tx (\<lambda>s. case find (\<lambda>p. sv_id p = period \<and> sv_contract p = contract) (platform_periods s) of
               None \<Rightarrow> Inl (db_error ''read Share quantity delivery funding'' QueryReturnedNoRows)
             | Some p \<Rightarrow> Inr p)) (\<lambda>p.
           bind_tx (existing_slice_tx ''share_quota'' (te_id t) (te_buyer t) (te_provider t) units) (\<lambda>existing.
           case existing of
             Some _ \<Rightarrow> return_tx ()
           | None \<Rightarrow>
              bind_tx (lift_tx (validate_slice T ''share'' (sv_period_start p) (te_cutoff_at t) units)) (\<lambda>_.
              bind_tx (liability_balance_tx ''unfulfilled'' period) (\<lambda>balance.
              bind_tx (require_tx (units \<le> balance) (Conflict ''insufficient funded Share quota delivery'')) (\<lambda>_.
              bind_tx (post_journal_tx ''share_quota'' (te_id t) ''earn'' (period @ '':'' @ show_int units)
                  (earn_postings period (te_provider t) units) at) (\<lambda>j.
              bind_tx (require_tx (jr_inserted j) (Internal ''Share quota earning evidence missing'')) (\<lambda>_.
              bind_tx (insert_slice_and_lot_tx T ''share'' contract ''share_quota'' (te_id t) (Some period) (te_buyer t)
                  (te_provider t) (sv_period_start p) (te_cutoff_at t) units (sv_debit_journal p) (jr_id j)
                  (sv_debited_at p) at) (\<lambda>_. return_tx ()))))))))))"


section \<open>Holds\<close>

definition has_active_hold :: "'a market_db_scheme \<Rightarrow> string \<Rightarrow> bool" where
  "has_active_hold s lot \<longleftrightarrow> (\<exists>h \<in> set (earning_holds s). eh_lot h = lot \<and> eh_released_at h = None)"

definition recompute_lot_holds_tx :: "string \<Rightarrow> string list \<Rightarrow> ('a market_db_scheme, unit) tx" where
  "recompute_lot_holds_tx ctx ids s =
     bind_tx (update_lots_tx ctx (\<lambda>l. l_id l \<in> set ids) (\<lambda>l. l\<lparr>l_disputed := has_active_hold s (l_id l)\<rparr>))
       (\<lambda>_. return_tx ()) s"

definition held_by_provider :: "string list \<Rightarrow> string \<Rightarrow> 'a market_db_scheme \<Rightarrow> int list" where
  "held_by_provider ids provider s =
     map (\<lambda>l. l_net l - l_reversed l - l_paid l - l_converted l)
       (filter (\<lambda>l. l_id l \<in> set ids \<and> l_provider l = provider) (lots s))"

definition held_recipients_tx :: "string list \<Rightarrow> ('a market_db_scheme, (string \<times> int) list) tx" where
  "held_recipients_tx ids = read_tx (\<lambda>s.
     let providers = remdups (map l_provider (filter (\<lambda>l. l_id l \<in> set ids) (lots s)));
         sums = map (\<lambda>p. (p, sql_sum (held_by_provider ids p s))) providers
     in if \<exists>(_, x) \<in> set sums. x = None
        then Inl (db_error ''read held earning recipients'' (Database ''integer overflow''))
        else Inr (map (\<lambda>(p, x). (p, the x)) sums))"

fun notify_held_tx :: "(string \<times> int) list \<Rightarrow> string \<Rightarrow> string \<Rightarrow> string \<Rightarrow> ('a market_db_scheme, unit) tx" where
  "notify_held_tx [] reason_kind reason_ref time = return_tx ()"
| "notify_held_tx ((provider, units) # rest) reason_kind reason_ref time =
     bind_tx (enqueue_user_notification_tx ''provider'' provider ''earnings_held'' ''earning_hold'' reason_ref
         (''earnings_held:'' @ reason_kind @ '':'' @ reason_ref @ '':'' @ provider)
         (JObject [(''reason'', JString reason_kind), (''amountMinor'', JNumber (units div MONEY_UNITS_PER_MINOR))]) time)
       (\<lambda>_. notify_held_tx rest reason_kind reason_ref time)"

definition notify_providers_for_lots_tx ::
  "string list \<Rightarrow> string \<Rightarrow> string \<Rightarrow> string \<Rightarrow> ('a market_db_scheme, unit) tx"
where
  "notify_providers_for_lots_tx ids reason_kind reason_ref time =
     bind_tx (held_recipients_tx ids) (\<lambda>providers. notify_held_tx providers reason_kind reason_ref time)"

definition contract_lots :: "string \<Rightarrow> 'a market_db_scheme \<Rightarrow> string list" where
  "contract_lots contract s =
     map l_id (filter (\<lambda>l. \<exists>d \<in> set (slices s). ds_id d = l_slice l \<and> ds_contract d = contract) (lots s))"

definition hold_contract_earnings_tx :: "string \<Rightarrow> string \<Rightarrow> string \<Rightarrow> ('a market_db_scheme, unit) tx" where
  "hold_contract_earnings_tx contract_id reason_kind time =
     bind_tx (gets_tx (contract_lots contract_id)) (\<lambda>ids.
     bind_tx (insert_earning_holds_tx ids reason_kind contract_id time) (\<lambda>inserted.
     bind_tx (recompute_lot_holds_tx ''recompute Provider earning holds'' ids) (\<lambda>_.
     if 0 < inserted then notify_providers_for_lots_tx ids reason_kind contract_id time else return_tx ())))"

definition dispute_lot_ids :: "string \<Rightarrow> 'a market_db_scheme \<Rightarrow> string list" where
  "dispute_lot_ids dispute s = map snd (filter (\<lambda>(d, _). d = dispute) (dispute_lots s))"

definition hold_dispute_earnings_tx :: "string \<Rightarrow> string \<Rightarrow> ('a market_db_scheme, unit) tx" where
  "hold_dispute_earnings_tx dispute_id time =
     bind_tx (gets_tx (dispute_lot_ids dispute_id)) (\<lambda>ids.
     bind_tx (insert_earning_holds_tx ids ''dispute'' dispute_id time) (\<lambda>_.
     bind_tx (recompute_lot_holds_tx ''recompute Provider earning holds'' ids) (\<lambda>_.
     notify_providers_for_lots_tx ids ''dispute'' dispute_id time)))"

definition active_hold_of :: "string \<Rightarrow> string \<Rightarrow> earning_hold_row \<Rightarrow> bool" where
  "active_hold_of reason_kind reason_ref h \<longleftrightarrow>
     eh_reason_kind h = reason_kind \<and> eh_reason_ref h = reason_ref \<and> eh_released_at h = None"

definition release_holds_update_tx ::
  "string \<Rightarrow> string \<Rightarrow> string \<Rightarrow> string \<Rightarrow> string \<Rightarrow> ('a market_db_scheme, nat) tx"
where
  "release_holds_update_tx reason_kind reason_ref actor release_reason time s =
     Inr (length (filter (active_hold_of reason_kind reason_ref) (earning_holds s)),
          s\<lparr>earning_holds := map (\<lambda>h. if active_hold_of reason_kind reason_ref h
              then h\<lparr>eh_released_at := Some time, eh_released_by := Some actor, eh_release_reason := Some release_reason\<rparr>
              else h) (earning_holds s)\<rparr>)"

definition released_lots :: "string \<Rightarrow> string \<Rightarrow> string \<Rightarrow> string \<Rightarrow> 'a market_db_scheme \<Rightarrow> string list" where
  "released_lots reason_kind reason_ref actor time s =
     map eh_lot (filter (\<lambda>h. eh_reason_kind h = reason_kind \<and> eh_reason_ref h = reason_ref
       \<and> eh_released_by h = Some actor \<and> eh_released_at h = Some time) (earning_holds s))"

fun notify_released_tx :: "string list \<Rightarrow> string \<Rightarrow> string \<Rightarrow> string \<Rightarrow> ('a market_db_scheme, unit) tx" where
  "notify_released_tx [] reason_kind reason_ref time = return_tx ()"
| "notify_released_tx (provider # rest) reason_kind reason_ref time =
     bind_tx (enqueue_user_notification_tx ''provider'' provider ''earnings_released'' ''earning_hold'' reason_ref
         (''earnings_released:'' @ reason_kind @ '':'' @ reason_ref @ '':'' @ provider @ '':'' @ time)
         (JObject [(''reason'', JString reason_kind)]) time)
       (\<lambda>_. notify_released_tx rest reason_kind reason_ref time)"

definition release_earning_holds_tx ::
  "string \<Rightarrow> string \<Rightarrow> string \<Rightarrow> string \<Rightarrow> string \<Rightarrow> ('a market_db_scheme, nat) tx"
where
  "release_earning_holds_tx reason_kind reason_ref actor release_reason time =
     bind_tx (release_holds_update_tx reason_kind reason_ref actor release_reason time) (\<lambda>released.
     if released = 0 then return_tx 0
     else bind_tx (gets_tx (released_lots reason_kind reason_ref actor time)) (\<lambda>ids.
       bind_tx (recompute_lot_holds_tx ''recompute released Provider earnings'' ids) (\<lambda>_.
       bind_tx (gets_tx (\<lambda>s. remdups (map l_provider (filter (\<lambda>l. l_id l \<in> set ids \<and> \<not> l_disputed l) (lots s))))) (\<lambda>providers.
       bind_tx (notify_released_tx providers reason_kind reason_ref time) (\<lambda>_.
       return_tx released)))))"

definition hold_failed_unlock_tx :: "time_lib \<Rightarrow> string \<Rightarrow> string \<Rightarrow> ('a market_db_scheme, unit) tx" where
  "hold_failed_unlock_tx T lot_id time =
     bind_tx (insert_earning_holds_tx [lot_id] ''manual'' lot_id time) (\<lambda>_.
     bind_tx (recompute_lot_holds_tx ''recompute Provider earning holds'' [lot_id]) (\<lambda>_.
     bind_tx new_v4 (\<lambda>cid.
     bind_tx (insert_case_tx \<lparr>rc_id = cid, rc_code = ''earning_unlock_failed'', rc_object_kind = ''earning_lot'',
         rc_object_id = lot_id, rc_open = True, rc_created_at = time\<rparr>) (\<lambda>_.
     owner_signal_tx T ''earning_unlock_failed'' ''earning_lot'' lot_id (JObject [(''lotId'', JString lot_id)]) time False))))"

definition hold_kind_for_case :: "string \<Rightarrow> string option" where
  "hold_kind_for_case code =
     (if code = ''wallet_cleanup_uncertain'' then Some ''cleanup_uncertain''
      else if code = ''wallet_service_missing'' then Some ''service_missing''
      else None)"


section \<open>Views\<close>

record earning_hold_view =
  hv_reason_kind :: string
  hv_reason_ref :: string
  hv_provider_user_id :: string
  hv_lots :: int
  hv_held_units :: int
  hv_created_at :: string

definition active_hold_rows :: "string option \<Rightarrow> 'a market_db_scheme \<Rightarrow> (earning_hold_row \<times> lot_row) list" where
  "active_hold_rows provider s =
     concat (map (\<lambda>h. map (Pair h) (filter (\<lambda>l. l_id l = eh_lot h \<and> (provider = None \<or> provider = Some (l_provider l)))
                                     (lots s)))
       (filter (\<lambda>h. eh_released_at h = None) (earning_holds s)))"

definition hold_group :: "earning_hold_row \<times> lot_row \<Rightarrow> string \<times> string \<times> string" where
  "hold_group = (\<lambda>(h, l). (eh_reason_kind h, eh_reason_ref h, l_provider l))"

definition min_text :: "string list \<Rightarrow> string" where
  "min_text xs = (case first_by (<) xs of None \<Rightarrow> [] | Some x \<Rightarrow> x)"

definition hold_view ::
  "(earning_hold_row \<times> lot_row) list \<Rightarrow> string \<times> string \<times> string \<Rightarrow> earning_hold_view option"
where
  "hold_view rows = (\<lambda>(k, r, p).
     let mine = filter (\<lambda>x. hold_group x = (k, r, p)) rows
     in map_option (\<lambda>units. \<lparr>hv_reason_kind = k, hv_reason_ref = r, hv_provider_user_id = p, hv_lots = int (length mine),
            hv_held_units = units, hv_created_at = min_text (map (eh_created_at \<circ> fst) mine)\<rparr>)
          (sql_sum (map (\<lambda>(h, l). l_net l - l_reversed l - l_paid l - l_converted l) mine)))"

definition active_earning_holds_tx :: "string option \<Rightarrow> ('a market_db_scheme, earning_hold_view list) tx" where
  "active_earning_holds_tx provider_user_id = read_tx (\<lambda>s.
     let rows = active_hold_rows provider_user_id s;
         views = map (hold_view rows) (remdups (map hold_group rows))
     in if None \<in> set views then Inl (db_error ''query earning holds'' (Database ''integer overflow''))
        else Inr (take 500 (sort_key hv_created_at (map the views))))"

record provider_finance_summary =
  fs_converted :: int
  fs_gross_earned :: int
  fs_commission :: int
  fs_net_earned :: int
  fs_pending :: int
  fs_available :: int
  fs_withdrawable :: int
  fs_withdrawal_held :: int
  fs_paid :: int

definition provider_lots :: "string \<Rightarrow> 'a market_db_scheme \<Rightarrow> lot_row list" where
  "provider_lots provider s = filter (\<lambda>l. l_provider l = provider) (lots s)"

definition sum_tx :: "string \<Rightarrow> ('s \<Rightarrow> int list) \<Rightarrow> ('s, int) tx" where
  "sum_tx ctx f = read_tx (\<lambda>s. case sql_sum (f s) of
     None \<Rightarrow> Inl (db_error ctx (Database ''integer overflow'')) | Some v \<Rightarrow> Inr v)"

definition lots_summary_tx :: "string \<Rightarrow> ('a market_db_scheme, provider_finance_summary) tx" where
  "lots_summary_tx provider =
     (let total = (\<lambda>f. sum_tx ''read Provider finance summary'' (\<lambda>s. map f (provider_lots provider s))) in
     bind_tx (total (\<lambda>l. l_net l - l_reversed l - l_unlocked l)) (\<lambda>pending.
     bind_tx (total (\<lambda>l. l_unlocked l - l_held l - l_paid l - l_converted l)) (\<lambda>available.
     bind_tx (total (\<lambda>l. if l_disputed l then 0 else l_unlocked l - l_held l - l_paid l - l_converted l)) (\<lambda>withdrawable.
     bind_tx (total l_held) (\<lambda>held.
     bind_tx (total l_paid) (\<lambda>paid.
     bind_tx (total (\<lambda>l. l_amount l - l_reversed l - l_commission_reversed l)) (\<lambda>gross.
     bind_tx (total (\<lambda>l. l_commission l - l_commission_reversed l)) (\<lambda>commission.
     bind_tx (total (\<lambda>l. l_net l - l_reversed l)) (\<lambda>net.
     bind_tx (total l_converted) (\<lambda>converted.
     return_tx \<lparr>fs_converted = converted, fs_gross_earned = gross, fs_commission = commission, fs_net_earned = net,
       fs_pending = pending, fs_available = available, fs_withdrawable = withdrawable,
       fs_withdrawal_held = held, fs_paid = paid\<rparr>))))))))))"

text \<open>Adding in an i64: an overflow wraps in a release build.\<close>

definition wrap_i64 :: "int \<Rightarrow> int" where
  "wrap_i64 n = (n + 2 ^ 63) mod 2 ^ 64 - 2 ^ 63"

definition add_income :: "int \<Rightarrow> int \<Rightarrow> int \<Rightarrow> provider_finance_summary \<Rightarrow> provider_finance_summary" where
  "add_income gross pending credited v =
     v\<lparr>fs_gross_earned := wrap_i64 (fs_gross_earned v + gross), fs_net_earned := wrap_i64 (fs_net_earned v + gross),
       fs_pending := wrap_i64 (fs_pending v + pending), fs_converted := wrap_i64 (fs_converted v + credited)\<rparr>"

definition provider_summary_tx :: "string \<Rightarrow> ('a market_db_scheme, provider_finance_summary) tx" where
  "provider_summary_tx provider_user_id =
     (let client = (\<lambda>f. sum_tx ''read Client compensation summary''
            (\<lambda>s. map f (filter (\<lambda>c. cm_provider c = provider_user_id) (compensations s))));
          share = (\<lambda>f. sum_tx ''read Share compensation summary''
            (\<lambda>s. map f (filter (\<lambda>i. si_provider i = provider_user_id) (share_income s)))) in
     bind_tx (lots_summary_tx provider_user_id) (\<lambda>summary.
     bind_tx (client (\<lambda>c. cm_amount c - cm_reversed c)) (\<lambda>gross.
     bind_tx (client (\<lambda>c. cm_amount c - cm_reversed c - cm_credited c)) (\<lambda>pending.
     bind_tx (client cm_credited) (\<lambda>credited.
     bind_tx (share (\<lambda>i. si_amount i - si_commission i)) (\<lambda>gross'.
     bind_tx (share (\<lambda>i. si_amount i - si_commission i - si_credited i)) (\<lambda>pending'.
     bind_tx (share si_credited) (\<lambda>credited'.
     return_tx (add_income gross' pending' credited' (add_income gross pending credited summary))))))))))"


section \<open>Unlocking\<close>

definition unlock_postings :: "string \<Rightarrow> string \<Rightarrow> int \<Rightarrow> int \<Rightarrow> posting list" where
  "unlock_postings lot provider units fee =
     (if 0 < units then [\<lparr>p_kind = ''provider_pending'', p_subject = provider, p_units = units\<rparr>,
                         \<lparr>p_kind = ''provider_available'', p_subject = provider, p_units = - units\<rparr>] else [])
     @ (if 0 < fee then [\<lparr>p_kind = ''platform_commission_pending'', p_subject = lot, p_units = fee\<rparr>,
                         \<lparr>p_kind = ''platform_commission_revenue'', p_subject = lot, p_units = - fee\<rparr>] else [])"

definition pending_fee :: "lot_row \<Rightarrow> int" where
  "pending_fee l = l_commission l - l_commission_reversed l - l_commission_unlocked l"

definition pending_net :: "lot_row \<Rightarrow> int" where
  "pending_net l = l_net l - l_reversed l - l_unlocked l"

definition unlock_lot_tx ::
  "string \<Rightarrow> string \<Rightarrow> int \<Rightarrow> string \<Rightarrow> string \<Rightarrow> ('a market_db_scheme, unit) tx"
where
  "unlock_lot_tx lot provider units maturity at =
     bind_tx (lot_evidence_valid_tx lot) (\<lambda>valid.
     bind_tx (require_tx valid (Internal ''commission evidence requires Owner review'')) (\<lambda>_.
     bind_tx (read_tx (\<lambda>s. case find_lot lot s of
         None \<Rightarrow> Inl (db_error ''read pending commission maturity'' QueryReturnedNoRows)
       | Some l \<Rightarrow> Inr (pending_fee l))) (\<lambda>fee.
     bind_tx (post_journal_tx ''earning_lot'' lot ''unlock''
         (provider @ '':'' @ show_int units @ '':'' @ maturity @ '':commission='' @ show_int fee)
         (unlock_postings lot provider units fee) at) (\<lambda>journal.
     bind_tx (require_tx (jr_inserted journal) (Internal ''earning lot unlock projection drift'')) (\<lambda>_.
     bind_tx (update_lots_tx ''unlock Provider earning''
         (\<lambda>l. l_id l = lot \<and> \<not> l_disputed l \<and> pending_net l = units \<and> pending_fee l = fee)
         (\<lambda>l. l\<lparr>l_unlocked := l_unlocked l + units, l_commission_unlocked := l_commission_unlocked l + fee\<rparr>)) (\<lambda>changed.
     require_tx (changed = 1) (Conflict ''Provider earning changed during unlock'')))))))"

definition due_lots :: "int \<Rightarrow> 'a market_db_scheme \<Rightarrow> lot_row list" where
  "due_lots limit s =
     take (nat (max 1 (min limit 1000)))
       (sort_key l_unlock_at (sort_key l_id
         (filter (\<lambda>l. \<not> l_disputed l \<and> 0 < pending_net l + pending_fee l) (lots s))))"

text \<open>A savepoint per lot: a failure undoes the lot's changes and holds it instead.\<close>

definition try_unlock_tx :: "time_lib \<Rightarrow> lot_row \<Rightarrow> string \<Rightarrow> ('a market_db_scheme, nat) tx" where
  "try_unlock_tx T l at s =
     (case unlock_lot_tx (l_id l) (l_provider l) (pending_net l) (l_unlock_at l) at s of
        Inr (_, t) \<Rightarrow> Inr (1, t)
      | Inl _ \<Rightarrow> bind_tx (hold_failed_unlock_tx T (l_id l) at) (\<lambda>_. return_tx 0) s)"

fun unlock_rows_tx :: "time_lib \<Rightarrow> lot_row list \<Rightarrow> int \<Rightarrow> string \<Rightarrow> ('a market_db_scheme, nat) tx" where
  "unlock_rows_tx T [] at_utc at = return_tx 0"
| "unlock_rows_tx T (l # rest) at_utc at =
     bind_tx (lift_tx (parse_utc T (l_unlock_at l))) (\<lambda>maturity.
     if at_utc < maturity then unlock_rows_tx T rest at_utc at
     else bind_tx (try_unlock_tx T l at) (\<lambda>n.
          bind_tx (unlock_rows_tx T rest at_utc at) (\<lambda>m. return_tx (n + m))))"

definition unlock_due_earnings_isolated :: "time_lib \<Rightarrow> string \<Rightarrow> int \<Rightarrow> ('a market_db_scheme, nat) tx" where
  "unlock_due_earnings_isolated T at limit =
     bind_tx (lift_tx (parse_utc T at)) (\<lambda>at_utc.
     bind_tx (gets_tx (due_lots limit)) (\<lambda>rows.
     unlock_rows_tx T rows at_utc at))"

end
