(* ===== verification/Service_Disputes.thy ===== *)
theory Service_Disputes
  imports Market_Finance
begin

text \<open>
  Disputes of wallet-funded service (\<open>src/src/market_service_disputes.rs\<close>): a dispute
  freezes the earning lots of a contract, and the Owner resolves it with a refund that
  is split between the Provider's net and the platform's fee at the lot's original
  ratio. The HTTP handlers are not modelled; the finance-safety check of
  \<open>src/src/market_reconcile.rs\<close> is an argument.
\<close>


section \<open>How much of a lot can be refunded\<close>

definition is_ascii_lowercase :: "char \<Rightarrow> bool" where
  "is_ascii_lowercase c \<longleftrightarrow> 97 \<le> (of_char c :: nat) \<and> (of_char c :: nat) \<le> 122"

definition validate_reason_code :: "string \<Rightarrow> unit result" where
  "validate_reason_code v =
     (if v = [] \<or> 80 < length v \<or> \<not> list_all (\<lambda>c. is_ascii_lowercase c \<or> is_ascii_digit c \<or> c = CHR ''_'') v
      then Inl (BadRequest ''invalid dispute reason code'') else Inr ())"

record refundable_lot =
  rl_id :: string
  rl_amount :: int
  rl_reversed :: int
  rl_unlocked :: int
  rl_held :: int
  rl_paid :: int
  rl_converted :: int
  rl_fee :: int
  rl_fee_reversed :: int
  rl_fee_unlocked :: int

definition rl_net :: "refundable_lot \<Rightarrow> int" where
  "rl_net l = rl_amount l - rl_fee l"

definition refunded_gross :: "refundable_lot \<Rightarrow> int" where
  "refunded_gross l = rl_reversed l + rl_fee_reversed l"

definition split_refund :: "refundable_lot \<Rightarrow> int \<Rightarrow> int \<times> int" where
  "split_refund l gross =
     (let cumulative = refunded_gross l + gross;
          total_fee = (cumulative * rl_fee l + rl_amount l div 2) div rl_amount l;
          fee = total_fee - rl_fee_reversed l
      in (gross - fee, fee))"

text \<open>The binary search for the largest gross whose net part is still there.\<close>

function refund_search :: "(int \<Rightarrow> bool) \<Rightarrow> int \<Rightarrow> int \<Rightarrow> int" where
  "refund_search fits low high =
     (if low < high
      then let mid = low + (high - low) div 2 + (high - low) mod 2
           in if fits mid then refund_search fits mid high else refund_search fits low (mid - 1)
      else low)"
  by pat_completeness auto
termination
  by (relation "measure (\<lambda>(_, low, high). nat (high - low))") (auto simp: Let_def, presburger)

declare refund_search.simps [simp del]

definition refund_capacity :: "refundable_lot \<Rightarrow> int" where
  "refund_capacity l = rl_net l - rl_reversed l - rl_held l - rl_paid l - rl_converted l"

definition refundable_gross :: "refundable_lot \<Rightarrow> int" where
  "refundable_gross l =
     refund_search (\<lambda>mid. fst (split_refund l mid) \<le> refund_capacity l) 0 (rl_amount l - refunded_gross l)"

definition refundable_of :: "lot_row \<Rightarrow> refundable_lot" where
  "refundable_of l = \<lparr>rl_id = l_id l, rl_amount = l_amount l, rl_reversed = l_reversed l, rl_unlocked = l_unlocked l,
     rl_held = l_held l, rl_paid = l_paid l, rl_converted = l_converted l, rl_fee = l_commission l,
     rl_fee_reversed = l_commission_reversed l, rl_fee_unlocked = l_commission_unlocked l\<rparr>"

text \<open>ORDER BY slice.ended_at DESC, lot.id DESC over the lots registered for the dispute.\<close>

definition dispute_scope :: "string \<Rightarrow> 'a market_db_scheme \<Rightarrow> (slice_row \<times> lot_row) list" where
  "dispute_scope dispute s =
     concat (map (\<lambda>lot. concat (map (\<lambda>l. map (\<lambda>d. (d, l)) (filter (\<lambda>d. ds_id d = l_slice l) (slices s)))
         (filter (\<lambda>l. l_id l = lot) (lots s)))) (dispute_lot_ids dispute s))"

definition refundable_lots :: "string \<Rightarrow> 'a market_db_scheme \<Rightarrow> refundable_lot list" where
  "refundable_lots dispute s =
     map (\<lambda>(d, l). refundable_of l)
       (rev (sort_key (\<lambda>(d, l). ds_ended_at d) (sort_key (\<lambda>(d, l). l_id l) (dispute_scope dispute s))))"

definition checked_sum :: "string \<Rightarrow> int list \<Rightarrow> int result" where
  "checked_sum msg xs =
     fold (\<lambda>x acc. case acc of Inl e \<Rightarrow> Inl e
       | Inr a \<Rightarrow> (case checked_add64 a x of None \<Rightarrow> Inl (Internal msg) | Some v \<Rightarrow> Inr v)) xs (Inr 0)"


section \<open>Opening a dispute\<close>

record dispute_view =
  dv_row :: dispute_row
  dv_refundable_units :: int

definition dispute_view_tx :: "string \<Rightarrow> ('a market_db_scheme, dispute_view) tx" where
  "dispute_view_tx dispute = read_tx (\<lambda>s.
     case find (\<lambda>d. sd_id d = dispute) (service_disputes s) of
       None \<Rightarrow> Inl (db_error ''read service dispute'' QueryReturnedNoRows)
     | Some d \<Rightarrow>
        (case checked_sum ''service refund capacity overflow'' (map refundable_gross (refundable_lots dispute s)) of
           Inl e \<Rightarrow> Inl e | Inr units \<Rightarrow> Inr \<lparr>dv_row = d, dv_refundable_units = units\<rparr>))"

definition resolved_disputes :: "string \<Rightarrow> 'a market_db_scheme \<Rightarrow> dispute_row list" where
  "resolved_disputes contract s = filter (\<lambda>d. sd_contract d = contract \<and> \<not> sd_open d) (service_disputes s)"

definition later_resolution :: "time_lib \<Rightarrow> dispute_row \<Rightarrow> dispute_row \<Rightarrow> bool" where
  "later_resolution T d e \<longleftrightarrow>
     (case (Option.bind (sd_resolved_at d) (julianday T), Option.bind (sd_resolved_at e) (julianday T)) of
        (Some x, Some y) \<Rightarrow> y < x \<or> (x = y \<and> sd_id e < sd_id d)
      | (Some _, None) \<Rightarrow> True
      | (None, None) \<Rightarrow> sd_id e < sd_id d
      | (None, Some _) \<Rightarrow> False)"

definition protected_resolution :: "time_lib \<Rightarrow> string \<Rightarrow> 'a market_db_scheme \<Rightarrow> dispute_row option" where
  "protected_resolution T contract s =
     first_by (later_resolution T) (filter (\<lambda>d. sd_refunded d = 0) (resolved_disputes contract s))"

definition after_resolution :: "time_lib \<Rightarrow> string option \<Rightarrow> slice_row \<Rightarrow> bool" where
  "after_resolution T resolved_at d =
     (case resolved_at of None \<Rightarrow> True | Some at \<Rightarrow> jd_less T at (ds_created_at d))"

definition outstanding :: "lot_row \<Rightarrow> bool" where
  "outstanding l \<longleftrightarrow> l_reversed l + l_commission_reversed l < l_amount l"

definition disputable_lots :: "time_lib \<Rightarrow> string \<Rightarrow> string option \<Rightarrow> 'a market_db_scheme \<Rightarrow> string list" where
  "disputable_lots T contract resolved_at s =
     map l_id (filter (\<lambda>l. outstanding l
       \<and> (\<exists>d \<in> set (slices s). ds_id d = l_slice l \<and> ds_contract d = contract \<and> after_resolution T resolved_at d)) (lots s))"

definition insert_scope_tx :: "string \<Rightarrow> string list \<Rightarrow> ('a market_db_scheme, unit) tx" where
  "insert_scope_tx dispute ids s =
     (if \<exists>lot \<in> set ids. (dispute, lot) \<in> set (dispute_lots s)
      then Inl (db_error ''record earnings frozen by service dispute'' (Database ''market_service_dispute_lots''))
      else Inr ((), s\<lparr>dispute_lots := dispute_lots s @ map (Pair dispute) ids\<rparr>))"

definition check_reopen_tx :: "time_lib \<Rightarrow> string \<Rightarrow> ('a market_db_scheme, string option) tx" where
  "check_reopen_tx T contract_id = read_tx (\<lambda>s.
     case protected_resolution T contract_id s of
       Some d \<Rightarrow>
         (case sd_resolved_at d of
            None \<Rightarrow> Inl (db_error ''read protected service dispute resolution'' (InvalidColumnType 0))
          | Some at \<Rightarrow>
             if \<not> (\<exists>x \<in> set (slices s). ds_contract x = contract_id \<and> jd_less T at (ds_created_at x))
             then Inl (Conflict ''service dispute was already reviewed; new delivery is required to reopen it'')
             else if disputable_lots T contract_id (Some at) s = []
             then Inl (Conflict ''service earnings were fully refunded; new delivery is required to reopen a dispute'')
             else Inr (Some at))
     | None \<Rightarrow>
        if resolved_disputes contract_id s \<noteq> [] \<and> disputable_lots T contract_id None s = []
        then Inl (Conflict ''service earnings were fully refunded; new delivery is required to reopen a dispute'')
        else Inr None)"

definition open_dispute_tx ::
  "time_lib \<Rightarrow> string \<Rightarrow> string \<Rightarrow> string \<Rightarrow> string \<Rightarrow> ('a market_db_scheme, dispute_view) tx"
where
  "open_dispute_tx T contract_id buyer reason time =
     bind_tx (lift_tx (validate_reason_code reason)) (\<lambda>_.
     bind_tx (read_tx (\<lambda>s. case find (\<lambda>c. pc_id c = contract_id) (platform_contracts s) of
         None \<Rightarrow> Inl (db_error ''read disputed wallet contract'' QueryReturnedNoRows) | Some c \<Rightarrow> Inr c)) (\<lambda>c.
     bind_tx (require_tx (pc_buyer c = buyer) (Forbidden ''wallet contract belongs to another buyer'')) (\<lambda>_.
     bind_tx (require_tx (pc_status c \<notin> {''pending_activation'', ''activation_failed'', ''trialing''})
         (Conflict ''wallet contract has no paid service to dispute'')) (\<lambda>_.
     bind_tx (gets_tx (\<lambda>s. find (\<lambda>d. sd_contract d = contract_id \<and> sd_open d) (service_disputes s))) (\<lambda>existing.
     case existing of
       Some d \<Rightarrow>
         bind_tx (require_tx (sd_reason_code d = reason) (Conflict ''service dispute is already open'')) (\<lambda>_.
         dispute_view_tx (sd_id d))
     | None \<Rightarrow>
        bind_tx (check_reopen_tx T contract_id) (\<lambda>latest_resolution.
        bind_tx new_v4 (\<lambda>did.
        bind_tx (insert_dispute_tx \<lparr>sd_id = did, sd_contract = contract_id, sd_buyer = buyer,
            sd_provider = pc_provider c, sd_reason_code = reason, sd_open = True, sd_resolution_code = None,
            sd_refunded = 0, sd_version = 1, sd_created_at = time, sd_resolved_at = None\<rparr>) (\<lambda>_.
        bind_tx (gets_tx (disputable_lots T contract_id latest_resolution)) (\<lambda>ids.
        bind_tx (insert_scope_tx did ids) (\<lambda>_.
        bind_tx (hold_dispute_earnings_tx did time) (\<lambda>_.
        bind_tx new_v4 (\<lambda>aid.
        bind_tx (insert_audit_tx ''audit service dispute opening'' \<lparr>au_id = aid, au_actor = buyer, au_action = ''open'',
            au_object_kind = ''service_dispute'', au_object_id = did, au_reason_code = reason, au_created_at = time\<rparr>) (\<lambda>_.
        dispute_view_tx did)))))))))))))"


section \<open>Resolving a dispute\<close>

definition refund_part_tx ::
  "string \<Rightarrow> int \<Rightarrow> string \<Rightarrow> string \<Rightarrow> string \<Rightarrow> string \<Rightarrow> string \<Rightarrow> string \<Rightarrow> ('a market_db_scheme, unit) tx"
where
  "refund_part_tx buyer units kind subject dispute_id action msg time =
     (if units \<le> 0 then return_tx ()
      else bind_tx (credit_wallet_from_liability_tx buyer units kind subject ''service_dispute'' dispute_id action time)
             (\<lambda>journal. require_tx (jr_inserted journal) (Internal msg)))"

text \<open>A fee of zero is skipped; any other is refunded (a negative one is refused by the wallet).\<close>

definition refund_fee_tx ::
  "dispute_row \<Rightarrow> refundable_lot \<Rightarrow> int \<Rightarrow> string \<Rightarrow> string \<Rightarrow> string \<Rightarrow> ('a market_db_scheme, unit) tx"
where
  "refund_fee_tx d l fee kind action time =
     (if fee = 0 then return_tx ()
      else bind_tx (credit_wallet_from_liability_tx (sd_buyer d) fee kind (rl_id l) ''service_dispute'' (sd_id d)
             (action @ '':'' @ rl_id l) time)
             (\<lambda>journal. require_tx (jr_inserted journal) (Internal ''commission refund journal already exists'')))"

definition reverse_lot_tx ::
  "refundable_lot \<Rightarrow> int \<Rightarrow> int \<Rightarrow> int \<Rightarrow> int \<Rightarrow> ('a market_db_scheme, nat) tx"
where
  "reverse_lot_tx l net_taken from_available fee_taken fee_from_revenue =
     update_lots_tx ''reverse disputed Provider earning''
       (\<lambda>x. l_id x = rl_id l \<and> l_amount x = rl_amount l \<and> l_reversed x = rl_reversed l \<and> l_unlocked x = rl_unlocked l
          \<and> l_held x = rl_held l \<and> l_paid x = rl_paid l \<and> l_disputed x \<and> l_converted x = rl_converted l)
       (\<lambda>x. x\<lparr>l_reversed := l_reversed x + net_taken, l_unlocked := l_unlocked x - from_available,
              l_commission_reversed := l_commission_reversed x + fee_taken,
              l_commission_unlocked := l_commission_unlocked x - fee_from_revenue\<rparr>)"

definition refund_lot_tx ::
  "dispute_row \<Rightarrow> refundable_lot \<Rightarrow> int \<Rightarrow> string \<Rightarrow> ('a market_db_scheme, unit) tx"
where
  "refund_lot_tx d l taken time =
     (let (net_taken, fee_taken) = split_refund l taken;
          from_pending = min net_taken (rl_net l - rl_reversed l - rl_unlocked l);
          from_available = min (net_taken - from_pending) (rl_unlocked l - rl_held l - rl_paid l - rl_converted l);
          fee_from_pending = min fee_taken (rl_fee l - rl_fee_reversed l - rl_fee_unlocked l);
          fee_from_revenue = fee_taken - fee_from_pending
      in bind_tx (refund_part_tx (sd_buyer d) from_pending ''provider_pending'' (sd_provider d) (sd_id d)
             (''refund_pending:'' @ rl_id l) ''service refund journal already exists'' time) (\<lambda>_.
         bind_tx (refund_part_tx (sd_buyer d) from_available ''provider_available'' (sd_provider d) (sd_id d)
             (''refund_available:'' @ rl_id l) ''service refund journal already exists'' time) (\<lambda>_.
         bind_tx (refund_fee_tx d l fee_from_pending ''platform_commission_pending'' ''refund_commission_pending'' time) (\<lambda>_.
         bind_tx (refund_fee_tx d l fee_from_revenue ''platform_commission_revenue'' ''refund_commission_revenue'' time) (\<lambda>_.
         bind_tx (reverse_lot_tx l net_taken from_available fee_taken fee_from_revenue) (\<lambda>changed.
         bind_tx (require_tx (changed = 1) (Conflict ''service earning changed during refund'')) (\<lambda>_.
         insert_refund_tx \<lparr>rf_dispute = sd_id d, rf_lot = rl_id l, rf_gross = taken, rf_net = net_taken,
           rf_fee = fee_taken, rf_created_at = time\<rparr>)))))))"

fun refund_lots_tx ::
  "dispute_row \<Rightarrow> refundable_lot list \<Rightarrow> int \<Rightarrow> string \<Rightarrow> ('a market_db_scheme, int) tx"
where
  "refund_lots_tx d [] left time = return_tx left"
| "refund_lots_tx d (l # rest) left time =
     (if left = 0 then return_tx left
      else bind_tx (lot_evidence_valid_tx (rl_id l)) (\<lambda>valid.
           bind_tx (require_tx valid (Conflict ''service commission evidence requires Owner review'')) (\<lambda>_.
           let taken = min left (refundable_gross l)
           in if taken = 0 then refund_lots_tx d rest left time
              else bind_tx (refund_lot_tx d l taken time) (\<lambda>_. refund_lots_tx d rest (left - taken) time))))"

text \<open>A resolved row keeps \<open>version > 0\<close> and \<open>refunded_units >= 0\<close> (the CHECKs).\<close>

definition close_dispute_tx ::
  "string \<Rightarrow> string \<Rightarrow> int \<Rightarrow> int \<Rightarrow> string \<Rightarrow> ('a market_db_scheme, nat) tx"
where
  "close_dispute_tx dispute_id resolution refund_units expected_version time s =
     (let guard = (\<lambda>d. sd_id d = dispute_id \<and> sd_open d \<and> sd_version d = expected_version)
      in if (\<exists>d \<in> set (service_disputes s). guard d) \<and> (refund_units < 0 \<or> expected_version + 1 \<le> 0)
         then Inl (db_error ''resolve service dispute'' (Database ''market_service_disputes''))
         else Inr (length (filter guard (service_disputes s)),
           s\<lparr>service_disputes := map (\<lambda>d. if guard d then d\<lparr>sd_open := False, sd_resolution_code := Some resolution,
             sd_refunded := refund_units, sd_resolved_at := Some time, sd_version := sd_version d + 1\<rparr> else d)
             (service_disputes s)\<rparr>))"

definition refund_amount_ok :: "int \<Rightarrow> bool" where
  "refund_amount_ok units \<longleftrightarrow> 0 \<le> units \<and> (units = 0 \<or> units mod MONEY_UNITS_PER_MINOR = 0)"

text \<open>\<open>finance_safe\<close> is \<open>market_reconcile::ensure_contract_finance_safe_tx\<close>.\<close>

definition resolve_dispute_tx ::
  "(string \<Rightarrow> 'a market_db_scheme \<Rightarrow> unit result) \<Rightarrow> string \<Rightarrow> string \<Rightarrow> int \<Rightarrow> string \<Rightarrow> int \<Rightarrow> string
     \<Rightarrow> ('a market_db_scheme, dispute_view) tx"
where
  "resolve_dispute_tx finance_safe dispute_id owner expected_version resolution refund_units time =
     bind_tx (lift_tx (validate_reason_code resolution)) (\<lambda>_.
     bind_tx (require_tx (refund_amount_ok refund_units) (BadRequest ''service refund must use exact USD cents'')) (\<lambda>_.
     bind_tx (dispute_view_tx dispute_id) (\<lambda>v.
     let d = dv_row v in
     bind_tx (require_tx (sd_open d \<and> sd_version d = expected_version) (Conflict ''service dispute version changed'')) (\<lambda>_.
     bind_tx (read_tx (finance_safe (sd_contract d))) (\<lambda>_.
     bind_tx (gets_tx (refundable_lots dispute_id)) (\<lambda>ls.
     bind_tx (lift_tx (checked_sum ''service refundable balance overflow'' (map refundable_gross ls))) (\<lambda>refundable.
     bind_tx (require_tx (refund_units \<le> refundable) (Conflict ''service adjustment requires Owner review: original Provider net is allocated, paid, or converted; cancel a pending payout or arrange recovery first'')) (\<lambda>_.
     bind_tx (refund_lots_tx d ls refund_units time) (\<lambda>left.
     bind_tx (require_tx (left = 0) (Internal ''service refund allocation drift'')) (\<lambda>_.
     bind_tx (close_dispute_tx dispute_id resolution refund_units expected_version time) (\<lambda>changed.
     bind_tx (require_tx (changed = 1) (Conflict ''service dispute version changed'')) (\<lambda>_.
     bind_tx (release_earning_holds_tx ''dispute'' dispute_id owner resolution time) (\<lambda>_.
     bind_tx new_v4 (\<lambda>aid.
     bind_tx (insert_audit_tx ''audit service dispute resolution'' \<lparr>au_id = aid, au_actor = owner, au_action = ''resolve'',
         au_object_kind = ''service_dispute'', au_object_id = dispute_id, au_reason_code = resolution, au_created_at = time\<rparr>) (\<lambda>_.
     dispute_view_tx dispute_id)))))))))))))))"

end
