(* ===== verification/Refund_Split.thy ===== *)
theory Refund_Split
  imports Service_Disputes
begin

text \<open>
  How a service refund is divided between the Provider's net and the platform's fee
  (\<open>RefundableLot\<close> of \<open>src/src/market_service_disputes.rs\<close>): the fee follows the refunded
  total at the lot's original ratio, rounded half up, so that refunds in any number of
  parts return the same amounts, and the binary search for the capacity is exact.
\<close>


section \<open>The fee that belongs to a refunded total\<close>

definition fee_share :: "int \<Rightarrow> int \<Rightarrow> int \<Rightarrow> int" where
  "fee_share amount fee c = (c * fee + amount div 2) div amount"

lemma fee_share_0 [simp]: "0 < amount \<Longrightarrow> fee_share amount fee 0 = 0"
  by (simp add: fee_share_def)

lemma fee_share_all: "0 < amount \<Longrightarrow> fee_share amount fee amount = fee"
  by (simp add: fee_share_def div_add1_eq)

lemma fee_share_mono: "0 < amount \<Longrightarrow> 0 \<le> fee \<Longrightarrow> c \<le> d \<Longrightarrow> fee_share amount fee c \<le> fee_share amount fee d"
  by (simp add: fee_share_def zdiv_mono1 mult_right_mono)

lemma fee_share_step:
  assumes "0 < amount" "fee \<le> amount" "c \<le> d"
  shows "fee_share amount fee d - fee_share amount fee c \<le> d - c"
proof -
  have "(d - c) * fee \<le> (d - c) * amount" using assms by (simp add: mult_left_mono)
  then have "d * fee + amount div 2 \<le> c * fee + amount div 2 + (d - c) * amount"
    by (simp add: algebra_simps)
  then have "fee_share amount fee d \<le> (c * fee + amount div 2 + (d - c) * amount) div amount"
    unfolding fee_share_def using assms(1) by (rule zdiv_mono1)
  also have "\<dots> = fee_share amount fee c + (d - c)"
    using assms(1) by (simp add: fee_share_def)
  finally show ?thesis by simp
qed

lemma split_refund_share:
  "split_refund l g = (let fee = fee_share (rl_amount l) (rl_fee l) (refunded_gross l + g) - rl_fee_reversed l
                       in (g - fee, fee))"
  by (simp add: split_refund_def fee_share_def Let_def)

lemma refund_share_ok_iff:
  "refund_share_ok l \<longleftrightarrow> fee_share (l_amount l) (l_commission l) (l_reversed l + l_commission_reversed l) = l_commission_reversed l"
  by (simp add: refund_share_ok_def fee_share_def)

lemmas refundable_simps = refundable_of_def refunded_gross_def rl_net_def refund_capacity_def lot_check_def l_net_def

text \<open>The facts about one audited lot that the proofs below share.\<close>

lemma refund_parts:
  assumes "lot_check l" "refund_share_ok l" "0 \<le> g" "g \<le> l_amount l - (l_reversed l + l_commission_reversed l)"
    and sp: "split_refund (refundable_of l) g = (n, f)"
  shows "0 \<le> n" "0 \<le> f" "n + f = g" "l_commission_reversed l + f \<le> l_commission l"
    "fee_share (l_amount l) (l_commission l) (l_reversed l + n + (l_commission_reversed l + f)) = l_commission_reversed l + f"
proof -
  define c where "c = l_reversed l + l_commission_reversed l"
  have sh: "fee_share (l_amount l) (l_commission l) c = l_commission_reversed l"
    using assms(2) by (simp add: refund_share_ok_iff c_def)
  have amt: "0 < l_amount l" "0 \<le> l_commission l" "l_commission l \<le> l_amount l" using assms(1) by (auto simp: lot_check_def)
  have f: "f = fee_share (l_amount l) (l_commission l) (c + g) - l_commission_reversed l" and n: "n = g - f"
    using sp by (auto simp: split_refund_share Let_def refundable_simps c_def)
  show "0 \<le> f" using fee_share_mono [OF amt(1,2), of c "c + g"] assms(3) f sh by simp
  show "0 \<le> n" using fee_share_step [OF amt(1,3), of c "c + g"] assms(3) f n sh by simp
  show "n + f = g" using n by simp
  show "l_commission_reversed l + f \<le> l_commission l"
    using fee_share_mono [OF amt(1,2), of "c + g" "l_amount l"] assms(4) f fee_share_all [OF amt(1)] by (simp add: c_def)
  show "fee_share (l_amount l) (l_commission l) (l_reversed l + n + (l_commission_reversed l + f)) = l_commission_reversed l + f"
  proof -
    have "l_reversed l + n + (l_commission_reversed l + f) = c + g" using n by (simp add: c_def)
    then show ?thesis using f by simp
  qed
qed


section \<open>The binary search\<close>

lemma refund_search_exact:
  assumes "low \<le> high" "\<And>a b. low \<le> a \<Longrightarrow> a \<le> b \<Longrightarrow> b \<le> high \<Longrightarrow> fits b \<Longrightarrow> fits a" "fits low"
  shows "low \<le> refund_search fits low high \<and> refund_search fits low high \<le> high
    \<and> (\<forall>g. low \<le> g \<longrightarrow> g \<le> high \<longrightarrow> (g \<le> refund_search fits low high \<longleftrightarrow> fits g))"
  using assms
proof (induction fits low high rule: refund_search.induct)
  case (1 fits low high)
  define mid where "mid = low + (high - low) div 2 + (high - low) mod 2"
  show ?case
  proof (cases "low < high")
    case False
    then show ?thesis using 1(3-5) by (subst (1 2 3) refund_search.simps) auto
  next
    case True
    then have mid: "low < mid" "mid \<le> high" unfolding mid_def by presburger+
    show ?thesis
    proof (cases "fits mid")
      case fit: True
      have eq: "refund_search fits low high = refund_search fits mid high"
        using True fit by (subst refund_search.simps) (simp add: mid_def Let_def)
      have ih: "mid \<le> refund_search fits mid high \<and> refund_search fits mid high \<le> high
        \<and> (\<forall>g. mid \<le> g \<longrightarrow> g \<le> high \<longrightarrow> (g \<le> refund_search fits mid high \<longleftrightarrow> fits g))"
        using 1(1) [OF True mid_def fit] 1(4) mid fit by (simp add: order_trans)
      have "g \<le> refund_search fits mid high \<and> fits g" if "low \<le> g" "g \<le> mid" for g
        using ih that fit mid 1(4) [of g mid] by auto
      with ih mid eq show ?thesis by (metis linorder_le_cases order_trans less_imp_le)
    next
      case nofit: False
      have eq: "refund_search fits low high = refund_search fits low (mid - 1)"
        using True nofit by (subst refund_search.simps) (simp add: mid_def Let_def)
      have ih: "low \<le> refund_search fits low (mid - 1) \<and> refund_search fits low (mid - 1) \<le> mid - 1
        \<and> (\<forall>g. low \<le> g \<longrightarrow> g \<le> mid - 1 \<longrightarrow> (g \<le> refund_search fits low (mid - 1) \<longleftrightarrow> fits g))"
        using 1(2) [OF True mid_def nofit] 1(4,5) mid by simp
      have "\<not> fits g" if "mid \<le> g" "g \<le> high" for g
        using that nofit mid 1(4) [of mid g] by auto
      with ih mid eq show ?thesis by (smt (verit))
    qed
  qed
qed

lemma refundable_gross_exact:
  assumes "lot_check l" "refund_share_ok l"
  defines "rest \<equiv> l_amount l - (l_reversed l + l_commission_reversed l)"
  shows "0 \<le> refundable_gross (refundable_of l)" "refundable_gross (refundable_of l) \<le> rest"
    "\<And>g. 0 \<le> g \<Longrightarrow> g \<le> rest \<Longrightarrow>
       g \<le> refundable_gross (refundable_of l)
       \<longleftrightarrow> fst (split_refund (refundable_of l) g) \<le> refund_capacity (refundable_of l)"
proof -
  let ?L = "refundable_of l"
  let ?fits = "\<lambda>g. fst (split_refund ?L g) \<le> refund_capacity ?L"
  have rest: "0 \<le> rest" using assms(1) by (auto simp: lot_check_def l_net_def rest_def)
  have amt: "0 < l_amount l" "l_commission l \<le> l_amount l" using assms(1) by (auto simp: lot_check_def)
  have mono: "fst (split_refund ?L a) \<le> fst (split_refund ?L b)" if "a \<le> b" for a b
    using fee_share_step [OF amt, of "l_reversed l + l_commission_reversed l + a" "l_reversed l + l_commission_reversed l + b"] that
    by (simp add: split_refund_share Let_def refundable_simps add.assoc)
  have zero: "?fits 0"
  proof -
    obtain n f where sp: "split_refund ?L 0 = (n, f)" by (cases "split_refund ?L 0")
    have "n = 0" using refund_parts(1-3) [OF assms(1,2) _ _ sp] rest by (simp add: rest_def)
    moreover have "0 \<le> refund_capacity ?L" using assms(1) by (simp add: refundable_simps)
    ultimately show ?thesis using sp by simp
  qed
  have eq: "refundable_gross ?L = refund_search ?fits 0 rest"
    by (simp add: refundable_gross_def refundable_of_def refunded_gross_def rest_def)
  have "0 \<le> refund_search ?fits 0 rest \<and> refund_search ?fits 0 rest \<le> rest
    \<and> (\<forall>g. 0 \<le> g \<longrightarrow> g \<le> rest \<longrightarrow> (g \<le> refund_search ?fits 0 rest \<longleftrightarrow> ?fits g))"
    by (rule refund_search_exact [where fits = ?fits, OF rest _ zero]) (use mono order_trans in blast)
  then show "0 \<le> refundable_gross ?L" "refundable_gross ?L \<le> rest"
    "\<And>g. 0 \<le> g \<Longrightarrow> g \<le> rest \<Longrightarrow> g \<le> refundable_gross ?L \<longleftrightarrow> ?fits g"
    unfolding eq by blast+
qed


section \<open>Properties\<close>

text \<open>
  C10. The search for the refundable gross of an audited lot ends with the exact answer:
  an amount up to what is left of the lot can be refunded, if and only if the Provider's
  part of it at the original ratio is still neither allocated to a payout, nor paid, nor
  converted.
\<close>

theorem refundable_gross_is_capacity:
  assumes "lot_check l" "refund_share_ok l"
    and "0 \<le> g" "g \<le> l_amount l - l_reversed l - l_commission_reversed l"
  shows "g \<le> refundable_gross (refundable_of l)
    \<longleftrightarrow> l_reversed l + fst (split_refund (refundable_of l) g) + l_held l + l_paid l + l_converted l \<le> l_net l"
proof -
  have "g \<le> refundable_gross (refundable_of l)
    \<longleftrightarrow> fst (split_refund (refundable_of l) g) \<le> refund_capacity (refundable_of l)"
    using refundable_gross_exact(3) [OF assms(1,2,3)] assms(4) by simp
  then show ?thesis by (auto simp: refund_capacity_def rl_net_def refundable_of_def l_net_def)
qed

definition sample_lot :: lot_row where
  "sample_lot = \<lparr>l_id = ''lot'', l_slice = ''slice'', l_provider = ''p'', l_buyer = ''b'', l_amount = 100, l_reversed = 0,
     l_unlocked = 85, l_held = 40, l_paid = 0, l_converted = 0, l_debited_at = [], l_fulfilled_at = [], l_unlock_at = [],
     l_disputed = True, l_created_at = [], l_commission = 15, l_commission_reversed = 0, l_commission_unlocked = 15\<rparr>"

theorem refundable_gross_is_capacity_witness:
  "53 \<le> refundable_gross (refundable_of sample_lot) \<and> \<not> 54 \<le> refundable_gross (refundable_of sample_lot)"
  using refundable_gross_is_capacity [of sample_lot 53] refundable_gross_is_capacity [of sample_lot 54]
  by (simp add: sample_lot_def lot_check_def refund_share_ok_def l_net_def split_refund_def refundable_of_def
      refunded_gross_def Let_def)

text \<open>
  C40. A refund within that capacity splits into a Provider part and a fee part, neither
  negative, that add up to it; neither exceeds what is left of its side; the lot stays
  auditable; and a later refund gives the fee that one refund of both would have given,
  so the parts do not depend on how a refund is divided.
\<close>

theorem refund_split_conserves:
  assumes "lot_check l" "refund_share_ok l" "0 \<le> g" "g \<le> refundable_gross (refundable_of l)"
    and "split_refund (refundable_of l) g = (n, f)"
    and "l' = l\<lparr>l_reversed := l_reversed l + n, l_commission_reversed := l_commission_reversed l + f\<rparr>"
  shows "0 \<le> n \<and> 0 \<le> f \<and> n + f = g \<and> l_reversed l + n + l_held l + l_paid l + l_converted l \<le> l_net l
    \<and> l_commission_reversed l + f \<le> l_commission l \<and> refund_share_ok l'
    \<and> snd (split_refund (refundable_of l) (g + h)) = f + snd (split_refund (refundable_of l') h)"
proof -
  let ?rest = "l_amount l - (l_reversed l + l_commission_reversed l)"
  have le: "g \<le> ?rest" using refundable_gross_exact(2) [OF assms(1,2)] assms(4) by simp
  note p = refund_parts [OF assms(1,2,3) le assms(5)]
  have cap: "n \<le> refund_capacity (refundable_of l)"
    using refundable_gross_exact(3) [OF assms(1,2,3) le] assms(4,5) by simp
  have ok: "refund_share_ok l'" using p(5) by (simp add: refund_share_ok_iff assms(6))
  have "g = n + f" using p(3) by simp
  then have "snd (split_refund (refundable_of l) (g + h)) = f + snd (split_refund (refundable_of l') h)"
    by (simp add: split_refund_share Let_def refundable_of_def refunded_gross_def assms(6) ac_simps)
  with p(1-4) cap ok show ?thesis by (auto simp: refund_capacity_def rl_net_def refundable_of_def l_net_def)
qed

theorem refund_split_conserves_witness:
  "split_refund (refundable_of sample_lot) 33 = (28, 5)
   \<and> refund_share_ok (sample_lot\<lparr>l_reversed := 28, l_commission_reversed := 5\<rparr>)
   \<and> snd (split_refund (refundable_of sample_lot) 50) = 5 + 3"
proof -
  let ?l = "sample_lot\<lparr>l_reversed := 28, l_commission_reversed := 5\<rparr>"
  have ev: "lot_check sample_lot" "refund_share_ok sample_lot" "split_refund (refundable_of sample_lot) 33 = (28, 5)"
    "snd (split_refund (refundable_of ?l) 17) = 3"
    by (simp_all add: sample_lot_def lot_check_def refund_share_ok_def l_net_def split_refund_def refundable_of_def
        refunded_gross_def Let_def)
  have cap: "(33 :: int) \<le> refundable_gross (refundable_of sample_lot)"
    using refundable_gross_exact(3) [OF ev(1,2), of 33] ev(3)
    by (simp add: sample_lot_def refund_capacity_def rl_net_def refundable_of_def)
  have l': "?l = sample_lot\<lparr>l_reversed := l_reversed sample_lot + 28,
      l_commission_reversed := l_commission_reversed sample_lot + 5\<rparr>"
    by (simp add: sample_lot_def)
  show ?thesis
    using refund_split_conserves [OF ev(1,2) _ cap ev(3) l', of 17] ev(3,4) by simp
qed

end
