(* ===== verification/Earning_Steps.thy ===== *)
theory Earning_Steps
  imports Service_Disputes Wallet_Properties Refund_Split
begin

text \<open>
  What the operations on Provider earnings do to the tables, stated once for the
  invariants: holding and releasing change only hold rows and the derived flag of the
  lots they name; a delivery appends one slice and one lot; an unlock and a refund move
  one lot together with its postings.
\<close>


section \<open>Holds\<close>

lemma has_active_hold_cong: "earning_holds t = earning_holds s \<Longrightarrow> has_active_hold t x = has_active_hold s x"
  by (simp add: has_active_hold_def)

lemma insert_hold_row_Inr:
  "insert_hold_row_tx h s = Inr (n, t) \<Longrightarrow> \<exists>hs. t = s\<lparr>earning_holds := earning_holds s @ hs\<rparr> \<and> set hs \<subseteq> {h}"
  by (auto simp: insert_hold_row_tx_def split: if_splits
      intro: exI [of _ "[]"] exI [of _ "[h]"])

lemma insert_earning_holds_Inr:
  assumes "insert_earning_holds_tx ids k r time s = Inr (n, t)"
  shows "\<exists>m hs. t = s\<lparr>uuid_drawn := m, earning_holds := earning_holds s @ hs\<rparr>
    \<and> (\<forall>h \<in> set hs. eh_lot h \<in> set ids \<and> eh_released_at h = None)"
  using assms
proof (induction ids arbitrary: s n)
  case Nil
  then show ?case by (intro exI [of _ "uuid_drawn s"] exI [of _ "[]"]) (simp add: tx_simps)
next
  case (Cons lot rest)
  from Cons.prems obtain u a b m1 where
    one: "insert_hold_row_tx \<lparr>eh_id = uuid_supply s (uuid_drawn s), eh_lot = lot, eh_reason_kind = k, eh_reason_ref = r,
      eh_created_at = time, eh_released_at = None, eh_released_by = None, eh_release_reason = None\<rparr>
      (s\<lparr>uuid_drawn := m1\<rparr>) = Inr (a, u)"
    and more: "insert_earning_holds_tx rest k r time u = Inr (b, t)"
    by (auto simp: tx_simps)
  from insert_hold_row_Inr [OF one] obtain h1 where u: "u = s\<lparr>uuid_drawn := m1, earning_holds := earning_holds s @ h1\<rparr>"
    and h1: "set h1 \<subseteq> {\<lparr>eh_id = uuid_supply s (uuid_drawn s), eh_lot = lot, eh_reason_kind = k, eh_reason_ref = r,
      eh_created_at = time, eh_released_at = None, eh_released_by = None, eh_release_reason = None\<rparr>}"
    by auto
  from Cons.IH [OF more] u obtain m h2 where "t = s\<lparr>uuid_drawn := m, earning_holds := earning_holds s @ h1 @ h2\<rparr>"
    and "\<forall>h \<in> set h2. eh_lot h \<in> set rest \<and> eh_released_at h = None" by auto
  with h1 show ?case by (intro exI [of _ m] exI [of _ "h1 @ h2"]) auto
qed

definition reflag :: "string set \<Rightarrow> 'a market_db_scheme \<Rightarrow> lot_row list \<Rightarrow> lot_row list" where
  "reflag ids s ls = map (\<lambda>l. if l_id l \<in> ids then l\<lparr>l_disputed := has_active_hold s (l_id l)\<rparr> else l) ls"

lemma recompute_lot_holds_Inr:
  "recompute_lot_holds_tx ctx ids s = Inr (x, t) \<Longrightarrow> t = s\<lparr>lots := reflag (set ids) s (lots s)\<rparr>"
  by (auto simp: recompute_lot_holds_tx_def tx_simps update_lots_tx_def reflag_def split: if_splits)

lemma notify_held_queued: "within queued_only (notify_held_tx xs k r time)"
proof (induction xs)
  case (Cons x xs)
  then show ?case by (cases x) (auto intro!: queued.within_rules enqueue_user_notification_queued)
qed (auto intro: queued.within_rules)

lemma notify_providers_queued: "within queued_only (notify_providers_for_lots_tx ids k r time)"
  unfolding notify_providers_for_lots_tx_def held_recipients_tx_def
  by (intro queued.within_rules notify_held_queued)

lemma notify_released_queued: "within queued_only (notify_released_tx xs k r time)"
  by (induction xs) (auto intro!: queued.within_rules enqueue_user_notification_queued)

lemma notify_policy_queued: "within queued_only (notify_policy_tx xs v rate eff at)"
  by (induction xs) (auto intro!: queued.within_rules enqueue_user_notification_queued)

text \<open>
  \<open>held ids s t\<close>: from \<open>s\<close> to \<open>t\<close> only hold rows, the flag of the lots \<open>ids\<close>, review
  cases and notices changed, and the flag now says whether a hold is active.
\<close>

definition held :: "string set \<Rightarrow> 'a market_db_scheme \<Rightarrow> 'a market_db_scheme \<Rightarrow> bool" where
  "held ids s t \<longleftrightarrow>
     (\<exists>n a b hs cs. t = s\<lparr>uuid_drawn := n, notification_outbox := a, operator_outbox := b,
           lots := reflag ids (s\<lparr>earning_holds := hs\<rparr>) (lots s), earning_holds := hs, finance_cases := cs\<rparr>)
     \<and> (\<forall>x. x \<notin> ids \<longrightarrow> has_active_hold t x \<longrightarrow> has_active_hold s x)
     \<and> eh_lot ` set (earning_holds t) \<subseteq> eh_lot ` set (earning_holds s) \<union> ids"

lemma queued_onlyE:
  assumes "queued_only s t"
  obtains n a b where "t = s\<lparr>uuid_drawn := n, notification_outbox := a, operator_outbox := b\<rparr>"
  using assms unfolding queued_only_def by blast

lemma heldI:
  assumes "queued_only (s\<lparr>uuid_drawn := n, lots := reflag ids (s\<lparr>earning_holds := hs\<rparr>) (lots s), earning_holds := hs,
      finance_cases := cs\<rparr>) t"
    and "\<And>x. x \<notin> ids \<Longrightarrow> has_active_hold (s\<lparr>earning_holds := hs\<rparr>) x \<Longrightarrow> has_active_hold s x"
    and "eh_lot ` set hs \<subseteq> eh_lot ` set (earning_holds s) \<union> ids"
  shows "held ids s t"
proof -
  from assms(1) obtain m a b where "t = s\<lparr>uuid_drawn := n, lots := reflag ids (s\<lparr>earning_holds := hs\<rparr>) (lots s),
      earning_holds := hs, finance_cases := cs, uuid_drawn := m, notification_outbox := a, operator_outbox := b\<rparr>"
    by (elim queued_onlyE) blast
  then have t: "t = s\<lparr>uuid_drawn := m, notification_outbox := a, operator_outbox := b,
      lots := reflag ids (s\<lparr>earning_holds := hs\<rparr>) (lots s), earning_holds := hs, finance_cases := cs\<rparr>"
    by simp
  show ?thesis
    unfolding held_def using assms(2,3)
    by (intro conjI exI [of _ m] exI [of _ a] exI [of _ b] exI [of _ hs] exI [of _ cs])
      (auto simp: t has_active_hold_def)
qed

lemma reflag_cong: "earning_holds t = earning_holds s \<Longrightarrow> reflag ids t ls = reflag ids s ls"
  by (simp add: reflag_def has_active_hold_def)

lemma held_insert:
  assumes ins: "insert_earning_holds_tx ids k r time s = Inr (n, u)"
    and rec: "recompute_lot_holds_tx ctx ids u = Inr (x, v)"
    and q: "queued_only (v\<lparr>finance_cases := cs\<rparr>) t"
  shows "held (set ids) s t"
proof -
  from insert_earning_holds_Inr [OF ins] obtain m hs where
    u: "u = s\<lparr>uuid_drawn := m, earning_holds := earning_holds s @ hs\<rparr>"
    and hs: "\<forall>h \<in> set hs. eh_lot h \<in> set ids \<and> eh_released_at h = None" by blast
  have v: "v = s\<lparr>uuid_drawn := m, lots := reflag (set ids) (s\<lparr>earning_holds := earning_holds s @ hs\<rparr>) (lots s),
      earning_holds := earning_holds s @ hs\<rparr>"
    using recompute_lot_holds_Inr [OF rec] reflag_cong [of u "s\<lparr>earning_holds := earning_holds s @ hs\<rparr>"] by (simp add: u)
  show ?thesis
  proof (rule heldI)
    show "queued_only (s\<lparr>uuid_drawn := m, lots := reflag (set ids) (s\<lparr>earning_holds := earning_holds s @ hs\<rparr>) (lots s),
      earning_holds := earning_holds s @ hs, finance_cases := cs\<rparr>) t"
      using q by (simp add: v)
  qed (use hs in \<open>auto simp: has_active_hold_def\<close>)
qed

lemma hold_contract_held:
  assumes "hold_contract_earnings_tx c k time s = Inr (x, t)"
  shows "held (set (contract_lots c s)) s t"
proof -
  from assms obtain n u v y where "insert_earning_holds_tx (contract_lots c s) k c time s = Inr (n, u)"
    "recompute_lot_holds_tx ''recompute Provider earning holds'' (contract_lots c s) u = Inr (y, v)"
    and last: "(if 0 < n then notify_providers_for_lots_tx (contract_lots c s) k c time else return_tx ()) v = Inr (x, t)"
    by (auto simp: hold_contract_earnings_tx_def tx_simps)
  then show ?thesis
    using withinD [OF notify_providers_queued] queued.R_refl
    by (intro held_insert [where cs = "finance_cases v"]) (auto simp: tx_simps split: if_splits)
qed

lemma hold_dispute_held:
  assumes "hold_dispute_earnings_tx d time s = Inr (x, t)"
  shows "held (set (dispute_lot_ids d s)) s t"
proof -
  from assms obtain n u v y where "insert_earning_holds_tx (dispute_lot_ids d s) ''dispute'' d time s = Inr (n, u)"
    "recompute_lot_holds_tx ''recompute Provider earning holds'' (dispute_lot_ids d s) u = Inr (y, v)"
    and last: "notify_providers_for_lots_tx (dispute_lot_ids d s) ''dispute'' d time v = Inr (x, t)"
    by (auto simp: hold_dispute_earnings_tx_def tx_simps)
  then show ?thesis
    using withinD [OF notify_providers_queued last]
    by (intro held_insert [where cs = "finance_cases v"]) auto
qed

lemma hold_failed_unlock_held:
  assumes "hold_failed_unlock_tx T lot time s = Inr (x, t)"
  shows "held {lot} s t"
proof -
  from assms obtain n u v y w where ins: "insert_earning_holds_tx [lot] ''manual'' lot time s = Inr (n, u)"
    and rec: "recompute_lot_holds_tx ''recompute Provider earning holds'' [lot] u = Inr (y, v)"
    and c: "insert_case_tx \<lparr>rc_id = uuid_supply v (uuid_drawn v), rc_code = ''earning_unlock_failed'',
        rc_object_kind = ''earning_lot'', rc_object_id = lot, rc_open = True, rc_created_at = time\<rparr>
        (v\<lparr>uuid_drawn := Suc (uuid_drawn v)\<rparr>) = Inr ((), w)"
    and o: "owner_signal_tx T ''earning_unlock_failed'' ''earning_lot'' lot (JObject [(''lotId'', JString lot)]) time False w
        = Inr (x, t)"
    by (auto simp: hold_failed_unlock_tx_def tx_simps)
  define cs where "cs = finance_cases w"
  from c have w: "w = v\<lparr>uuid_drawn := Suc (uuid_drawn v), finance_cases := cs\<rparr>"
    by (auto simp: insert_case_tx_def cs_def split: if_splits)
  have "queued_only (v\<lparr>finance_cases := cs\<rparr>) t"
    using withinD [OF owner_signal_queued o] w
    by (elim queued_onlyE) (auto simp: queued_only_def)
  from held_insert [OF ins rec this] show ?thesis by simp
qed

lemma release_holds_held:
  assumes "release_earning_holds_tx k r actor why time s = Inr (n, t)"
  shows "\<exists>ids \<subseteq> eh_lot ` set (earning_holds s). held ids s t"
proof -
  let ?rel = "\<lambda>h. if active_hold_of k r h then h\<lparr>eh_released_at := Some time, eh_released_by := Some actor,
      eh_release_reason := Some why\<rparr> else h"
  let ?hs = "map ?rel (earning_holds s)"
  let ?u = "s\<lparr>earning_holds := ?hs\<rparr>"
  define ids where "ids = released_lots k r actor time ?u"
  have lot: "eh_lot (?rel h) = eh_lot h" for h by simp
  have sub: "set ids \<subseteq> eh_lot ` set (earning_holds s)" by (force simp: ids_def released_lots_def)
  show ?thesis
  proof (cases "filter (active_hold_of k r) (earning_holds s) = []")
    case True
    then have hs: "?hs = earning_holds s" by (intro map_idI) (auto simp: filter_empty_conv)
    from assms True have "t = ?u"
      by (auto simp: release_earning_holds_tx_def release_holds_update_tx_def tx_simps)
    with hs have "t = s" by simp
    then have "held {} s t"
      by (intro heldI [where hs = "earning_holds s" and n = "uuid_drawn s" and cs = "finance_cases s"])
        (auto simp: queued.R_refl reflag_def)
    then show ?thesis by blast
  next
    case False
    with assms obtain v y ps where rec: "recompute_lot_holds_tx ''recompute released Provider earnings'' ids ?u = Inr (y, v)"
      and no: "notify_released_tx ps k r time v = Inr ((), t)"
      by (auto simp: release_earning_holds_tx_def release_holds_update_tx_def tx_simps ids_def)
    have v: "v = s\<lparr>lots := reflag (set ids) ?u (lots s), earning_holds := ?hs\<rparr>"
      using recompute_lot_holds_Inr [OF rec] by simp
    have "held (set ids) s t"
    proof (rule heldI [where n = "uuid_drawn s" and cs = "finance_cases s"])
      show "queued_only (s\<lparr>uuid_drawn := uuid_drawn s, lots := reflag (set ids) ?u (lots s), earning_holds := ?hs,
          finance_cases := finance_cases s\<rparr>) t"
        using withinD [OF notify_released_queued no] by (simp add: v)
      show "has_active_hold s x" if "has_active_hold ?u x" for x
        using that by (auto simp: has_active_hold_def split: if_splits)
    qed force
    with sub show ?thesis by blast
  qed
qed


section \<open>Deliveries\<close>

text \<open>
  \<open>allocated s lot p gross provider at a u\<close>: the split of a delivery within a commission
  period. It continues the period's cumulative totals and, unless the fee is zero, moves
  the fee from the Provider's pending account to the lot's commission account.
\<close>

definition allocated ::
  "'a market_db_scheme \<Rightarrow> string \<Rightarrow> commission_period_row \<Rightarrow> int \<Rightarrow> string \<Rightarrow> delivery_allocation
     \<Rightarrow> 'a market_db_scheme \<Rightarrow> bool"
where
  "allocated s lot p gross provider a u \<longleftrightarrow>
     (\<exists>before after jid.
        before = max_or_zero (map sp_gross_after (period_splits (pe_id p) s))
      \<and> after = before + gross \<and> in_i64 after
      \<and> cumulative_fee before (pe_rate_bps p) = Inr (max_or_zero (map sp_fee_after (period_splits (pe_id p) s)))
      \<and> cumulative_fee after (pe_rate_bps p) = Inr (max_or_zero (map sp_fee_after (period_splits (pe_id p) s)) + da_fee_units a)
      \<and> da_evidence a = Some \<lparr>ev_period = pe_id p, ev_gross_before = before, ev_gross_after = after,
          ev_fee_before = max_or_zero (map sp_fee_after (period_splits (pe_id p) s)),
          ev_fee_after = max_or_zero (map sp_fee_after (period_splits (pe_id p) s)) + da_fee_units a, ev_journal = jid\<rparr>
      \<and> (if 0 < da_fee_units a
         then (\<exists>j. jid = Some (j_id j) \<and> j_source_kind j = ''earning_lot'' \<and> j_source_id j = lot
                \<and> j_action j = ''commission'' \<and> posted s j (commission_postings provider lot (da_fee_units a)) u)
         else jid = None \<and> u = s))"

lemma allocate_in_period_Inr:
  assumes "allocate_in_period_tx lot p gross provider at s = Inr (a, u)"
  shows "allocated s lot p gross provider a u"
proof -
  define before where "before = max_or_zero (map sp_gross_after (period_splits (pe_id p) s))"
  define fb where "fb = max_or_zero (map sp_fee_after (period_splits (pe_id p) s))"
  from assms obtain fa after jid where after: "checked_add64 before gross = Some after"
    and cb: "cumulative_fee before (pe_rate_bps p) = Inr fb"
    and ca: "cumulative_fee after (pe_rate_bps p) = Inr fa"
    and jn: "(if fb < fa
       then bind_tx (post_journal_tx ''earning_lot'' lot ''commission''
              (pe_id p @ '':'' @ show_int before @ '':'' @ show_int after @ '':'' @ show_int (fa - fb))
              (commission_postings provider lot (fa - fb)) at) (\<lambda>journal.
            bind_tx (require_tx (jr_inserted journal) (Internal ''commission allocation replay drift''))
              (\<lambda>_. return_tx (Some (jr_id journal))))
       else return_tx None) s = Inr (jid, u)"
    and a: "a = \<lparr>da_fee_units = fa - fb, da_evidence = Some \<lparr>ev_period = pe_id p, ev_gross_before = before,
       ev_gross_after = after, ev_fee_before = fb, ev_fee_after = fa, ev_journal = jid\<rparr>\<rparr>"
    unfolding before_def fb_def
    by (auto simp: allocate_in_period_tx_def tx_simps Let_def split: option.splits)
  have "if 0 < fa - fb
     then (\<exists>j. jid = Some (j_id j) \<and> j_source_kind j = ''earning_lot'' \<and> j_source_id j = lot
            \<and> j_action j = ''commission'' \<and> posted s j (commission_postings provider lot (fa - fb)) u)
     else jid = None \<and> u = s"
    using jn by (auto simp: tx_simps elim!: post_journal_tx_cases)
  with after cb ca a show ?thesis
    unfolding allocated_def before_def [symmetric] fb_def [symmetric]
    by (intro exI [of _ before] exI [of _ after] exI [of _ jid]) (auto simp: checked_add64_def checked_i64_def split: if_splits)
qed

definition commission_source :: "'a market_db_scheme \<Rightarrow> string \<Rightarrow> string option \<Rightarrow> string \<Rightarrow> commission_period_row \<Rightarrow> bool" where
  "commission_source s contract period source_kind p \<longleftrightarrow>
     p \<in> set (commission_periods s) \<and> pe_contract p = contract
     \<and> (case period of
          Some x \<Rightarrow> pe_source_kind p = ''monthly_period'' \<and> pe_source_id p = x
        | None \<Rightarrow> source_kind = ''metered_batch'' \<and> pe_source_kind p = ''metered_budget'')"

lemma commission_source_tx_same: "commission_source_tx c per sk s = Inr (x, u) \<Longrightarrow> u = s"
  by (auto simp: commission_source_tx_def tx_simps split: option.splits if_splits)

lemma allocate_delivery_cases:
  assumes "allocate_delivery_tx lot c per sk gross provider at s = Inr (a, u)"
  obtains (unsplit) "a = no_allocation" "u = s" "per \<noteq> None \<or> sk = ''metered_batch'' \<Longrightarrow> \<not> protected_contract c s"
  | (split) p where "commission_source s c per sk p" "allocated s lot p gross provider a u"
proof -
  from assms obtain source where src: "commission_source_tx c per sk s = Inr (source, s)"
    and rest: "(case source of
       None \<Rightarrow> return_tx no_allocation
     | Some (kind, source) \<Rightarrow>
        bind_tx (gets_tx (find_commission_period kind source c)) (\<lambda>p.
        case p of
          None \<Rightarrow>
            bind_tx (gets_tx (protected_contract c)) (\<lambda>protected.
            bind_tx (require_tx (\<not> protected) (Internal ''service commission period missing'')) (\<lambda>_.
            return_tx no_allocation))
        | Some p \<Rightarrow> allocate_in_period_tx lot p gross provider at)) s = Inr (a, u)"
    unfolding allocate_delivery_tx_def bind_tx_Inr using commission_source_tx_same by metis
  show thesis
  proof (cases source)
    case None
    with src have "per = None \<and> sk \<noteq> ''metered_batch''"
      by (auto simp: commission_source_tx_def tx_simps split: option.splits if_splits)
    with None rest show thesis by (intro unsplit) (auto simp: tx_simps)
  next
    case (Some z)
    obtain kind src_id where z: "z = (kind, src_id)" by (cases z)
    show thesis
    proof (cases "find_commission_period kind src_id c s")
      case None
      with Some z rest show thesis by (intro unsplit) (auto simp: tx_simps)
    next
      case found: (Some p)
      then have p: "p \<in> set (commission_periods s)" "pe_source_kind p = kind" "pe_source_id p = src_id" "pe_contract p = c"
        by (auto simp: find_commission_period_def find_Some_iff)
      have "commission_source s c per sk p"
        using src Some z p
        by (auto simp: commission_source_def commission_source_tx_def tx_simps split: option.splits if_splits)
      moreover have "allocated s lot p gross provider a u"
        using found rest Some z by (intro allocate_in_period_Inr [where at = at]) (auto simp: tx_simps)
      ultimately show thesis by (rule split)
    qed
  qed
qed


lemma hold_for_disputes_Inr:
  assumes "hold_for_disputes_tx ds lot now s = Inr (x, t)"
  shows "\<exists>m hs. t = s\<lparr>uuid_drawn := m, earning_holds := earning_holds s @ hs\<rparr> \<and> (\<forall>h \<in> set hs. eh_lot h = lot)"
  using assms
proof (induction ds arbitrary: s)
  case Nil
  then show ?case by (intro exI [of _ "uuid_drawn s"] exI [of _ "[]"]) (simp add: tx_simps)
next
  case (Cons d ds)
  from Cons.prems obtain n u where one: "insert_earning_holds_tx [lot] ''dispute'' d now s = Inr (n, u)"
    and more: "hold_for_disputes_tx ds lot now u = Inr (x, t)"
    by (auto simp: tx_simps simp del: insert_earning_holds_tx.simps)
  from insert_earning_holds_Inr [OF one] obtain m1 h1 where
    u: "u = s\<lparr>uuid_drawn := m1, earning_holds := earning_holds s @ h1\<rparr>" and h1: "\<forall>h \<in> set h1. eh_lot h = lot" by auto
  from Cons.IH [OF more] u obtain m h2 where "t = s\<lparr>uuid_drawn := m, earning_holds := earning_holds s @ h1 @ h2\<rparr>"
    and "\<forall>h \<in> set h2. eh_lot h = lot" by auto
  with h1 show ?case by (intro exI [of _ m] exI [of _ "h1 @ h2"]) auto
qed

definition split_of_allocation :: "string \<Rightarrow> string \<Rightarrow> split_evidence \<Rightarrow> split_row" where
  "split_of_allocation lot now e = \<lparr>sp_lot = lot, sp_period = ev_period e, sp_gross_before = ev_gross_before e,
     sp_gross_after = ev_gross_after e, sp_fee_before = ev_fee_before e, sp_fee_after = ev_fee_after e,
     sp_journal = ev_journal e, sp_created_at = now\<rparr>"

text \<open>
  \<open>delivered\<close>: a delivery appended one slice \<open>d\<close> and one lot \<open>l\<close>; the split evidence \<open>xs\<close>
  has at most one row; the lot is registered with and held for every open dispute of its
  contract.
\<close>

definition fresh_lot :: "slice_row \<Rightarrow> string \<Rightarrow> string \<Rightarrow> int \<Rightarrow> bool \<Rightarrow> lot_row \<Rightarrow> bool" where
  "fresh_lot d buyer provider fee frozen l \<longleftrightarrow>
     l_slice l = ds_id d \<and> l_buyer l = buyer \<and> l_provider l = provider \<and> l_amount l = ds_amount d
     \<and> l_reversed l = 0 \<and> l_unlocked l = 0 \<and> l_held l = 0 \<and> l_paid l = 0 \<and> l_converted l = 0
     \<and> l_commission l = fee \<and> l_commission_reversed l = 0 \<and> l_commission_unlocked l = 0
     \<and> l_disputed l = frozen \<and> lot_check l"

definition delivered ::
  "'a market_db_scheme \<Rightarrow> slice_row \<Rightarrow> lot_row \<Rightarrow> delivery_allocation \<Rightarrow> split_row list \<Rightarrow> 'a market_db_scheme
     \<Rightarrow> 'a market_db_scheme \<Rightarrow> bool"
where
  "delivered s d l a xs u t \<longleftrightarrow>
     ds_id d \<notin> ds_id ` set (slices s) \<and> l_id l \<notin> l_id ` set (lots u) \<and> l_slice l \<notin> l_slice ` set (lots u)
     \<and> (case da_evidence a of None \<Rightarrow> xs = []
        | Some e \<Rightarrow> \<exists>now. xs = [split_of_allocation (l_id l) now e] \<and> l_id l \<notin> sp_lot ` set (commission_splits u)
            \<and> ev_gross_before e < ev_gross_after e \<and> ev_fee_before e \<le> ev_fee_after e)
     \<and> (\<exists>m hs. t = u\<lparr>uuid_drawn := m, commission_splits := commission_splits u @ xs, lots := lots u @ [l],
           earning_holds := earning_holds u @ hs,
           dispute_lots := dispute_lots u @ map (\<lambda>x. (x, l_id l)) (open_disputes (ds_contract d) u)\<rparr>
         \<and> (\<forall>h \<in> set hs. eh_lot h = l_id l) \<and> (open_disputes (ds_contract d) u = [] \<longrightarrow> hs = []))"

lemma finish_delivery_Inr:
  assumes "finish_delivery_tx lot a now s = Inr (x, t)"
  shows "\<exists>xs. t = s\<lparr>commission_splits := commission_splits s @ xs\<rparr>
    \<and> (case da_evidence a of None \<Rightarrow> xs = []
       | Some e \<Rightarrow> \<exists>now. xs = [split_of_allocation lot now e] \<and> lot \<notin> sp_lot ` set (commission_splits s)
           \<and> ev_gross_before e < ev_gross_after e \<and> ev_fee_before e \<le> ev_fee_after e)"
proof (cases "da_evidence a")
  case None
  with assms show ?thesis by (intro exI [of _ "[]"]) (simp add: finish_delivery_tx_def tx_simps)
next
  case (Some e)
  with assms show ?thesis
    by (intro exI [of _ "[split_of_allocation lot now e]"])
      (auto simp: finish_delivery_tx_def insert_split_tx_def split_of_allocation_def split: if_splits)
qed

lemma insert_slice_and_lot_cases:
  assumes "insert_slice_and_lot_tx T ck c sk sid per buyer prov st en amt dj ej deb now s = Inr (r, t)"
  obtains n d l a xs u where
    "allocate_delivery_tx (l_id l) c per sk amt prov now (s\<lparr>uuid_drawn := n, slices := slices s @ [d]\<rparr>) = Inr (a, u)"
    "delivered s d l a xs u t" "fresh_lot d buyer prov (da_fee_units a) (open_disputes c u \<noteq> []) l"
    "ds_contract d = c" "ds_period d = per" "ds_amount d = amt" "ds_earning_journal d = ej" "0 < amt" "ds_id d = r"
    "ds_source_kind d = sk" "unlock_at T deb en = Inr (l_unlock_at l)" "l_debited_at l = deb" "l_fulfilled_at l = en"
    "\<not> (\<exists>e \<in> set (slices s). ds_source_kind e = sk \<and> ds_source_id e = sid)" "ds_source_id d = sid"
    "l_id l \<in> range (uuid_supply s)"
proof -
  define n0 where "n0 = uuid_drawn s"
  define d where "d = \<lparr>ds_id = uuid_supply s n0, ds_contract_kind = ck, ds_contract = c,
         ds_source_kind = sk, ds_source_id = sid, ds_period = per, ds_started_at = st,
         ds_ended_at = en, ds_amount = amt, ds_debit_journal = dj, ds_earning_journal = ej, ds_created_at = now\<rparr>"
  define n where "n = Suc (Suc n0)"
  from assms obtain s1 a u maturity v w x lot l where
    ins: "insert_slice_tx d (s\<lparr>uuid_drawn := Suc n0\<rparr>) = Inr ((), s1)" and lot: "lot = uuid_supply s1 (uuid_drawn s1)"
    and al: "allocate_delivery_tx lot c per sk amt prov now (s1\<lparr>uuid_drawn := Suc (uuid_drawn s1)\<rparr>) = Inr (a, u)"
    and mat: "unlock_at T deb en = Inr maturity"
    and l_def: "l = \<lparr>l_id = lot, l_slice = uuid_supply s n0, l_provider = prov, l_buyer = buyer,
         l_amount = amt, l_reversed = 0, l_unlocked = 0, l_held = 0, l_paid = 0, l_converted = 0,
         l_debited_at = deb, l_fulfilled_at = en, l_unlock_at = maturity,
         l_disputed = (open_disputes c u \<noteq> []), l_created_at = now, l_commission = da_fee_units a,
         l_commission_reversed = 0, l_commission_unlocked = 0\<rparr>"
    and lotr: "insert_lot_tx l u = Inr ((), v)"
    and fin: "finish_delivery_tx lot a now v = Inr ((), w)"
    and sc: "(if open_disputes c u = [] then return_tx ()
       else bind_tx (insert_dispute_lots_tx (open_disputes c u) lot)
         (\<lambda>_. hold_for_disputes_tx (open_disputes c u) lot now)) w = Inr (x, t)"
    and r: "r = uuid_supply s n0"
    unfolding d_def n0_def by (auto simp: insert_slice_and_lot_tx_def tx_simps)
  from ins have s1: "s1 = s\<lparr>uuid_drawn := Suc n0, slices := slices s @ [d]\<rparr>"
    by (auto simp: insert_slice_tx_def split: if_splits)
  from ins have d: "ds_id d \<notin> ds_id ` set (slices s)" "0 < amt"
    "\<not> (\<exists>e \<in> set (slices s). ds_source_kind e = sk \<and> ds_source_id e = sid)"
    by (auto simp: insert_slice_tx_def d_def split: if_splits)
  from lotr have l: "l_id l = lot" "fresh_lot d buyer prov (da_fee_units a) (open_disputes c u \<noteq> []) l"
    "l_id l \<notin> l_id ` set (lots u)" "l_slice l \<notin> l_slice ` set (lots u)" "v = u\<lparr>lots := lots u @ [l]\<rparr>"
    "l_unlock_at l = maturity" "l_debited_at l = deb" "l_fulfilled_at l = en"
    by (auto simp: insert_lot_tx_def fresh_lot_def d_def l_def split: if_splits)
  from finish_delivery_Inr [OF fin] l(5) obtain xs where
    w: "w = u\<lparr>lots := lots u @ [l], commission_splits := commission_splits u @ xs\<rparr>"
    and xs: "case da_evidence a of None \<Rightarrow> xs = []
       | Some e \<Rightarrow> \<exists>now. xs = [split_of_allocation lot now e] \<and> lot \<notin> sp_lot ` set (commission_splits u)
           \<and> ev_gross_before e < ev_gross_after e \<and> ev_fee_before e \<le> ev_fee_after e"
    by (cases "da_evidence a") auto
  have "\<exists>m hs. t = w\<lparr>uuid_drawn := m, earning_holds := earning_holds w @ hs,
      dispute_lots := dispute_lots w @ map (\<lambda>x. (x, lot)) (open_disputes c u)\<rparr>
    \<and> (\<forall>h \<in> set hs. eh_lot h = lot) \<and> (open_disputes c u = [] \<longrightarrow> hs = [])"
  proof (cases "open_disputes c u = []")
    case True
    with sc show ?thesis by (intro exI [of _ "uuid_drawn w"] exI [of _ "[]"]) (simp add: tx_simps)
  next
    case False
    with sc obtain w2 where "w2 = w\<lparr>dispute_lots := dispute_lots w @ map (\<lambda>x. (x, lot)) (open_disputes c u)\<rparr>"
      and h: "hold_for_disputes_tx (open_disputes c u) lot now w2 = Inr (x, t)"
      by (auto simp: tx_simps insert_dispute_lots_tx_def split: if_splits)
    with hold_for_disputes_Inr [OF h] obtain m hs where
      "t = w\<lparr>dispute_lots := dispute_lots w @ map (\<lambda>x. (x, lot)) (open_disputes c u), uuid_drawn := m,
        earning_holds := earning_holds w @ hs\<rparr>" "\<forall>h \<in> set hs. eh_lot h = lot" by auto
    with False show ?thesis by (intro exI [of _ m] exI [of _ hs]) simp
  qed
  then obtain m hs where "t = w\<lparr>uuid_drawn := m, earning_holds := earning_holds w @ hs,
      dispute_lots := dispute_lots w @ map (\<lambda>x. (x, lot)) (open_disputes c u)\<rparr>"
    and hs: "\<forall>h \<in> set hs. eh_lot h = lot" "open_disputes c u = [] \<longrightarrow> hs = []" by blast
  then have t: "t = u\<lparr>uuid_drawn := m, commission_splits := commission_splits u @ xs, lots := lots u @ [l],
      earning_holds := earning_holds u @ hs, dispute_lots := dispute_lots u @ map (\<lambda>x. (x, lot)) (open_disputes c u)\<rparr>"
    by (simp add: w)
  have dc: "ds_contract d = c" by (simp add: d_def)
  have "delivered s d l a xs u t"
    unfolding delivered_def dc l(1)
    by (intro conjI exI [of _ m] exI [of _ hs] d(1) l(3,4) [unfolded l(1)] xs t hs)
  moreover have "allocate_delivery_tx (l_id l) c per sk amt prov now (s\<lparr>uuid_drawn := n, slices := slices s @ [d]\<rparr>) = Inr (a, u)"
  proof -
    have "s1\<lparr>uuid_drawn := Suc (uuid_drawn s1)\<rparr> = s\<lparr>uuid_drawn := n, slices := slices s @ [d]\<rparr>" by (simp add: s1 n_def)
    with al l(1) show ?thesis by simp
  qed
  moreover have "l_id l \<in> range (uuid_supply s)" using l(1) lot by (simp add: s1)
  ultimately show thesis
    using d l mat r by (intro that [where l = l and n = n and d = d and a = a and u = u and xs = xs]) (auto simp: d_def)
qed


section \<open>Changing one lot\<close>

definition put_lot :: "lot_row \<Rightarrow> lot_row list \<Rightarrow> lot_row list" where
  "put_lot l ls = map (\<lambda>x. if l_id x = l_id l then l else x) ls"

lemma put_lot_ids [simp]: "map l_id (put_lot l ls) = map l_id ls"
  by (simp add: put_lot_def)

lemma l_id_inj: "distinct (map l_id ls) \<Longrightarrow> x \<in> set ls \<Longrightarrow> y \<in> set ls \<Longrightarrow> l_id x = l_id y \<Longrightarrow> x = y"
  by (meson distinct_map inj_on_def)

lemma set_put_lot:
  "l \<in> set ls \<Longrightarrow> l_id l' = l_id l \<Longrightarrow> x \<in> set (put_lot l' ls) \<longleftrightarrow> x = l' \<or> (x \<in> set ls \<and> l_id x \<noteq> l_id l')"
  by (auto simp: put_lot_def)

text \<open>An UPDATE that changed exactly one row, all its rows having the same identifier.\<close>

lemma update_one_lot:
  assumes "update_lots_tx ctx g u s = Inr (Suc 0, t)" "distinct (map l_id (lots s))" "\<And>x. g x \<Longrightarrow> l_id x = i"
    "\<And>x. l_id (u x) = l_id x"
  obtains l where "l \<in> set (lots s)" "g l" "l_id l = i" "lot_update_ok l (u l)" "t = s\<lparr>lots := put_lot (u l) (lots s)\<rparr>"
proof -
  from assms(1) have one: "length (filter g (lots s)) = Suc 0"
    and ok: "\<forall>l \<in> set (lots s). g l \<longrightarrow> lot_update_ok l (u l)"
    and t: "t = s\<lparr>lots := map (\<lambda>l. if g l then u l else l) (lots s)\<rparr>"
    by (auto simp: update_lots_tx_def split: if_splits)
  from one obtain l where "filter g (lots s) = [l]" by (auto simp: length_Suc_conv)
  then have l: "l \<in> set (lots s)" "g l" by (auto simp: filter_eq_Cons_iff)
  have "map (\<lambda>l. if g l then u l else l) (lots s) = put_lot (u l) (lots s)"
    unfolding put_lot_def
  proof (rule map_cong [OF refl])
    fix x
    assume x: "x \<in> set (lots s)"
    show "(if g x then u x else x) = (if l_id x = l_id (u l) then u l else x)"
    proof (cases "x = l")
      case False
      then have "l_id x \<noteq> l_id l" using l_id_inj [OF assms(2) x l(1)] by blast
      with assms(3) [of x] assms(3) [OF l(2)] assms(4) show ?thesis by auto
    qed (use l assms(4) in simp)
  qed
  with t ok l assms(3) show thesis by (intro that [of l]) auto
qed

definition unlocked_lot :: "lot_row \<Rightarrow> lot_row" where
  "unlocked_lot l = l\<lparr>l_unlocked := l_unlocked l + pending_net l, l_commission_unlocked := l_commission_unlocked l + pending_fee l\<rparr>"

lemma lot_evidence_same: "lot_evidence_valid_tx lot s = Inr (x, u) \<Longrightarrow> u = s"
  by (simp add: lot_evidence_valid_tx_def tx_simps)

lemma unlock_lot_cases:
  assumes "unlock_lot_tx lot prov units mat at s = Inr (x, t)" "distinct (map l_id (lots s))"
  obtains l j t1 where "l \<in> set (lots s)" "l_id l = lot" "\<not> l_disputed l" "pending_net l = units"
    "lot_evidence_valid_tx lot s = Inr (True, s)" "lot_check (unlocked_lot l)"
    "j_source_kind j = ''earning_lot''" "j_source_id j = lot" "j_action j = ''unlock''"
    "posted s j (unlock_postings lot prov units (pending_fee l)) t1" "t = t1\<lparr>lots := put_lot (unlocked_lot l) (lots s)\<rparr>"
proof -
  from assms(1) obtain fee r t1 u where evu: "lot_evidence_valid_tx lot s = Inr (True, u)"
    and postu: "post_journal_tx ''earning_lot'' lot ''unlock''
         (prov @ '':'' @ show_int units @ '':'' @ mat @ '':commission='' @ show_int fee)
         (unlock_postings lot prov units fee) at u = Inr (r, t1)" and ins: "jr_inserted r"
    and upd: "update_lots_tx ''unlock Provider earning''
         (\<lambda>l. l_id l = lot \<and> \<not> l_disputed l \<and> pending_net l = units \<and> pending_fee l = fee)
         (\<lambda>l. l\<lparr>l_unlocked := l_unlocked l + units, l_commission_unlocked := l_commission_unlocked l + fee\<rparr>) t1 = Inr (Suc 0, t)"
    by (auto simp: unlock_lot_tx_def tx_simps)
  from lot_evidence_same [OF evu] evu postu have ev: "lot_evidence_valid_tx lot s = Inr (True, s)"
    and post: "post_journal_tx ''earning_lot'' lot ''unlock''
         (prov @ '':'' @ show_int units @ '':'' @ mat @ '':commission='' @ show_int fee)
         (unlock_postings lot prov units fee) at s = Inr (r, t1)" by simp_all
  from post ins obtain j where j: "j_source_kind j = ''earning_lot''" "j_source_id j = lot" "j_action j = ''unlock''"
    "posted s j (unlock_postings lot prov units fee) t1"
    by (cases rule: post_journal_tx_cases) auto
  have eq: "lots t1 = lots s" using j(4) by (auto simp: posted_def)
  from update_one_lot [OF upd, of lot] assms(2) eq obtain l where l: "l \<in> set (lots s)" "l_id l = lot" "\<not> l_disputed l"
    "pending_net l = units" "pending_fee l = fee" and ok: "lot_update_ok l (unlocked_lot l)"
    and t: "t = t1\<lparr>lots := put_lot (unlocked_lot l) (lots s)\<rparr>"
    by (auto simp: unlocked_lot_def)
  show thesis
    by (rule that [of l j t1]) (use l ev ok t j in \<open>auto simp: lot_update_ok_def\<close>)
qed

lemma lot_evidence_share:
  assumes "lot_evidence_valid_tx lot s = Inr (True, u)" "distinct (map l_id (lots s))" "l \<in> set (lots s)" "l_id l = lot"
  shows "refund_share_ok l"
proof -
  from assms(1) obtain m where m: "find_lot lot s = Some m" "refund_share_ok m"
    by (auto simp: lot_evidence_valid_tx_def tx_simps split: if_splits option.splits)
  then have "m \<in> set (lots s)" "l_id m = lot" by (auto simp: find_lot_def find_Some_iff)
  with l_id_inj [OF assms(2) _ assms(3)] assms(4) m(2) show ?thesis by blast
qed


section \<open>Refunds\<close>

text \<open>One journal more: what stays true of it when other tables change in the same operation.\<close>

definition appended :: "'a wallet_db_scheme \<Rightarrow> journal_row \<Rightarrow> posting list \<Rightarrow> 'a wallet_db_scheme \<Rightarrow> bool" where
  "appended s j ps t \<longleftrightarrow>
     (\<exists>rows. postings t = postings s @ rows \<and> map row_posting rows = ps \<and> (\<forall>r \<in> set rows. pr_journal r = j_id j))
     \<and> journals t = journals s @ [j]
     \<and> seals t = seals s @ [\<lparr>s_journal = j_id j, s_count = int (length ps), s_sealed_at = j_created_at j\<rparr>]
     \<and> j_id j \<notin> j_id ` set (journals s) \<and> journal_postings (j_id j) s = []"

lemma posted_appended: "posted s j ps t \<Longrightarrow> appended s j ps t"
  by (auto simp: posted_def appended_def)

lemma acct_rows_appended: "appended s j ps t \<Longrightarrow> acct_rows k u t = acct_rows k u s @ acct_units k u ps"
  by (auto simp: appended_def acct_rows_def acct_units_def row_posting_def filter_map comp_def)

definition repaid ::
  "string \<Rightarrow> string \<Rightarrow> string \<Rightarrow> int \<Rightarrow> string \<Rightarrow> string \<Rightarrow> 'a wallet_db_scheme \<Rightarrow> 'a wallet_db_scheme \<Rightarrow> bool"
where
  "repaid buyer kind subject amt dispute action s t \<longleftrightarrow>
     (if amt = 0 then t = s
      else 0 < amt \<and> kind \<in> set refund_sources
        \<and> (\<exists>j. j_source_kind j = ''service_dispute'' \<and> j_source_id j = dispute \<and> j_action j = action
             \<and> appended s j [\<lparr>p_kind = kind, p_subject = subject, p_units = amt\<rparr>,
                 \<lparr>p_kind = ''wallet_available'', p_subject = buyer, p_units = - amt\<rparr>] t)
        \<and> wallet_db.more t = wallet_db.more s
        \<and> (\<forall>v. posted_of v t = posted_of v s + (if v = buyer then amt else 0)) \<and> (\<forall>v. held_of v t = held_of v s)
        \<and> (wallet_inv s \<longrightarrow> wallet_inv t))"

lemma ensure_wallet_more: "ensure_wallet_tx u now s = Inr (x, t) \<Longrightarrow> wallet_db.more t = wallet_db.more s"
  by (auto simp: ensure_wallet_tx_def split: option.splits if_splits)

lemma credit_repaid:
  assumes op: "credit_wallet_from_liability_tx buyer amt kind subject ''service_dispute'' d action time s = Inr (r, t)"
    and "jr_inserted r"
  shows "repaid buyer kind subject amt d action s t"
  using op
proof (cases rule: refund_cases)
  case (fresh j s1 t1 w x)
  note e = ensure_wallet_tx_Inr [OF fresh(5)] ensure_wallet_more [OF fresh(5)]
  let ?ps = "[\<lparr>p_kind = kind, p_subject = subject, p_units = amt\<rparr>,
    \<lparr>p_kind = ''wallet_available'', p_subject = buyer, p_units = - amt\<rparr>]"
  have "appended s j ?ps t"
    using posted_appended [OF fresh(6)] fresh(8) e(1-3) by (simp add: appended_def journal_postings_def)
  moreover have "wallet_db.more t = wallet_db.more s"
    using fresh(8) posted_frame(5) [OF fresh(6)] e(11) by simp
  moreover have "posted_of v t = posted_of v s + (if v = buyer then amt else 0)" "held_of v t = held_of v s" for v
    using fresh(7,8) posted_frame(1) [OF fresh(6)] e(7,8) [of v] by (auto simp: posted_of_def held_of_def)
  moreover have "wallet_inv s \<longrightarrow> wallet_inv t" using credit_wallet_from_liability_inv [OF op] by blast
  ultimately show ?thesis using fresh(2,3,9-11) unfolding repaid_def by auto
qed (use assms(2) in simp)

lemma refund_part_repaid:
  "refund_part_tx buyer units kind subject d action msg time s = Inr (x, t) \<Longrightarrow> repaid buyer kind subject (max units 0) d action s t"
  by (auto simp: refund_part_tx_def tx_simps repaid_def [of _ _ _ 0] max_def dest: credit_repaid split: if_splits)

lemma refund_fee_repaid:
  "refund_fee_tx d l fee kind action time s = Inr (x, t) \<Longrightarrow>
   repaid (sd_buyer d) kind (rl_id l) fee (sd_id d) (action @ '':'' @ rl_id l) s t"
  by (auto simp: refund_fee_tx_def tx_simps repaid_def [of _ _ _ 0] dest: credit_repaid split: if_splits)

definition refunded_lot :: "lot_row \<Rightarrow> int \<Rightarrow> int \<Rightarrow> int \<Rightarrow> int \<Rightarrow> lot_row" where
  "refunded_lot l n from_available f fee_from_revenue =
     l\<lparr>l_reversed := l_reversed l + n, l_unlocked := l_unlocked l - from_available,
       l_commission_reversed := l_commission_reversed l + f, l_commission_unlocked := l_commission_unlocked l - fee_from_revenue\<rparr>"

lemma refund_lot_cases:
  assumes "refund_lot_tx d rl taken time s = Inr (x, t)" "distinct (map l_id (lots s))"
    and "split_refund rl taken = (n, f)"
  defines "fp \<equiv> min n (rl_net rl - rl_reversed rl - rl_unlocked rl)"
  defines "fa \<equiv> min (n - fp) (rl_unlocked rl - rl_held rl - rl_paid rl - rl_converted rl)"
  defines "cp \<equiv> min f (rl_fee rl - rl_fee_reversed rl - rl_fee_unlocked rl)"
  obtains l s1 s2 s3 s4 where
    "repaid (sd_buyer d) ''provider_pending'' (sd_provider d) (max fp 0) (sd_id d) (''refund_pending:'' @ rl_id rl) s s1"
    "repaid (sd_buyer d) ''provider_available'' (sd_provider d) (max fa 0) (sd_id d) (''refund_available:'' @ rl_id rl) s1 s2"
    "repaid (sd_buyer d) ''platform_commission_pending'' (rl_id rl) cp (sd_id d) (''refund_commission_pending:'' @ rl_id rl) s2 s3"
    "repaid (sd_buyer d) ''platform_commission_revenue'' (rl_id rl) (f - cp) (sd_id d) (''refund_commission_revenue:'' @ rl_id rl) s3 s4"
    "l \<in> set (lots s)" "l_id l = rl_id rl" "l_disputed l" "lot_check (refunded_lot l n fa f (f - cp))"
    "\<not> (\<exists>g \<in> set (commission_refunds s). rf_dispute g = sd_id d \<and> rf_lot g = rl_id rl)"
    "t = s4\<lparr>lots := put_lot (refunded_lot l n fa f (f - cp)) (lots s),
       commission_refunds := commission_refunds s @ [\<lparr>rf_dispute = sd_id d, rf_lot = rl_id rl, rf_gross = taken, rf_net = n,
           rf_fee = f, rf_created_at = time\<rparr>]\<rparr>"
proof -
  from assms(1,3) obtain s1 s2 s3 s4 s5 where
    a: "refund_part_tx (sd_buyer d) fp ''provider_pending'' (sd_provider d) (sd_id d)
             (''refund_pending:'' @ rl_id rl) ''service refund journal already exists'' time s = Inr ((), s1)"
    and b: "refund_part_tx (sd_buyer d) fa ''provider_available'' (sd_provider d) (sd_id d)
             (''refund_available:'' @ rl_id rl) ''service refund journal already exists'' time s1 = Inr ((), s2)"
    and c: "refund_fee_tx d rl cp ''platform_commission_pending'' ''refund_commission_pending'' time s2 = Inr ((), s3)"
    and e: "refund_fee_tx d rl (f - cp) ''platform_commission_revenue'' ''refund_commission_revenue'' time s3 = Inr ((), s4)"
    and u: "reverse_lot_tx rl n fa f (f - cp) s4 = Inr (Suc 0, s5)"
    and i: "insert_refund_tx \<lparr>rf_dispute = sd_id d, rf_lot = rl_id rl, rf_gross = taken, rf_net = n, rf_fee = f,
        rf_created_at = time\<rparr> s5 = Inr ((), t)"
    unfolding fp_def fa_def cp_def refund_lot_tx_def by (auto simp: tx_simps Let_def)
  note r = refund_part_repaid [OF a] refund_part_repaid [OF b] refund_fee_repaid [OF c] refund_fee_repaid [OF e]
  have more: "wallet_db.more s4 = wallet_db.more s"
    using r by (auto simp: repaid_def split: if_splits)
  then have m: "lots s4 = lots s" "commission_refunds s4 = commission_refunds s" by (cases s; cases s4; simp)+
  obtain l where l: "l \<in> set (lots s)" "l_id l = rl_id rl" "l_disputed l" "lot_check (refunded_lot l n fa f (f - cp))"
    "s5 = s4\<lparr>lots := put_lot (refunded_lot l n fa f (f - cp)) (lots s)\<rparr>"
    using u [unfolded reverse_lot_tx_def] assms(2) m(1)
    by (elim update_one_lot [where i = "rl_id rl"]) (auto simp: refunded_lot_def lot_update_ok_def)
  from i l(5) m(2) have t: "t = s4\<lparr>lots := put_lot (refunded_lot l n fa f (f - cp)) (lots s),
       commission_refunds := commission_refunds s @ [\<lparr>rf_dispute = sd_id d, rf_lot = rl_id rl, rf_gross = taken, rf_net = n,
           rf_fee = f, rf_created_at = time\<rparr>]\<rparr>"
    "\<not> (\<exists>g \<in> set (commission_refunds s). rf_dispute g = sd_id d \<and> rf_lot g = rl_id rl)"
    by (auto simp: insert_refund_tx_def split: if_splits)
  show thesis
    by (rule that [OF r(1,2) _ _ l(1-4) t(2,1)]) (use r(3,4) in simp_all)
qed

end
