(* ===== verification/Earning_Invariant.thy ===== *)
theory Earning_Invariant
  imports Earning_Steps
begin

text \<open>
  The invariant of Provider earnings. For every Provider the pending and available
  accounts of the journal hold exactly what the Provider's lots say is pending and
  available; for every lot the two commission accounts hold its pending and earned fee;
  a lot with an active hold is frozen; and what disputes and slices refer to exists and
  belongs to the same Buyer and Provider. Every operation keeps it.
\<close>


section \<open>The books\<close>

definition available_net :: "lot_row \<Rightarrow> int" where
  "available_net l = l_unlocked l - l_held l - l_paid l - l_converted l"

definition lots_sum :: "(lot_row \<Rightarrow> string) \<Rightarrow> (lot_row \<Rightarrow> int) \<Rightarrow> string \<Rightarrow> lot_row list \<Rightarrow> int" where
  "lots_sum key f x ls = sum_list (map (\<lambda>l. if key l = x then f l else 0) ls)"

definition books_ok :: "'a market_db_scheme \<Rightarrow> bool" where
  "books_ok s \<longleftrightarrow>
     (\<forall>x. acct_sum ''provider_pending'' x s = - lots_sum l_provider pending_net x (lots s)
        \<and> acct_sum ''provider_available'' x s = - lots_sum l_provider available_net x (lots s)
        \<and> acct_sum ''platform_commission_pending'' x s = - lots_sum l_id pending_fee x (lots s)
        \<and> acct_sum ''platform_commission_revenue'' x s = - lots_sum l_id l_commission_unlocked x (lots s))"

lemma lots_sum_append [simp]: "lots_sum key f x (xs @ ys) = lots_sum key f x xs + lots_sum key f x ys"
  by (simp add: lots_sum_def)

lemma lots_sum_single [simp]: "lots_sum key f x [l] = (if key l = x then f l else 0)"
  by (simp add: lots_sum_def)

lemma lots_sum_reflag:
  assumes "\<And>l b. key (l\<lparr>l_disputed := b\<rparr>) = key l" "\<And>l b. f (l\<lparr>l_disputed := b\<rparr>) = f l"
  shows "lots_sum key f x (reflag ids s ls) = lots_sum key f x ls"
  unfolding lots_sum_def reflag_def map_map
  by (rule arg_cong [where f = sum_list], rule map_cong) (auto simp: assms)

lemma lots_sum_put:
  assumes "distinct (map l_id ls)" "l \<in> set ls" "l_id l' = l_id l" "key l' = key l"
  shows "lots_sum key f x (put_lot l' ls) = lots_sum key f x ls + (if key l = x then f l' - f l else 0)"
  using sum_list_update_one [OF assms(1,2) refl, of "\<lambda>_. True" "\<lambda>l. if key l = x then f l else 0" "\<lambda>_. l'"] assms(3,4)
  by (simp add: lots_sum_def put_lot_def)

lemmas lot_amounts = pending_net_def available_net_def pending_fee_def l_net_def

lemma books_reflag:
  assumes "postings t = postings s" "lots t = reflag ids h (lots s)" "books_ok s"
  shows "books_ok t"
  using assms by (simp add: books_ok_def acct_rows_cong [OF assms(1)] lots_sum_reflag lot_amounts)

lemma books_put:
  assumes ok: "books_ok s" and d: "distinct (map l_id (lots s))" "l \<in> set (lots s)"
    and l': "l_id l' = l_id l" "l_provider l' = l_provider l" and t: "lots t = put_lot l' (lots s)"
    and moved: "\<And>x. acct_sum ''provider_pending'' x t = acct_sum ''provider_pending'' x s
        + (if l_provider l = x then pending_net l - pending_net l' else 0)"
      "\<And>x. acct_sum ''provider_available'' x t = acct_sum ''provider_available'' x s
        + (if l_provider l = x then available_net l - available_net l' else 0)"
      "\<And>x. acct_sum ''platform_commission_pending'' x t = acct_sum ''platform_commission_pending'' x s
        + (if l_id l = x then pending_fee l - pending_fee l' else 0)"
      "\<And>x. acct_sum ''platform_commission_revenue'' x t = acct_sum ''platform_commission_revenue'' x s
        + (if l_id l = x then l_commission_unlocked l - l_commission_unlocked l' else 0)"
  shows "books_ok t"
  using ok unfolding books_ok_def t moved lots_sum_put [OF d l'(1) l'(2)] lots_sum_put [OF d l'(1) l'(1)] by simp


section \<open>The tables\<close>

definition lots_ok :: "'a market_db_scheme \<Rightarrow> bool" where
  "lots_ok s \<longleftrightarrow>
     distinct (map l_id (lots s))
     \<and> (\<forall>l \<in> set (lots s). lot_check l \<and> (has_active_hold s (l_id l) \<longrightarrow> l_disputed l))"

definition refs_ok :: "'a market_db_scheme \<Rightarrow> bool" where
  "refs_ok s \<longleftrightarrow>
     distinct (map ds_id (slices s)) \<and> distinct (map sd_id (service_disputes s)) \<and> distinct (dispute_lots s)
     \<and> l_slice ` set (lots s) \<subseteq> ds_id ` set (slices s)
     \<and> eh_lot ` set (earning_holds s) \<subseteq> l_id ` set (lots s)
     \<and> snd ` set (dispute_lots s) \<subseteq> l_id ` set (lots s)
     \<and> fst ` set (dispute_lots s) \<subseteq> sd_id ` set (service_disputes s)"

definition same_parties :: "contract_row \<Rightarrow> string \<Rightarrow> string \<Rightarrow> bool" where
  "same_parties c buyer provider \<longleftrightarrow> pc_buyer c = buyer \<and> pc_provider c = provider"

definition parties_ok :: "'a market_db_scheme \<Rightarrow> bool" where
  "parties_ok s \<longleftrightarrow>
     distinct (map pc_id (platform_contracts s))
     \<and> (\<forall>l \<in> set (lots s). \<forall>d \<in> set (slices s). l_slice l = ds_id d \<longrightarrow>
          (\<exists>c \<in> set (platform_contracts s). pc_id c = ds_contract d \<and> same_parties c (l_buyer l) (l_provider l)))
     \<and> (\<forall>x \<in> set (service_disputes s). \<exists>c \<in> set (platform_contracts s).
          pc_id c = sd_contract x \<and> same_parties c (sd_buyer x) (sd_provider x))
     \<and> (\<forall>x \<in> set (service_disputes s). \<forall>l \<in> set (lots s). (sd_id x, l_id l) \<in> set (dispute_lots s) \<longrightarrow>
          l_buyer l = sd_buyer x \<and> l_provider l = sd_provider x)"

definition earn_inv :: "'a market_db_scheme \<Rightarrow> bool" where
  "earn_inv s \<longleftrightarrow> wallet_inv s \<and> books_ok s \<and> lots_ok s \<and> refs_ok s \<and> parties_ok s"

lemmas tables_ok_defs = lots_ok_def refs_ok_def parties_ok_def

text \<open>The columns of a lot that no operation changes.\<close>

definition lot_ident ::
  "lot_row \<Rightarrow> string \<times> string \<times> string \<times> string \<times> int \<times> int \<times> string \<times> string \<times> string"
where
  "lot_ident l = (l_id l, l_slice l, l_buyer l, l_provider l, l_amount l, l_commission l, l_debited_at l, l_fulfilled_at l,
     l_unlock_at l)"

lemma refs_parties_idents:
  assumes "map lot_ident (lots t) = map lot_ident (lots s)"
    "slices t = slices s" "service_disputes t = service_disputes s" "dispute_lots t = dispute_lots s"
    "platform_contracts t = platform_contracts s" "eh_lot ` set (earning_holds t) \<subseteq> l_id ` set (lots s)"
    "refs_ok s" "parties_ok s"
  shows "refs_ok t \<and> parties_ok t"
proof -
  have img: "lot_ident ` set (lots t) = lot_ident ` set (lots s)"
    using arg_cong [OF assms(1), of set] by simp
  have ids: "l_id ` set (lots t) = l_id ` set (lots s)" "l_slice ` set (lots t) = l_slice ` set (lots s)"
    using arg_cong [OF img, of "image fst"] arg_cong [OF img, of "image (fst \<circ> snd)"]
    by (simp_all add: image_image lot_ident_def)
  have "\<exists>m \<in> set (lots s). lot_ident m = lot_ident l" if "l \<in> set (lots t)" for l
    using img that by (metis (no_types, lifting) image_iff)
  then have same: "\<exists>m \<in> set (lots s). l_id m = l_id l \<and> l_slice m = l_slice l \<and> l_buyer m = l_buyer l \<and> l_provider m = l_provider l"
    if "l \<in> set (lots t)" for l using that by (fastforce simp: lot_ident_def)
  have "refs_ok t" using assms(2-7) by (simp add: refs_ok_def ids)
  moreover have "parties_ok t"
    unfolding parties_ok_def assms(2-5)
  proof (intro conjI ballI impI)
    fix l d
    assume "l \<in> set (lots t)" "d \<in> set (slices s)" "l_slice l = ds_id d"
    with same [of l] assms(8)
    show "\<exists>c \<in> set (platform_contracts s). pc_id c = ds_contract d \<and> same_parties c (l_buyer l) (l_provider l)"
      by (auto simp: parties_ok_def)
  next
    fix x l
    assume x: "x \<in> set (service_disputes s)" "l \<in> set (lots t)" "(sd_id x, l_id l) \<in> set (dispute_lots s)"
    with same [of l] assms(8) show "l_buyer l = sd_buyer x" "l_provider l = sd_provider x"
      by (auto simp: parties_ok_def)
  qed (use assms(8) in \<open>auto simp: parties_ok_def\<close>)
  ultimately show ?thesis by blast
qed

lemma reflag_idents [simp]: "map lot_ident (reflag ids s ls) = map lot_ident ls" "map l_id (reflag ids s ls) = map l_id ls"
  by (auto simp: reflag_def lot_ident_def)

lemma put_lot_idents:
  "distinct (map l_id ls) \<Longrightarrow> l \<in> set ls \<Longrightarrow> lot_ident l' = lot_ident l \<Longrightarrow> map lot_ident (put_lot l' ls) = map lot_ident ls"
  by (auto simp: put_lot_def lot_ident_def dest: l_id_inj)

text \<open>\<open>kept\<close>: no lot is added or loses its identity, and the evidence of deliveries stands.\<close>

definition kept :: "'a market_db_scheme \<Rightarrow> 'a market_db_scheme \<Rightarrow> bool" where
  "kept s t \<longleftrightarrow>
     map lot_ident (lots t) = map lot_ident (lots s) \<and> slices t = slices s \<and> commission_splits t = commission_splits s
     \<and> commission_periods t = commission_periods s \<and> contract_terms t = contract_terms s \<and> quote_terms t = quote_terms s
     \<and> commission_policies t = commission_policies s \<and> map pc_id (platform_contracts t) = map pc_id (platform_contracts s)"

lemma kept_refl [simp]: "kept s s"
  by (simp add: kept_def)

lemma kept_trans: "kept s t \<Longrightarrow> kept t u \<Longrightarrow> kept s u"
  by (simp add: kept_def)

lemma kept_idents: "kept s t \<Longrightarrow> lot_ident ` set (lots t) = lot_ident ` set (lots s)"
  unfolding kept_def by (metis list.set_map)


section \<open>Holding and releasing\<close>

lemma earn_inv_held:
  assumes h: "held ids s t" and inv: "earn_inv s" and ids: "ids \<subseteq> l_id ` set (lots s)"
  shows "earn_inv t"
proof -
  from h obtain n a b hs cs where t: "t = s\<lparr>uuid_drawn := n, notification_outbox := a, operator_outbox := b,
           lots := reflag ids (s\<lparr>earning_holds := hs\<rparr>) (lots s), earning_holds := hs, finance_cases := cs\<rparr>"
    and old: "\<And>x. x \<notin> ids \<Longrightarrow> has_active_hold t x \<Longrightarrow> has_active_hold s x"
    and lot: "eh_lot ` set (earning_holds t) \<subseteq> eh_lot ` set (earning_holds s) \<union> ids"
    unfolding held_def by blast
  have flag: "has_active_hold t x = has_active_hold (s\<lparr>earning_holds := hs\<rparr>) x" for x
    by (simp add: has_active_hold_def t)
  have "wallet_inv t" using inv wallet_inv_cong [of t s] by (simp add: earn_inv_def t)
  moreover have "books_ok t"
    by (rule books_reflag [where s = s]) (use inv in \<open>simp_all add: t earn_inv_def\<close>)
  moreover have "lots_ok t"
  proof -
    have "lot_check l \<and> (has_active_hold t (l_id l) \<longrightarrow> l_disputed l)" if "l \<in> set (lots t)" for l
    proof -
      from that obtain m where m: "m \<in> set (lots s)"
        "l = (if l_id m \<in> ids then m\<lparr>l_disputed := has_active_hold (s\<lparr>earning_holds := hs\<rparr>) (l_id m)\<rparr> else m)"
        by (auto simp: t reflag_def)
      then have "lot_check m" "has_active_hold s (l_id m) \<longrightarrow> l_disputed m"
        using inv by (auto simp: earn_inv_def lots_ok_def)
      with m(2) old [of "l_id m"] flag show ?thesis
        by (auto simp: lot_check_def l_net_def)
    qed
    with inv show ?thesis by (auto simp: lots_ok_def earn_inv_def t)
  qed
  moreover have "refs_ok t \<and> parties_ok t"
  proof (rule refs_parties_idents [of t s])
    have "eh_lot ` set (earning_holds s) \<subseteq> l_id ` set (lots s)" using inv by (simp add: earn_inv_def refs_ok_def)
    with lot ids show "eh_lot ` set (earning_holds t) \<subseteq> l_id ` set (lots s)" by (meson Un_least order_trans)
    show "map lot_ident (lots t) = map lot_ident (lots s)" by (simp add: t)
  qed (simp_all add: t inv [unfolded earn_inv_def])
  ultimately show ?thesis by (simp add: earn_inv_def)
qed

lemma contract_lots_known: "set (contract_lots c s) \<subseteq> l_id ` set (lots s)"
  by (auto simp: contract_lots_def)

lemma dispute_lots_known: "refs_ok s \<Longrightarrow> set (dispute_lot_ids d s) \<subseteq> l_id ` set (lots s)"
  by (force simp: dispute_lot_ids_def refs_ok_def)

lemma hold_contract_inv: "hold_contract_earnings_tx c k time s = Inr (x, t) \<Longrightarrow> earn_inv s \<Longrightarrow> earn_inv t"
  by (meson hold_contract_held earn_inv_held contract_lots_known)

lemma hold_dispute_inv: "hold_dispute_earnings_tx d time s = Inr (x, t) \<Longrightarrow> earn_inv s \<Longrightarrow> earn_inv t"
  by (rule earn_inv_held [OF hold_dispute_held]) (auto simp: earn_inv_def intro: dispute_lots_known [THEN subsetD])

lemma release_holds_inv: "release_earning_holds_tx k r actor why time s = Inr (n, t) \<Longrightarrow> earn_inv s \<Longrightarrow> earn_inv t"
  using release_holds_held [of k r actor why time s n t] earn_inv_held [of _ s t]
  unfolding earn_inv_def refs_ok_def by (meson order_trans)

lemma hold_failed_unlock_inv:
  "hold_failed_unlock_tx T lot time s = Inr (x, t) \<Longrightarrow> earn_inv s \<Longrightarrow> lot \<in> l_id ` set (lots s) \<Longrightarrow> earn_inv t"
  by (rule earn_inv_held [OF hold_failed_unlock_held]) auto


section \<open>Changing one lot\<close>

lemma more_fields:
  assumes "wallet_db.more t = wallet_db.more (s :: 'a market_db_scheme)"
  shows "lots t = lots s" "slices t = slices s" "service_disputes t = service_disputes s" "dispute_lots t = dispute_lots s"
    "platform_contracts t = platform_contracts s" "earning_holds t = earning_holds s"
    "commission_splits t = commission_splits s" "commission_periods t = commission_periods s"
    "contract_terms t = contract_terms s" "commission_refunds t = commission_refunds s"
    "commission_policies t = commission_policies s" "quote_terms t = quote_terms s"
  using assms by (cases s, cases t, simp)+

text \<open>Everything but the books when one lot is replaced by a later state of itself.\<close>

lemma tables_put:
  assumes inv: "lots_ok s" "refs_ok s" "parties_ok s" and l: "l \<in> set (lots s)" "lot_ident l' = lot_ident l"
    and ok: "lot_check l'" "l_disputed l' = l_disputed l"
    and t: "lots t = put_lot l' (lots s)" "slices t = slices s" "service_disputes t = service_disputes s"
      "dispute_lots t = dispute_lots s" "platform_contracts t = platform_contracts s" "earning_holds t = earning_holds s"
  shows "lots_ok t \<and> refs_ok t \<and> parties_ok t"
proof -
  have d: "distinct (map l_id (lots s))" using inv(1) by (simp add: lots_ok_def)
  have id: "l_id l' = l_id l" using l(2) by (simp add: lot_ident_def)
  have held: "has_active_hold t x = has_active_hold s x" for x by (rule has_active_hold_cong [OF t(6)])
  have old: "lot_check m \<and> (has_active_hold s (l_id m) \<longrightarrow> l_disputed m)" if "m \<in> set (lots s)" for m
    using that inv(1) by (simp add: lots_ok_def)
  have "lot_check m \<and> (has_active_hold t (l_id m) \<longrightarrow> l_disputed m)" if "m \<in> set (lots t)" for m
    using that old [of m] old [OF l(1)] ok id unfolding held t set_put_lot [OF l(1) id] by auto
  with d have "lots_ok t" by (simp add: lots_ok_def t(1))
  moreover have "refs_ok t \<and> parties_ok t"
    by (rule refs_parties_idents [of t s]) (use t inv put_lot_idents [OF d l] in \<open>auto simp: refs_ok_def\<close>)
  ultimately show ?thesis by blast
qed

lemma acct_sum_posted: "posted s j ps t \<Longrightarrow> acct_sum k x t = acct_sum k x s + sum_list (acct_units k x ps)"
  by (simp add: acct_rows_posted)

lemma unlock_lot_inv:
  assumes op: "unlock_lot_tx lot prov units mat at s = Inr (x, t)" and inv: "earn_inv s"
    and prov: "\<And>l. l \<in> set (lots s) \<Longrightarrow> l_id l = lot \<Longrightarrow> l_provider l = prov"
  shows "earn_inv t" "kept s t"
proof -
  have ok: "wallet_inv s" "books_ok s" "lots_ok s" "refs_ok s" "parties_ok s" and d: "distinct (map l_id (lots s))"
    using inv by (auto simp: earn_inv_def lots_ok_def)
  from unlock_lot_cases [OF op d] obtain l j t1 where l: "l \<in> set (lots s)" "l_id l = lot" "pending_net l = units"
    "lot_check (unlocked_lot l)" and post: "posted s j (unlock_postings lot prov units (pending_fee l)) t1"
    and t: "t = t1\<lparr>lots := put_lot (unlocked_lot l) (lots s)\<rparr>" by metis
  have p: "l_provider l = prov" using prov l(1,2) by blast
  have chk: "lot_check l" using ok(3) l(1) by (simp add: lots_ok_def)
  then have nn: "0 \<le> pending_net l" "0 \<le> pending_fee l" by (auto simp: lot_check_def lot_amounts)
  have ident: "lot_ident (unlocked_lot l) = lot_ident l" by (simp add: unlocked_lot_def lot_ident_def)
  have frame: "slices t1 = slices s" "service_disputes t1 = service_disputes s" "dispute_lots t1 = dispute_lots s"
    "platform_contracts t1 = platform_contracts s" "earning_holds t1 = earning_holds s"
    using post by (auto simp: posted_def)
  have rows: "acct_sum k x t = acct_sum k x t1" for k x by (rule arg_cong [OF acct_rows_cong]) (simp add: t)
  have "wallet_inv t1"
    by (rule wallet_inv_post_other [OF post ok(1)]) (auto simp: unlock_postings_def split: if_splits)
  then have "wallet_inv t" using wallet_inv_cong [of t t1] by (simp add: t)
  moreover have "books_ok t"
  proof (rule books_put [OF ok(2) d l(1)])
    show "lots t = put_lot (unlocked_lot l) (lots s)" by (simp add: t)
  qed (use nn l(2,3) p in \<open>auto simp: rows acct_sum_posted [OF post] unlock_postings_def unlocked_lot_def lot_amounts\<close>)
  moreover have "lots_ok t \<and> refs_ok t \<and> parties_ok t"
    by (rule tables_put [OF ok(3-5) l(1) ident l(4)]) (simp_all add: t unlocked_lot_def frame)
  ultimately show "earn_inv t" by (simp add: earn_inv_def)
  show "kept s t"
    using frame more_fields [OF posted_frame(5) [OF post]] by (simp add: kept_def t put_lot_idents [OF d l(1) ident])
qed

lemma held_kept: "held ids s t \<Longrightarrow> kept s t"
  by (auto simp: held_def kept_def)

lemma try_unlock_inv:
  assumes op: "try_unlock_tx T l at s = Inr (n, t)" and inv: "earn_inv s" and l: "lot_ident l \<in> lot_ident ` set (lots s)"
  shows "earn_inv t \<and> kept s t"
proof (cases "unlock_lot_tx (l_id l) (l_provider l) (pending_net l) (l_unlock_at l) at s")
  case (Inr z)
  have "l_provider m = l_provider l" if "m \<in> set (lots s)" "l_id m = l_id l" for m
  proof -
    from l obtain k where k: "k \<in> set (lots s)" "lot_ident k = lot_ident l" by auto
    then have "k = m" using that l_id_inj inv by (metis earn_inv_def lots_ok_def lot_ident_def prod.inject)
    with k show ?thesis by (simp add: lot_ident_def)
  qed
  with Inr op unlock_lot_inv [of "l_id l" "l_provider l" "pending_net l" "l_unlock_at l" at s "fst z" "snd z"] inv
  show ?thesis by (auto simp: try_unlock_tx_def split: prod.splits)
next
  case (Inl e)
  with op obtain x where h: "hold_failed_unlock_tx T (l_id l) at s = Inr (x, t)"
    by (auto simp: try_unlock_tx_def tx_simps)
  have "l_id l \<in> l_id ` set (lots s)" using l by (force simp: lot_ident_def)
  with hold_failed_unlock_inv [OF h inv] held_kept [OF hold_failed_unlock_held [OF h]] show ?thesis by blast
qed

lemma unlock_rows_inv:
  assumes "unlock_rows_tx T ls at_utc at s = Inr (n, t)" "earn_inv s" "lot_ident ` set ls \<subseteq> lot_ident ` set (lots s)"
  shows "earn_inv t \<and> kept s t"
  using assms
proof (induction ls arbitrary: s n)
  case (Cons l ls)
  from Cons.prems(1) obtain m where "parse_utc T (l_unlock_at l) = Inr m"
    and rest: "(if at_utc < m then unlock_rows_tx T ls at_utc at
      else bind_tx (try_unlock_tx T l at) (\<lambda>n. bind_tx (unlock_rows_tx T ls at_utc at) (\<lambda>m. return_tx (n + m)))) s = Inr (n, t)"
    by (auto simp: tx_simps)
  show ?case
  proof (cases "at_utc < m")
    case True
    with rest Cons.IH [of s n] Cons.prems(2,3) show ?thesis by simp
  next
    case False
    with rest obtain a b u where one: "try_unlock_tx T l at s = Inr (a, u)" and more: "unlock_rows_tx T ls at_utc at u = Inr (b, t)"
      by (auto simp: tx_simps)
    have u: "earn_inv u \<and> kept s u"
      using try_unlock_inv [OF one Cons.prems(2)] Cons.prems(3) by simp
    then have "lot_ident ` set ls \<subseteq> lot_ident ` set (lots u)"
      using Cons.prems(3) kept_idents [of s u] by simp
    with Cons.IH [OF more] u show ?thesis using kept_trans by blast
  qed
qed (simp add: tx_simps)

lemma unlock_batch_inv:
  assumes "unlock_due_earnings_isolated T at limit s = Inr (n, t)" "earn_inv s"
  shows "earn_inv t" "kept s t"
proof -
  from assms(1) obtain at_utc where "unlock_rows_tx T (due_lots limit s) at_utc at s = Inr (n, t)"
    by (auto simp: unlock_due_earnings_isolated_def tx_simps)
  moreover have "set (due_lots limit s) \<subseteq> set (lots s)"
    by (auto simp: due_lots_def dest!: in_set_takeD)
  ultimately show "earn_inv t" "kept s t" using unlock_rows_inv assms(2) by (metis image_mono)+
qed


section \<open>Deliveries\<close>

text \<open>
  \<open>funded\<close>: the journal of a delivery has booked its gross amount as pending for the
  Provider, and nothing else of the earnings has changed yet.
\<close>

definition earning_kinds :: "string list" where
  "earning_kinds = [''provider_pending'', ''provider_available'', ''platform_commission_pending'', ''platform_commission_revenue'']"

definition funded :: "string \<Rightarrow> int \<Rightarrow> string \<Rightarrow> 'a market_db_scheme \<Rightarrow> 'a market_db_scheme \<Rightarrow> bool" where
  "funded prov amt jid s s1 \<longleftrightarrow>
     wallet_inv s1 \<and> wallet_db.more s1 = wallet_db.more s \<and> prov \<noteq> [] \<and> in_i64 amt
     \<and> (\<exists>j ps. j_id j = jid \<and> j_source_kind j \<notin> {''earning_lot'', ''service_dispute''} \<and> appended s j ps s1
          \<and> (\<forall>k \<in> set earning_kinds. \<forall>x. acct_units k x ps = (if k = ''provider_pending'' \<and> x = prov then [- amt] else [])))"

lemma post_funded:
  assumes "post_journal_tx sk sid ''earn'' fp (earn_postings period prov amt) now s = Inr (r, s1)" "jr_inserted r"
    "wallet_inv s" "sk \<notin> {''earning_lot'', ''service_dispute''}" "in_i64 amt"
  shows "funded prov amt (jr_id r) s s1"
  using assms(1)
proof (cases rule: post_journal_tx_cases)
  case (fresh j)
  have "wallet_inv s1" by (rule wallet_inv_post_other [OF fresh(10) assms(3)]) (auto simp: earn_postings_def)
  moreover have "prov \<noteq> []" using fresh(10) by (auto simp: posted_def postings_balanced_def earn_postings_def)
  ultimately show ?thesis
    using posted_frame(5) [OF fresh(10)] posted_appended [OF fresh(10)] fresh(3,4) assms(4,5)
    unfolding funded_def by (intro conjI exI [of _ j] exI [of _ "earn_postings period prov amt"])
      (auto simp: earn_postings_def earning_kinds_def)
qed (use assms(2) in simp)

lemma capture_funded:
  assumes op: "capture_hold_tx h amt ''provider_pending'' prov ak aid now s = Inr (r, s1)" and ins: "jr_inserted r"
    and inv: "wallet_inv s" and ak: "ak \<notin> {''earning_lot'', ''service_dispute''}"
  shows "funded prov amt (jr_id r) s s1"
  using op
proof (cases rule: capture_hold_cases)
  case (fresh h' j t1 w)
  have "appended s j [\<lparr>p_kind = ''wallet_held'', p_subject = h_user h', p_units = amt\<rparr>,
      \<lparr>p_kind = ''provider_pending'', p_subject = prov, p_units = - amt\<rparr>] s1"
    using posted_appended [OF fresh(6)] fresh(10) by (simp add: appended_def)
  moreover have "wallet_db.more s1 = wallet_db.more s" using posted_frame(5) [OF fresh(6)] fresh(10) by simp
  moreover have "prov \<noteq> []" using fresh(6) by (auto simp: posted_def postings_balanced_def)
  moreover have "in_i64 amt"
    using wallet_inv_row [OF inv fresh(8)] fresh(2,9) by (auto simp: wallet_check_def i64_defs)
  ultimately show ?thesis
    using capture_hold_inv [OF op inv] fresh(11,12) ak unfolding funded_def
    by (intro conjI exI [of _ j] exI) (auto simp: earning_kinds_def)
qed (use ins in simp)

lemma funded_books:
  assumes "funded prov amt jid s s1" "k \<in> set earning_kinds"
  shows "acct_sum k x s1 = acct_sum k x s - (if k = ''provider_pending'' \<and> x = prov then amt else 0)"
  using assms by (auto simp: funded_def acct_rows_appended)

lemma cumulative_fee_mono:
  assumes "cumulative_fee a r = Inr x" "cumulative_fee b r = Inr y" "a \<le> b"
  shows "x \<le> y"
  using assms half_up_bps_mono [of a b r]
  by (auto simp: cumulative_fee_def half_up_bps_def rate_check_def split: if_splits)

lemma allocation_books:
  assumes "allocate_delivery_tx lot c per sk amt prov now s = Inr (a, u)" "wallet_inv s" "0 < amt"
  shows "wallet_inv u" "wallet_db.more u = wallet_db.more s" "0 \<le> da_fee_units a"
    "\<And>k x. k \<in> set earning_kinds \<Longrightarrow> acct_sum k x u = acct_sum k x s
       + (if k = ''provider_pending'' \<and> x = prov then da_fee_units a else 0)
       - (if k = ''platform_commission_pending'' \<and> x = lot then da_fee_units a else 0)"
proof -
  have "wallet_inv u \<and> wallet_db.more u = wallet_db.more s \<and> 0 \<le> da_fee_units a
    \<and> (\<forall>k \<in> set earning_kinds. \<forall>x. acct_sum k x u = acct_sum k x s
       + (if k = ''provider_pending'' \<and> x = prov then da_fee_units a else 0)
       - (if k = ''platform_commission_pending'' \<and> x = lot then da_fee_units a else 0))"
    using assms(1)
  proof (cases rule: allocate_delivery_cases)
    case unsplit
    then show ?thesis using assms(2) by (simp add: no_allocation_def)
  next
    case (split p)
    then have fee: "0 \<le> da_fee_units a"
      using assms(3) cumulative_fee_mono by (force simp: allocated_def)
    show ?thesis
    proof (cases "0 < da_fee_units a")
      case True
      with split obtain j where post: "posted s j (commission_postings prov lot (da_fee_units a)) u"
        by (auto simp: allocated_def)
      have "wallet_inv u" by (rule wallet_inv_post_other [OF post assms(2)]) (auto simp: commission_postings_def)
      then show ?thesis
        using fee posted_frame(5) [OF post] acct_sum_posted [OF post]
        by (auto simp: commission_postings_def earning_kinds_def)
    next
      case False
      with split fee show ?thesis using assms(2) by (auto simp: allocated_def)
    qed
  qed
  then show "wallet_inv u" "wallet_db.more u = wallet_db.more s" "0 \<le> da_fee_units a"
    "\<And>k x. k \<in> set earning_kinds \<Longrightarrow> acct_sum k x u = acct_sum k x s
       + (if k = ''provider_pending'' \<and> x = prov then da_fee_units a else 0)
       - (if k = ''platform_commission_pending'' \<and> x = lot then da_fee_units a else 0)" by blast+
qed


lemma dispute_parties:
  assumes "parties_ok s" "x \<in> set (service_disputes s)" "k \<in> set (platform_contracts s)" "pc_id k = sd_contract x"
  shows "same_parties k (sd_buyer x) (sd_provider x)"
proof -
  from assms(1,2) obtain c where c: "c \<in> set (platform_contracts s)" "pc_id c = sd_contract x"
    "same_parties c (sd_buyer x) (sd_provider x)" by (auto simp: parties_ok_def)
  have "c = k" using assms(1,3,4) c(1,2) by (metis parties_ok_def distinct_map inj_onD)
  with c show ?thesis by simp
qed

lemma new_lot_tables:
  assumes inv: "lots_ok s" "refs_ok s" "parties_ok s"
    and l: "l_id l \<notin> l_id ` set (lots s)" "lot_check l" "l_slice l = ds_id d" and d: "ds_id d \<notin> ds_id ` set (slices s)"
    and k: "k \<in> set (platform_contracts s)" "pc_id k = ds_contract d" "same_parties k (l_buyer l) (l_provider l)"
    and fr: "l_disputed l = (open_disputes (ds_contract d) s \<noteq> [])"
    and hs: "\<forall>h \<in> set hs. eh_lot h = l_id l" "open_disputes (ds_contract d) s = [] \<longrightarrow> hs = []"
    and t: "lots t = lots s @ [l]" "slices t = slices s @ [d]" "service_disputes t = service_disputes s"
      "platform_contracts t = platform_contracts s" "earning_holds t = earning_holds s @ hs"
      "dispute_lots t = dispute_lots s @ map (\<lambda>x. (x, l_id l)) (open_disputes (ds_contract d) s)"
  shows "lots_ok t \<and> refs_ok t \<and> parties_ok t"
proof -
  have refs: "l_slice ` set (lots s) \<subseteq> ds_id ` set (slices s)" "eh_lot ` set (earning_holds s) \<subseteq> l_id ` set (lots s)"
    "snd ` set (dispute_lots s) \<subseteq> l_id ` set (lots s)" "distinct (map sd_id (service_disputes s))"
    using inv(2) by (simp_all add: refs_ok_def)
  have newpair: "(x, l_id l) \<notin> set (dispute_lots s)" for x
    using refs(3) l(1) by (metis imageI snd_conv subsetD)
  have unheld: "\<not> has_active_hold s (l_id l)"
    unfolding has_active_hold_def using refs(2) l(1) by (metis imageI subsetD)
  have old: "has_active_hold t (l_id m) = has_active_hold s (l_id m)" if "m \<in> set (lots s)" for m
  proof -
    have "l_id m \<noteq> l_id l" using that l(1) by (metis imageI)
    then show ?thesis using hs(1) by (auto simp: has_active_hold_def t)
  qed
  have new: "has_active_hold t (l_id l) \<Longrightarrow> l_disputed l"
    using unheld hs(2) fr by (auto simp: has_active_hold_def t)
  have "lots_ok t"
    using inv(1) l(1,2) old new by (auto simp: lots_ok_def t)
  moreover have "refs_ok t"
  proof -
    have "set (open_disputes (ds_contract d) s) \<subseteq> sd_id ` set (service_disputes s)" "distinct (open_disputes (ds_contract d) s)"
      using refs(4) by (auto simp: open_disputes_def distinct_map_filter)
    with inv(2) d l(3) hs(1) newpair show ?thesis
      by (auto simp: refs_ok_def t distinct_map inj_on_def)
  qed
  moreover have "parties_ok t"
  proof -
    have slice: "\<exists>c \<in> set (platform_contracts s). pc_id c = ds_contract e \<and> same_parties c (l_buyer m) (l_provider m)"
      if "m \<in> set (lots t)" "e \<in> set (slices t)" "l_slice m = ds_id e" for m e
    proof (cases "m \<in> set (lots s)")
      case True
      then have "l_slice m \<in> ds_id ` set (slices s)" using refs(1) by blast
      then have "e \<in> set (slices s)" using that d by (auto simp: t)
      with True that(3) inv(3) show ?thesis by (auto simp: parties_ok_def)
    next
      case False
      then have "m = l" using that by (simp add: t)
      moreover have "e = d" using that l(3) d calculation by (auto simp: t)
      ultimately show ?thesis using k by blast
    qed
    have scope: "l_buyer m = sd_buyer x \<and> l_provider m = sd_provider x"
      if "x \<in> set (service_disputes s)" "m \<in> set (lots t)" "(sd_id x, l_id m) \<in> set (dispute_lots t)" for x m
    proof (cases "m \<in> set (lots s)")
      case True
      then have "l_id m \<noteq> l_id l" using l(1) by (metis imageI)
      then have "(sd_id x, l_id m) \<in> set (dispute_lots s)" using that by (auto simp: t)
      with True that(1) inv(3) show ?thesis by (auto simp: parties_ok_def)
    next
      case False
      then have m: "m = l" using that by (simp add: t)
      with that newpair have "sd_id x \<in> set (open_disputes (ds_contract d) s)" by (auto simp: t)
      then obtain y where y: "y \<in> set (service_disputes s)" "sd_id y = sd_id x" "sd_contract y = ds_contract d"
        by (auto simp: open_disputes_def)
      then have "y = x" using that(1) refs(4) by (meson distinct_map inj_onD)
      with y dispute_parties [OF inv(3) that(1) k(1)] k m show ?thesis by (auto simp: same_parties_def)
    qed
    show ?thesis using inv(3) slice scope by (auto simp: parties_ok_def t)
  qed
  ultimately show ?thesis by blast
qed

lemma deliver_inv:
  assumes inv: "earn_inv s" and f: "funded prov amt ej s s1"
    and op: "insert_slice_and_lot_tx T ck c sk sid per buyer prov st en amt dj ej deb now s1 = Inr (r, t)"
    and k: "k \<in> set (platform_contracts s)" "pc_id k = c" "same_parties k buyer prov"
  shows "earn_inv t"
  using op
proof (cases rule: insert_slice_and_lot_cases)
  case (1 n d l a xs u)
  let ?s = "s1\<lparr>uuid_drawn := n, slices := slices s1 @ [d]\<rparr>"
  have ok: "wallet_inv s1" "books_ok s" "lots_ok s" "refs_ok s" "parties_ok s"
    using inv f by (auto simp: earn_inv_def funded_def)
  have "wallet_inv ?s" using ok(1) wallet_inv_cong [of ?s s1] by simp
  note al = allocation_books [OF 1(1) this 1(8)]
  note m1 = more_fields [of s1 s] and mu = more_fields [OF al(2)]
  have m: "wallet_db.more s1 = wallet_db.more s" using f by (simp add: funded_def)
  note fields = mu m1 [OF m]
  from 1(2) obtain q hs where t: "t = u\<lparr>uuid_drawn := q, commission_splits := commission_splits u @ xs, lots := lots u @ [l],
           earning_holds := earning_holds u @ hs,
           dispute_lots := dispute_lots u @ map (\<lambda>x. (x, l_id l)) (open_disputes (ds_contract d) u)\<rparr>"
    and hs: "\<forall>h \<in> set hs. eh_lot h = l_id l" "open_disputes (ds_contract d) u = [] \<longrightarrow> hs = []"
    unfolding delivered_def by blast
  have od: "open_disputes c u = open_disputes c s" using fields by (simp add: open_disputes_def)
  have lot: "l_slice l = ds_id d" "l_buyer l = buyer" "l_provider l = prov" "lot_check l" "pending_net l = amt - da_fee_units a"
    "available_net l = 0" "pending_fee l = da_fee_units a" "l_commission_unlocked l = 0"
    "l_disputed l = (open_disputes (ds_contract d) s \<noteq> [])"
    using 1(3,4,6) od by (auto simp: fresh_lot_def lot_amounts)
  have rows: "acct_sum k x t = acct_sum k x s - (if k = ''provider_pending'' \<and> x = prov then amt - da_fee_units a else 0)
      - (if k = ''platform_commission_pending'' \<and> x = l_id l then da_fee_units a else 0)" if "k \<in> set earning_kinds" for k x
  proof -
    have "acct_rows k x t = acct_rows k x u" "acct_rows k x ?s = acct_rows k x s1"
      by (rule acct_rows_cong, simp add: t)+ 
    then show ?thesis using al(4) [OF that, of x] funded_books [OF f that, of x] by (simp split: if_splits)
  qed
  have lots_t: "lots t = lots s @ [l]" using fields by (simp add: t)
  have "wallet_inv t" using al(1) wallet_inv_cong [of t u] by (simp add: t)
  moreover have "books_ok t"
    using ok(2) lot(3,5-8) rows unfolding books_ok_def lots_t by (simp add: earning_kinds_def)
  moreover have "lots_ok t \<and> refs_ok t \<and> parties_ok t"
    by (rule new_lot_tables [OF ok(3-5), of l d k hs])
      (use 1(2,4) lot k hs od fields in \<open>auto simp: delivered_def t\<close>)
  ultimately show ?thesis by (simp add: earn_inv_def)
qed


text \<open>The contract of a delivery is signed between its Buyer and its Provider.\<close>

definition signed :: "string \<Rightarrow> string \<Rightarrow> string \<Rightarrow> 'a market_db_scheme \<Rightarrow> bool" where
  "signed contract buyer provider s \<longleftrightarrow>
     (\<exists>k \<in> set (platform_contracts s). pc_id k = contract \<and> same_parties k buyer provider)"

lemma existing_slice_same: "existing_slice_tx sk sid b p amt s = Inr (x, u) \<Longrightarrow> u = s"
  by (simp add: existing_slice_tx_def tx_simps)

lemma liability_same: "liability_balance_tx k x s = Inr (b, u) \<Longrightarrow> u = s"
  by (simp add: liability_balance_tx_def tx_simps)

lemma liability_range: "liability_balance_tx k x s = Inr (b, u) \<Longrightarrow> in_i64 b"
  by (auto simp: liability_balance_tx_def tx_simps checked_neg64_def checked_i64_def split: option.splits if_splits)

lemma metered_delivery_cases:
  assumes "record_captured_metered_delivery_tx T ck c batch h buyer prov st en amt now s = Inr (r, t)"
  obtains j s1 where "capture_hold_tx h amt ''provider_pending'' prov ''metered_batch'' batch now s = Inr (j, s1)" "jr_inserted j"
    "insert_slice_and_lot_tx T ck c ''metered_batch'' batch None buyer prov st en amt (jr_id j) (jr_id j) now now s1 = Inr (fst r, t)"
proof -
  from assms obtain u j s1 where "existing_slice_tx ''metered_batch'' batch buyer prov amt s = Inr (None, u)"
    "capture_hold_tx h amt ''provider_pending'' prov ''metered_batch'' batch now u = Inr (j, s1)" "jr_inserted j"
    "insert_slice_and_lot_tx T ck c ''metered_batch'' batch None buyer prov st en amt (jr_id j) (jr_id j) now now s1 = Inr (fst r, t)"
    by (auto simp: record_captured_metered_delivery_tx_def tx_simps)
  with existing_slice_same that show thesis by blast
qed

lemma monthly_delivery_cases:
  assumes "record_monthly_delivery_tx T ck c per src buyer prov st en amt dj deb now s = Inr (r, t)"
  obtains (again) "t = s"
  | (earned) fp j s1 where "post_journal_tx ''monthly_delivery'' src ''earn'' fp (earn_postings per prov amt) now s = Inr (j, s1)"
      "jr_inserted j" "insert_slice_and_lot_tx T ck c ''monthly_delivery'' src (Some per) buyer prov st en amt dj (jr_id j) deb now s1
        = Inr (r, t)" "in_i64 amt"
proof -
  from assms have pos: "0 < amt" by (auto simp: record_monthly_delivery_tx_def tx_simps validate_slice_def split: if_splits)
  from assms obtain x where ex: "existing_slice_tx ''monthly_delivery'' src buyer prov amt s = Inr (x, s)"
    by (auto simp: record_monthly_delivery_tx_def tx_simps dest: existing_slice_same)
  show thesis
  proof (cases x)
    case None
    with assms ex obtain b u fp j s1 where b: "liability_balance_tx ''unfulfilled'' per s = Inr (b, u)" "amt \<le> b"
      and j: "post_journal_tx ''monthly_delivery'' src ''earn'' fp (earn_postings per prov amt) now u = Inr (j, s1)"
      "jr_inserted j" "insert_slice_and_lot_tx T ck c ''monthly_delivery'' src (Some per) buyer prov st en amt dj (jr_id j) deb now s1
        = Inr (r, t)"
      by (auto simp: record_monthly_delivery_tx_def tx_simps)
    show thesis
      by (rule earned [OF j [unfolded liability_same [OF b(1)]]]) (use liability_range [OF b(1)] b(2) pos in \<open>simp add: i64_defs\<close>)
  next
    case (Some i)
    with assms ex again show thesis by (auto simp: record_monthly_delivery_tx_def tx_simps)
  qed
qed

lemma quota_delivery_cases:
  assumes "record_share_quota_delivery_tx T e units at s = Inr (r, t)"
  obtains (again) "t = s"
  | (earned) c per fp j s1 sid and p :: service_period_row where "te_contract e = Some c" "te_period e = Some per"
      "post_journal_tx ''share_quota'' (te_id e) ''earn'' fp (earn_postings per (te_provider e) units) at s = Inr (j, s1)" "jr_inserted j"
      "insert_slice_and_lot_tx T ''share'' c ''share_quota'' (te_id e) (Some per) (te_buyer e) (te_provider e) (sv_period_start p)
         (te_cutoff_at e) units (sv_debit_journal p) (jr_id j) (sv_debited_at p) at s1 = Inr (sid, t)" "in_i64 units"
proof (cases "units = 0")
  case True
  with assms again show thesis by (auto simp: record_share_quota_delivery_tx_def tx_simps)
next
  case False
  with assms obtain per c p x u where pc: "te_period e = Some per" "te_contract e = Some c"
    and p: "find (\<lambda>p. sv_id p = per \<and> sv_contract p = c) (platform_periods s) = Some p"
    and exu: "existing_slice_tx ''share_quota'' (te_id e) (te_buyer e) (te_provider e) units s = Inr (x, u)"
    by (auto simp: record_share_quota_delivery_tx_def tx_simps split: option.splits)
  note ex = exu [unfolded existing_slice_same [OF exu]]
  show thesis
  proof (cases x)
    case None
    with assms False pc p ex obtain b v fp j s1 sid where b: "liability_balance_tx ''unfulfilled'' per s = Inr (b, v)" "units \<le> b" "0 < units"
      and j: "post_journal_tx ''share_quota'' (te_id e) ''earn'' fp (earn_postings per (te_provider e) units) at v = Inr (j, s1)" "jr_inserted j"
      "insert_slice_and_lot_tx T ''share'' c ''share_quota'' (te_id e) (Some per) (te_buyer e) (te_provider e) (sv_period_start p)
         (te_cutoff_at e) units (sv_debit_journal p) (jr_id j) (sv_debited_at p) at s1 = Inr (sid, t)"
      by (auto simp: record_share_quota_delivery_tx_def tx_simps validate_slice_def split: if_splits)
    show thesis
      by (rule earned [OF pc(2,1) j [unfolded liability_same [OF b(1)]]]) (use liability_range [OF b(1)] b(2,3) in \<open>simp add: i64_defs\<close>)
  next
    case (Some i)
    with assms False pc p ex again show thesis by (auto simp: record_share_quota_delivery_tx_def tx_simps)
  qed
qed

lemma metered_delivery_inv:
  assumes "record_captured_metered_delivery_tx T ck c batch h buyer prov st en amt now s = Inr (r, t)" "earn_inv s"
    "signed c buyer prov s"
  shows "earn_inv t"
  using assms(1)
proof (cases rule: metered_delivery_cases)
  case (1 j s1)
  have "funded prov amt (jr_id j) s s1"
    by (rule capture_funded [OF 1(1,2)]) (use assms(2) in \<open>auto simp: earn_inv_def\<close>)
  from deliver_inv [OF assms(2) this 1(3)] assms(3) show ?thesis by (auto simp: signed_def)
qed

lemma monthly_delivery_inv:
  assumes "record_monthly_delivery_tx T ck c per src buyer prov st en amt dj deb now s = Inr (r, t)" "earn_inv s"
    "signed c buyer prov s"
  shows "earn_inv t"
  using assms(1)
proof (cases rule: monthly_delivery_cases)
  case (earned fp j s1)
  have "funded prov amt (jr_id j) s s1"
    by (rule post_funded [OF earned(1,2)]) (use assms(2) earned(4) in \<open>auto simp: earn_inv_def\<close>)
  from deliver_inv [OF assms(2) this earned(3)] assms(3) show ?thesis by (auto simp: signed_def)
qed (use assms(2) in simp)

lemma quota_delivery_inv:
  assumes "record_share_quota_delivery_tx T e units at s = Inr (r, t)" "earn_inv s"
    "\<And>c. te_contract e = Some c \<Longrightarrow> signed c (te_buyer e) (te_provider e) s"
  shows "earn_inv t"
  using assms(1)
proof (cases rule: quota_delivery_cases)
  case (earned c per fp j s1 sid p)
  have "funded (te_provider e) units (jr_id j) s s1"
    by (rule post_funded [OF earned(3,4)]) (use assms(2) earned(6) in \<open>auto simp: earn_inv_def\<close>)
  from deliver_inv [OF assms(2) this earned(5)] assms(3) [OF earned(1)] show ?thesis by (auto simp: signed_def)
qed (use assms(2) in simp)

section \<open>Refunds\<close>

lemma repaid_books:
  assumes "repaid buyer kind subject amt d act s t"
  shows "wallet_db.more t = wallet_db.more s" "wallet_inv s \<Longrightarrow> wallet_inv t"
    "\<And>k x. k \<in> set earning_kinds \<Longrightarrow> acct_sum k x t = acct_sum k x s + (if k = kind \<and> x = subject then amt else 0)"
    "\<And>v. posted_of v t = posted_of v s + (if v = buyer then amt else 0)" "\<And>v. held_of v t = held_of v s"
  using assms by (auto simp: repaid_def acct_rows_appended earning_kinds_def split: if_splits)

text \<open>The parts of a refund that come from the four accounts of a lot.\<close>

lemma refund_sources_exact:
  assumes chk: "lot_check l" and share: "refund_share_ok l"
    and g: "0 \<le> taken" "taken \<le> refundable_gross (refundable_of l)" and sp: "split_refund (refundable_of l) taken = (n, f)"
  defines "fp \<equiv> min n (pending_net l)"
  defines "fa \<equiv> min (n - fp) (available_net l)"
  defines "cp \<equiv> min f (pending_fee l)"
  shows "0 \<le> fp" "fa = n - fp" "0 \<le> fa" "0 \<le> cp" "0 \<le> f - cp" "n + f = taken"
proof -
  have le: "taken \<le> l_amount l - (l_reversed l + l_commission_reversed l)"
    using refundable_gross_exact(2) [OF chk share] g(2) by simp
  note p = refund_parts [OF chk share g(1) le sp]
  have cap: "n \<le> refund_capacity (refundable_of l)"
    using refundable_gross_exact(3) [OF chk share g(1) le] g(2) sp by simp
  show "0 \<le> fp" "fa = n - fp" "0 \<le> fa" "0 \<le> cp" "0 \<le> f - cp" "n + f = taken"
    using p(1-3) cap chk
    by (auto simp: fp_def fa_def cp_def lot_amounts lot_check_def refund_capacity_def rl_net_def refundable_of_def min_def)
qed

lemma refund_lot_shape:
  assumes op: "refund_lot_tx d (refundable_of l) taken time s = Inr (x, t)" and ids: "distinct (map l_id (lots s))"
    and l: "l \<in> set (lots s)" "lot_check l" "refund_share_ok l"
    and g: "0 \<le> taken" "taken \<le> refundable_gross (refundable_of l)"
  obtains n f fp cp s1 s2 s3 s4 where
    "split_refund (refundable_of l) taken = (n, f)" "fp = min n (pending_net l)" "cp = min f (pending_fee l)"
    "0 \<le> fp" "0 \<le> n - fp" "0 \<le> cp" "0 \<le> f - cp" "n + f = taken"
    "repaid (sd_buyer d) ''provider_pending'' (sd_provider d) fp (sd_id d) (''refund_pending:'' @ l_id l) s s1"
    "repaid (sd_buyer d) ''provider_available'' (sd_provider d) (n - fp) (sd_id d) (''refund_available:'' @ l_id l) s1 s2"
    "repaid (sd_buyer d) ''platform_commission_pending'' (l_id l) cp (sd_id d) (''refund_commission_pending:'' @ l_id l) s2 s3"
    "repaid (sd_buyer d) ''platform_commission_revenue'' (l_id l) (f - cp) (sd_id d) (''refund_commission_revenue:'' @ l_id l) s3 s4"
    "lot_check (refunded_lot l n (n - fp) f (f - cp))"
    "\<not> (\<exists>g \<in> set (commission_refunds s). rf_dispute g = sd_id d \<and> rf_lot g = l_id l)"
    "t = s4\<lparr>lots := put_lot (refunded_lot l n (n - fp) f (f - cp)) (lots s),
       commission_refunds := commission_refunds s @ [\<lparr>rf_dispute = sd_id d, rf_lot = l_id l, rf_gross = taken, rf_net = n,
           rf_fee = f, rf_created_at = time\<rparr>]\<rparr>"
proof -
  obtain n f where sp: "split_refund (refundable_of l) taken = (n, f)" by fastforce
  define fp where "fp = min n (pending_net l)"
  define fa where "fa = min (n - fp) (available_net l)"
  define cp where "cp = min f (pending_fee l)"
  note parts = refund_sources_exact [OF l(2,3) g sp, folded fp_def, folded fa_def cp_def]
  have eqs: "min n (rl_net (refundable_of l) - rl_reversed (refundable_of l) - rl_unlocked (refundable_of l)) = fp"
    "rl_unlocked (refundable_of l) - rl_held (refundable_of l) - rl_paid (refundable_of l) - rl_converted (refundable_of l)
      = available_net l"
    "min f (rl_fee (refundable_of l) - rl_fee_reversed (refundable_of l) - rl_fee_unlocked (refundable_of l)) = cp"
    "rl_id (refundable_of l) = l_id l"
    by (simp_all add: fp_def cp_def lot_amounts rl_net_def refundable_of_def)
  have pos: "max fp 0 = fp" "max fa 0 = fa" using parts(1,3) by simp_all
  obtain m s1 s2 s3 s4 where
    r: "repaid (sd_buyer d) ''provider_pending'' (sd_provider d) fp (sd_id d) (''refund_pending:'' @ l_id l) s s1"
      "repaid (sd_buyer d) ''provider_available'' (sd_provider d) fa (sd_id d) (''refund_available:'' @ l_id l) s1 s2"
      "repaid (sd_buyer d) ''platform_commission_pending'' (l_id l) cp (sd_id d) (''refund_commission_pending:'' @ l_id l) s2 s3"
      "repaid (sd_buyer d) ''platform_commission_revenue'' (l_id l) (f - cp) (sd_id d) (''refund_commission_revenue:'' @ l_id l) s3 s4"
    and m: "m \<in> set (lots s)" "l_id m = l_id l" "lot_check (refunded_lot m n fa f (f - cp))"
    and no: "\<not> (\<exists>g \<in> set (commission_refunds s). rf_dispute g = sd_id d \<and> rf_lot g = l_id l)"
    and t: "t = s4\<lparr>lots := put_lot (refunded_lot m n fa f (f - cp)) (lots s),
       commission_refunds := commission_refunds s @ [\<lparr>rf_dispute = sd_id d, rf_lot = l_id l, rf_gross = taken, rf_net = n,
           rf_fee = f, rf_created_at = time\<rparr>]\<rparr>"
    by (rule refund_lot_cases [OF op ids sp, unfolded eqs, folded fa_def, unfolded pos])
  have ml: "m = l" by (rule l_id_inj [OF ids m(1) l(1) m(2)])
  show thesis
    by (rule that [OF sp fp_def cp_def]) (use parts r m(3) no t in \<open>simp_all add: ml\<close>)
qed

lemma refund_lot_inv:
  assumes op: "refund_lot_tx d (refundable_of l) taken time s = Inr (x, t)" and inv: "earn_inv s"
    and l: "l \<in> set (lots s)" "l_provider l = sd_provider d" "refund_share_ok l"
    and g: "0 \<le> taken" "taken \<le> refundable_gross (refundable_of l)"
  obtains l' where "earn_inv t" "lots t = put_lot l' (lots s)" "lot_ident l' = lot_ident l" "kept s t"
    "service_disputes t = service_disputes s" "dispute_lots t = dispute_lots s" "earning_holds t = earning_holds s"
    "\<And>v. posted_of v t = posted_of v s + (if v = sd_buyer d then taken else 0)" "\<And>v. held_of v t = held_of v s"
proof -
  have ok: "wallet_inv s" "books_ok s" "lots_ok s" "refs_ok s" "parties_ok s" and d: "distinct (map l_id (lots s))"
    using inv by (auto simp: earn_inv_def lots_ok_def)
  have chk: "lot_check l" using ok(3) l(1) by (simp add: lots_ok_def)
  show thesis
  proof (rule refund_lot_shape [OF op d l(1) chk l(3) g])
    fix n f fp cp s1 s2 s3 s4
    assume parts: "n + f = taken" and
      r: "repaid (sd_buyer d) ''provider_pending'' (sd_provider d) fp (sd_id d) (''refund_pending:'' @ l_id l) s s1"
        "repaid (sd_buyer d) ''provider_available'' (sd_provider d) (n - fp) (sd_id d) (''refund_available:'' @ l_id l) s1 s2"
        "repaid (sd_buyer d) ''platform_commission_pending'' (l_id l) cp (sd_id d) (''refund_commission_pending:'' @ l_id l) s2 s3"
        "repaid (sd_buyer d) ''platform_commission_revenue'' (l_id l) (f - cp) (sd_id d) (''refund_commission_revenue:'' @ l_id l) s3 s4"
      and chk': "lot_check (refunded_lot l n (n - fp) f (f - cp))"
      and t: "t = s4\<lparr>lots := put_lot (refunded_lot l n (n - fp) f (f - cp)) (lots s),
         commission_refunds := commission_refunds s @ [\<lparr>rf_dispute = sd_id d, rf_lot = l_id l, rf_gross = taken, rf_net = n,
             rf_fee = f, rf_created_at = time\<rparr>]\<rparr>"
    define l' where "l' = refunded_lot l n (n - fp) f (f - cp)"
    note b = repaid_books [OF r(1)] repaid_books [OF r(2)] repaid_books [OF r(3)] repaid_books [OF r(4)]
    have more: "wallet_db.more s4 = wallet_db.more s" using b(1,6,11,16) by simp
    note fields = more_fields [OF more]
    have ident: "lot_ident l' = lot_ident l" "l_disputed l' = l_disputed l"
      by (simp_all add: l'_def refunded_lot_def lot_ident_def)
    have rows: "acct_sum k x t = acct_sum k x s + (if k = ''provider_pending'' \<and> x = sd_provider d then fp else 0)
        + (if k = ''provider_available'' \<and> x = sd_provider d then n - fp else 0)
        + (if k = ''platform_commission_pending'' \<and> x = l_id l then cp else 0)
        + (if k = ''platform_commission_revenue'' \<and> x = l_id l then f - cp else 0)" if "k \<in> set earning_kinds" for k x
    proof -
      have "acct_rows k x t = acct_rows k x s4" by (rule acct_rows_cong) (simp add: t)
      then show ?thesis using b(3,8,13,18) [OF that, of x] by simp
    qed
    have "wallet_inv s4" using b(2,7,12,17) ok(1) by simp
    then have "wallet_inv t" using wallet_inv_cong [of t s4] by (simp add: t)
    moreover have lots_t: "lots t = put_lot l' (lots s)" by (simp add: t l'_def)
    moreover have "books_ok t"
      by (rule books_put [OF ok(2) d l(1) _ _ lots_t])
        (use ident(1) l(2) in \<open>auto simp: rows earning_kinds_def l'_def refunded_lot_def lot_amounts lot_ident_def\<close>)
    moreover have "lots_ok t \<and> refs_ok t \<and> parties_ok t"
      by (rule tables_put [OF ok(3-5) l(1) ident(1) _ ident(2) lots_t]) (use chk' fields in \<open>simp_all add: l'_def t\<close>)
    moreover have "posted_of v t = posted_of v s + (if v = sd_buyer d then taken else 0)" "held_of v t = held_of v s" for v
    proof -
      have "posted_of v t = posted_of v s4" "held_of v t = held_of v s4" by (simp_all add: posted_of_def held_of_def t)
      then show "posted_of v t = posted_of v s + (if v = sd_buyer d then taken else 0)" "held_of v t = held_of v s"
        using b(4,5,9,10,14,15,19,20) [of v] parts by simp_all
    qed
    ultimately show thesis
      using fields ident put_lot_idents [OF d l(1) ident(1)]
      by (intro that [of l']) (auto simp: earn_inv_def kept_def t)
  qed
qed

end
