(* ===== verification/Earning_Disputes.thy ===== *)
theory Earning_Disputes
  imports Earning_Invariant "HOL-Library.Multiset"
begin

text \<open>
  Opening and resolving a service dispute keeps the invariant of Provider earnings, and a
  resolution pays the Buyer exactly the refund the Owner decided.
\<close>


section \<open>The refund loop\<close>

lemma refund_lots_inv:
  assumes "refund_lots_tx d ls left time s = Inr (rest, t)" "earn_inv s" "0 \<le> left" "distinct (map rl_id ls)"
    "\<And>rl. rl \<in> set ls \<Longrightarrow> \<exists>l \<in> set (lots s). rl = refundable_of l \<and> l_provider l = sd_provider d \<and> l_buyer l = sd_buyer d"
    "Q s"
    and step: "\<And>s l taken x t. refund_lot_tx d (refundable_of l) taken time s = Inr (x, t) \<Longrightarrow> earn_inv s \<Longrightarrow> Q s \<Longrightarrow> l \<in> set (lots s)
      \<Longrightarrow> l_provider l = sd_provider d \<Longrightarrow> l_buyer l = sd_buyer d \<Longrightarrow> refund_share_ok l \<Longrightarrow> 0 < taken
      \<Longrightarrow> taken \<le> refundable_gross (refundable_of l) \<Longrightarrow> Q t"
  shows "earn_inv t \<and> Q t \<and> 0 \<le> rest \<and> service_disputes t = service_disputes s \<and> kept s t
    \<and> (\<forall>v. posted_of v t = posted_of v s + (if v = sd_buyer d then left - rest else 0) \<and> held_of v t = held_of v s)"
  using assms(1-6)
proof (induction ls arbitrary: s left)
  case Nil
  then show ?case by (simp add: tx_simps)
next
  case (Cons rl ls)
  show ?case
  proof (cases "left = 0")
    case True
    with Cons.prems show ?thesis by (simp add: tx_simps)
  next
    case False
    define taken where "taken = min left (refundable_gross rl)"
    from Cons.prems(5) [of rl] obtain l where l: "l \<in> set (lots s)" "rl = refundable_of l" "l_provider l = sd_provider d" "l_buyer l = sd_buyer d" by auto
    have d: "distinct (map l_id (lots s))" and chk: "lot_check l"
      using Cons.prems(2) l(1) by (auto simp: earn_inv_def lots_ok_def)
    from Cons.prems(1) False obtain u where evu: "lot_evidence_valid_tx (rl_id rl) s = Inr (True, u)"
      and nextu: "(if taken = 0 then refund_lots_tx d ls left time
         else bind_tx (refund_lot_tx d rl taken time) (\<lambda>_. refund_lots_tx d ls (left - taken) time)) u = Inr (rest, t)"
      unfolding taken_def by (auto simp: tx_simps Let_def)
    note us = lot_evidence_same [OF evu]
    have share: "refund_share_ok l"
      by (rule lot_evidence_share [OF evu d l(1)]) (simp add: l(2) refundable_of_def)
    have "0 \<le> refundable_gross rl" using refundable_gross_exact(1) [OF chk share] l(2) by simp
    with Cons.prems(3) have taken: "0 \<le> taken" "taken \<le> left" "taken \<le> refundable_gross rl" by (auto simp: taken_def)
    have others: "\<exists>k \<in> set (lots s). r = refundable_of k \<and> l_provider k = sd_provider d \<and> l_buyer k = sd_buyer d \<and> l_id k \<noteq> l_id l" if r: "r \<in> set ls" for r
    proof -
      from Cons.prems(5) [of r] r obtain k where k: "k \<in> set (lots s)" "r = refundable_of k" "l_provider k = sd_provider d" "l_buyer k = sd_buyer d" by auto
      have "rl_id r \<noteq> rl_id rl" using Cons.prems(4) r by (auto simp: image_iff)
      with k l(2) show ?thesis by (intro bexI [of _ k]) (auto simp: refundable_of_def)
    qed
    show ?thesis
    proof (cases "taken = 0")
      case True
      with nextu us have "refund_lots_tx d ls left time s = Inr (rest, t)" by simp
      then show ?thesis
        by (rule Cons.IH [OF _ Cons.prems(2,3)]) (use Cons.prems(4-6) in auto)
    next
      case nz: False
      with nextu us obtain y w where one: "refund_lot_tx d rl taken time s = Inr (y, w)"
        and more: "refund_lots_tx d ls (left - taken) time w = Inr (rest, t)" by (auto simp: tx_simps)
      obtain l' where w: "earn_inv w" "lots w = put_lot l' (lots s)" "lot_ident l' = lot_ident l" "kept s w"
        "service_disputes w = service_disputes s" "dispute_lots w = dispute_lots s" "earning_holds w = earning_holds s"
        "\<And>v. posted_of v w = posted_of v s + (if v = sd_buyer d then taken else 0)" "\<And>v. held_of v w = held_of v s"
        by (rule refund_lot_inv [OF one [unfolded l(2)] Cons.prems(2) l(1,3) share taken(1) taken(3) [unfolded l(2)]]) blast
      have q: "Q w"
        by (rule step [OF one [unfolded l(2)] Cons.prems(2,6) l(1,3,4) share _ taken(3) [unfolded l(2)]]) (use taken(1) nz in simp)
      have id: "l_id l' = l_id l" using w(3) by (simp add: lot_ident_def)
      have "\<exists>k \<in> set (lots w). r = refundable_of k \<and> l_provider k = sd_provider d \<and> l_buyer k = sd_buyer d" if "r \<in> set ls" for r
      proof -
        from others [OF that] obtain k where k: "k \<in> set (lots s)" "r = refundable_of k" "l_provider k = sd_provider d"
          "l_buyer k = sd_buyer d" "l_id k \<noteq> l_id l" by blast
        then have "k \<in> set (lots w)" by (simp add: w(2) set_put_lot [OF l(1) id] id)
        with k show ?thesis by blast
      qed
      with Cons.IH [OF more w(1)] taken(2) Cons.prems(4) q
      have "earn_inv t \<and> Q t \<and> 0 \<le> rest \<and> service_disputes t = service_disputes w \<and> kept w t
        \<and> (\<forall>v. posted_of v t = posted_of v w + (if v = sd_buyer d then left - taken - rest else 0) \<and> held_of v t = held_of v w)"
        by simp
      with w(4,5,8,9) kept_trans show ?thesis by auto
    qed
  qed
qed

text \<open>The lots of a dispute, as the loop reads them.\<close>

lemma refundable_lots_mem:
  assumes "rl \<in> set (refundable_lots dispute s)"
  shows "\<exists>l \<in> set (lots s). rl = refundable_of l \<and> (dispute, l_id l) \<in> set (dispute_lots s)"
  using assms by (auto simp: refundable_lots_def dispute_scope_def dispute_lot_ids_def)

lemma refundable_lots_parties:
  assumes "parties_ok s" "d \<in> set (service_disputes s)" "sd_id d = did" "rl \<in> set (refundable_lots did s)"
  shows "\<exists>l \<in> set (lots s). rl = refundable_of l \<and> l_provider l = sd_provider d \<and> l_buyer l = sd_buyer d"
  using refundable_lots_mem [OF assms(4)] assms(1-3) by (auto simp: parties_ok_def)

lemma distinct_concat_single:
  assumes "distinct xs" "\<And>x. x \<in> set xs \<Longrightarrow> length (F x) \<le> 1" "\<And>x y. x \<in> set xs \<Longrightarrow> y \<in> set (F x) \<Longrightarrow> g y = x"
  shows "distinct (map g (concat (map F xs)))"
  using assms
proof (induction xs)
  case (Cons x xs)
  have "F x = [] \<or> (\<exists>y. F x = [y])"
    using Cons.prems(2) [of x] by (cases "F x") auto
  moreover have "distinct (map g (concat (map F xs)))" by (rule Cons.IH) (use Cons.prems in auto)
  moreover have "g ` (\<Union>x \<in> set xs. set (F x)) \<subseteq> set xs" using Cons.prems(3) by auto
  ultimately show ?case using Cons.prems(1,3) by auto
qed simp

lemma filter_unique: "distinct (map f xs) \<Longrightarrow> length (filter (\<lambda>x. f x = a) xs) \<le> 1"
proof (induction xs)
  case (Cons x xs)
  have "filter (\<lambda>y. f y = f x) xs = []" using Cons.prems by (auto simp: filter_empty_conv image_iff)
  then show ?case using Cons by auto
qed simp

lemma refundable_lots_distinct:
  assumes "lots_ok s" "refs_ok s"
  shows "distinct (map rl_id (refundable_lots dispute s))"
proof -
  have ids: "distinct (dispute_lot_ids dispute s)"
  proof -
    have "distinct (filter (\<lambda>(d, _). d = dispute) (dispute_lots s))" using assms(2) by (simp add: refs_ok_def)
    then show ?thesis by (auto simp: dispute_lot_ids_def distinct_map inj_on_def)
  qed
  let ?F = "\<lambda>lot. concat (map (\<lambda>l. map (\<lambda>d. (d, l)) (filter (\<lambda>d. ds_id d = l_slice l) (slices s))) (filter (\<lambda>l. l_id l = lot) (lots s)))"
  have "length (?F lot) \<le> 1" for lot
  proof -
    have "length (filter (\<lambda>l. l_id l = lot) (lots s)) \<le> 1" using assms(1) by (intro filter_unique) (simp add: lots_ok_def)
    then consider "filter (\<lambda>l. l_id l = lot) (lots s) = []" | l where "filter (\<lambda>l. l_id l = lot) (lots s) = [l]"
      by (cases "filter (\<lambda>l. l_id l = lot) (lots s)") auto
    then show ?thesis
      using filter_unique [of ds_id "slices s"] assms(2) by cases (auto simp: refs_ok_def)
  qed
  then have "distinct (map (l_id \<circ> snd) (dispute_scope dispute s))"
    unfolding dispute_scope_def by (intro distinct_concat_single [OF ids]) auto
  moreover have "mset (map rl_id (refundable_lots dispute s)) = mset (map (l_id \<circ> snd) (dispute_scope dispute s))"
    by (auto simp: refundable_lots_def refundable_of_def case_prod_unfold comp_def)
  ultimately show ?thesis by (metis mset_eq_imp_distinct_iff)
qed

section \<open>Opening a dispute\<close>

lemma earn_inv_cong:
  assumes "earn_inv s" "journals t = journals s" "postings t = postings s" "seals t = seals s" "holds t = holds s"
    "wallets t = wallets s" "lots t = lots s" "slices t = slices s" "earning_holds t = earning_holds s"
    "service_disputes t = service_disputes s" "dispute_lots t = dispute_lots s" "platform_contracts t = platform_contracts s"
  shows "earn_inv t"
  using assms wallet_inv_cong [OF assms(2-6)] acct_rows_cong [OF assms(3)]
  by (simp add: earn_inv_def books_ok_def lots_ok_def refs_ok_def parties_ok_def has_active_hold_def)

lemma dispute_view_same: "dispute_view_tx d s = Inr (v, u) \<Longrightarrow> u = s"
  by (simp add: dispute_view_tx_def tx_simps)

lemma check_reopen_same: "check_reopen_tx T c s = Inr (x, u) \<Longrightarrow> u = s"
  by (simp add: check_reopen_tx_def tx_simps)

text \<open>A successful call either found the dispute open already or wrote one and froze its scope.\<close>

lemma open_dispute_cases:
  assumes "open_dispute_tx T c buyer reason time s = Inr (v, t)"
  obtains (again) "t = s"
  | (opened) k d ids at n s1 s2 where "k \<in> set (platform_contracts s)" "pc_id k = c" "pc_buyer k = buyer"
      "sd_contract d = c" "sd_buyer d = buyer" "sd_provider d = pc_provider k" "sd_open d" "sd_refunded d = 0"
      "sd_id d \<notin> sd_id ` set (service_disputes s)"
      "\<not> (\<exists>e \<in> set (service_disputes s). sd_open e \<and> sd_contract e = c)"
      "check_reopen_tx T c s = Inr (at, s)" "ids = disputable_lots T c at s"
      "s1 = s\<lparr>uuid_drawn := n, service_disputes := service_disputes s @ [d], dispute_lots := dispute_lots s @ map (Pair (sd_id d)) ids\<rparr>"
      "hold_dispute_earnings_tx (sd_id d) time s1 = Inr ((), s2)"
      "t = s2\<lparr>uuid_drawn := uuid_drawn t, finance_audit := finance_audit t\<rparr>" "dv_row v \<in> set (service_disputes t)" "sd_id (dv_row v) = sd_id d"
proof -
  from assms obtain k where k: "find (\<lambda>c'. pc_id c' = c) (platform_contracts s) = Some k" "pc_buyer k = buyer"
    by (auto simp: open_dispute_tx_def tx_simps split: option.splits)
  show thesis
  proof (cases "find (\<lambda>d. sd_contract d = c \<and> sd_open d) (service_disputes s)")
    case (Some e)
    with assms k have "t = s" by (auto simp: open_dispute_tx_def tx_simps dest: dispute_view_same)
    then show thesis by (rule again)
  next
    case None
    with assms k obtain at u where re: "check_reopen_tx T c s = Inr (at, u)"
      by (auto simp: open_dispute_tx_def tx_simps)
    note re' = re [unfolded check_reopen_same [OF re]]
    define d where "d = \<lparr>sd_id = uuid_supply s (uuid_drawn s), sd_contract = c, sd_buyer = buyer,
            sd_provider = pc_provider k, sd_reason_code = reason, sd_open = True, sd_resolution_code = None,
            sd_refunded = 0, sd_version = 1, sd_created_at = time, sd_resolved_at = None\<rparr>"
    define s0 where "s0 = s\<lparr>uuid_drawn := Suc (uuid_drawn s)\<rparr>"
    from assms k None re' obtain u1 u2 s2 u3 where
      ins: "insert_dispute_tx d s0 = Inr ((), u1)"
      and sc: "insert_scope_tx (sd_id d) (disputable_lots T c at u1) u1 = Inr ((), u2)"
      and ho: "hold_dispute_earnings_tx (sd_id d) time u2 = Inr ((), s2)"
      and au: "insert_audit_tx ''audit service dispute opening'' \<lparr>au_id = uuid_supply s2 (uuid_drawn s2), au_actor = buyer,
            au_action = ''open'', au_object_kind = ''service_dispute'', au_object_id = sd_id d, au_reason_code = reason,
            au_created_at = time\<rparr> (s2\<lparr>uuid_drawn := Suc (uuid_drawn s2)\<rparr>) = Inr ((), u3)"
      and vi: "dispute_view_tx (sd_id d) u3 = Inr (v, t)"
      unfolding d_def s0_def by (auto simp: open_dispute_tx_def tx_simps)
    from ins have u1: "u1 = s0\<lparr>service_disputes := service_disputes s @ [d]\<rparr>"
      and fresh: "sd_id d \<notin> sd_id ` set (service_disputes s)" "\<not> (\<exists>e \<in> set (service_disputes s). sd_open e \<and> sd_contract e = c)"
      by (auto simp: insert_dispute_tx_def s0_def d_def split: if_splits)
    have ids: "disputable_lots T c at u1 = disputable_lots T c at s" by (simp add: disputable_lots_def u1 s0_def)
    from sc have u2: "u2 = s\<lparr>uuid_drawn := Suc (uuid_drawn s), service_disputes := service_disputes s @ [d],
        dispute_lots := dispute_lots s @ map (Pair (sd_id d)) (disputable_lots T c at s)\<rparr>"
      by (auto simp: insert_scope_tx_def u1 s0_def ids [unfolded u1 s0_def] split: if_splits)
    have t: "t = u3" by (rule dispute_view_same [OF vi])
    from au have t2: "t = s2\<lparr>uuid_drawn := uuid_drawn t, finance_audit := finance_audit t\<rparr>"
      by (auto simp: insert_audit_tx_def t split: if_splits)
    from vi have "dv_row v \<in> set (service_disputes t)" "sd_id (dv_row v) = sd_id d"
      by (auto simp: dispute_view_tx_def tx_simps find_Some_iff split: option.splits sum.splits)
    with k fresh re' u2 ho t2 show thesis
      by (intro opened [of k d at "disputable_lots T c at s" u2 _ s2]) (auto simp: d_def find_Some_iff)
  qed
qed

lemma disputable_contract:
  assumes "x \<in> set (disputable_lots T c at s)"
  obtains l e where "l \<in> set (lots s)" "l_id l = x" "e \<in> set (slices s)" "ds_id e = l_slice l" "ds_contract e = c" "outstanding l"
  using assms by (auto simp: disputable_lots_def)

lemma contract_unique: "parties_ok s \<Longrightarrow> c \<in> set (platform_contracts s) \<Longrightarrow> k \<in> set (platform_contracts s) \<Longrightarrow> pc_id c = pc_id k \<Longrightarrow> c = k"
  by (meson parties_ok_def distinct_map inj_onD)

lemma new_dispute_inv:
  assumes inv: "earn_inv s" and k: "k \<in> set (platform_contracts s)" "pc_id k = c" "pc_buyer k = buyer"
    and d: "sd_contract d = c" "sd_buyer d = buyer" "sd_provider d = pc_provider k" "sd_id d \<notin> sd_id ` set (service_disputes s)"
    and t: "t = s\<lparr>uuid_drawn := n, service_disputes := service_disputes s @ [d],
      dispute_lots := dispute_lots s @ map (Pair (sd_id d)) (disputable_lots T c at s)\<rparr>"
  shows "earn_inv t"
proof -
  let ?ids = "disputable_lots T c at s"
  have ok: "lots_ok s" "refs_ok s" "parties_ok s" and dl: "distinct (map l_id (lots s))" using inv by (auto simp: earn_inv_def lots_ok_def)
  have fst: "fst ` set (dispute_lots s) \<subseteq> sd_id ` set (service_disputes s)" using ok(2) by (simp add: refs_ok_def)
  have newpair: "(sd_id d, x) \<notin> set (dispute_lots s)" for x using fst d(4) by (metis fst_conv imageI subsetD)
  have sub: "set ?ids \<subseteq> l_id ` set (lots s)" and dist: "distinct ?ids"
    using dl by (auto simp: disputable_lots_def distinct_map_filter)
  have "refs_ok t"
    using ok(2) d(4) sub dist newpair by (auto simp: refs_ok_def t distinct_map inj_on_def)
  moreover have "parties_ok t"
  proof -
    have "l_buyer l = sd_buyer x \<and> l_provider l = sd_provider x"
      if x: "x \<in> set (service_disputes t)" "l \<in> set (lots s)" "(sd_id x, l_id l) \<in> set (dispute_lots t)" for x l
    proof (cases "x = d")
      case True
      with x newpair have "l_id l \<in> set ?ids" by (auto simp: t)
      then obtain m e where m: "m \<in> set (lots s)" "l_id m = l_id l" "e \<in> set (slices s)" "ds_id e = l_slice m" "ds_contract e = c"
        by (rule disputable_contract)
      have "m = l" by (rule l_id_inj [OF dl m(1) x(2) m(2)])
      with m ok(3) obtain b where "b \<in> set (platform_contracts s)" "pc_id b = c" "same_parties b (l_buyer l) (l_provider l)"
        unfolding parties_ok_def by metis
      with contract_unique [OF ok(3) _ k(1), of b] k d True show ?thesis by (auto simp: same_parties_def)
    next
      case False
      with x have old: "x \<in> set (service_disputes s)" by (simp add: t)
      then have "sd_id x \<noteq> sd_id d" using d(4) by (metis imageI)
      with x have "(sd_id x, l_id l) \<in> set (dispute_lots s)" by (auto simp: t)
      with old x(2) ok(3) show ?thesis by (simp add: parties_ok_def)
    qed
    moreover have "same_parties k (sd_buyer d) (sd_provider d)" using k d by (simp add: same_parties_def)
    ultimately show ?thesis using ok(3) k d(1) by (auto simp: parties_ok_def t)
  qed
  moreover have "wallet_inv t" using inv wallet_inv_cong [of t s] by (simp add: earn_inv_def t)
  moreover have "books_ok t" using inv acct_rows_cong [of t s] by (simp add: earn_inv_def books_ok_def t)
  moreover have "lots_ok t" using ok(1) by (simp add: lots_ok_def has_active_hold_def t)
  ultimately show ?thesis by (simp add: earn_inv_def)
qed

lemma earn_inv_audited:
  "t = s\<lparr>uuid_drawn := n, finance_audit := au\<rparr> \<Longrightarrow> earn_inv s \<Longrightarrow> earn_inv t"
  "t = s\<lparr>uuid_drawn := n, finance_audit := au\<rparr> \<Longrightarrow> kept s t"
  by (rule earn_inv_cong [of s], simp_all add: kept_def)

lemma open_dispute_inv:
  assumes "open_dispute_tx T c buyer reason time s = Inr (v, t)" "earn_inv s"
  shows "earn_inv t" "kept s t"
proof -
  have "earn_inv t \<and> kept s t"
    using assms(1)
  proof (cases rule: open_dispute_cases)
    case (opened k d ids at n s1 s2)
    have "earn_inv s1" by (rule new_dispute_inv [OF assms(2) opened(1-6,9) opened(13) [unfolded opened(12)]])
    moreover have "kept s s1" by (simp add: opened(13) kept_def)
    moreover have "kept s1 s2" by (rule held_kept [OF hold_dispute_held [OF opened(14)]])
    ultimately show ?thesis
      using earn_inv_audited [OF opened(15)] hold_dispute_inv [OF opened(14)] kept_trans by blast
  qed (use assms(2) in simp)
  then show "earn_inv t" "kept s t" by blast+
qed


section \<open>Resolving a dispute\<close>

definition closed_dispute :: "string \<Rightarrow> int \<Rightarrow> string \<Rightarrow> dispute_row \<Rightarrow> dispute_row" where
  "closed_dispute resolution units time d = d\<lparr>sd_open := False, sd_resolution_code := Some resolution, sd_refunded := units,
     sd_resolved_at := Some time, sd_version := sd_version d + 1\<rparr>"

lemma resolve_dispute_cases:
  assumes "resolve_dispute_tx safe did owner ver resolution units time s = Inr (v, t)"
  obtains d s1 s2 n s3 where "d \<in> set (service_disputes s)" "sd_id d = did" "sd_open d" "sd_version d = ver"
    "safe (sd_contract d) s = Inr ()" "refund_amount_ok units"
    "refund_lots_tx d (refundable_lots did s) units time s = Inr (0, s1)"
    "s2 = s1\<lparr>service_disputes := map (\<lambda>e. if sd_id e = did \<and> sd_open e \<and> sd_version e = ver
        then closed_dispute resolution units time e else e) (service_disputes s1)\<rparr>"
    "release_earning_holds_tx ''dispute'' did owner resolution time s2 = Inr (n, s3)"
    "t = s3\<lparr>uuid_drawn := uuid_drawn t, finance_audit := finance_audit t\<rparr>" "uuid_drawn s3 \<le> uuid_drawn t"
proof -
  from assms obtain v0 u where vu: "dispute_view_tx did s = Inr (v0, u)" and amt: "refund_amount_ok units"
    by (auto simp: resolve_dispute_tx_def tx_simps Let_def)
  note vs = vu [unfolded dispute_view_same [OF vu]]
  define d where "d = dv_row v0"
  from vs have d: "d \<in> set (service_disputes s)" "sd_id d = did"
    by (auto simp: d_def dispute_view_tx_def tx_simps find_Some_iff split: option.splits sum.splits)
  from assms vs obtain s1 s2 n s3 s4 where op: "sd_open d" "sd_version d = ver" "safe (sd_contract d) s = Inr ()"
    and re: "refund_lots_tx d (refundable_lots did s) units time s = Inr (0, s1)"
    and cl: "close_dispute_tx did resolution units ver time s1 = Inr (Suc 0, s2)"
    and rl: "release_earning_holds_tx ''dispute'' did owner resolution time s2 = Inr (n, s3)"
    and au: "insert_audit_tx ''audit service dispute resolution'' \<lparr>au_id = uuid_supply s3 (uuid_drawn s3), au_actor = owner,
         au_action = ''resolve'', au_object_kind = ''service_dispute'', au_object_id = did, au_reason_code = resolution,
         au_created_at = time\<rparr> (s3\<lparr>uuid_drawn := Suc (uuid_drawn s3)\<rparr>) = Inr ((), s4)"
    and vi: "dispute_view_tx did s4 = Inr (v, t)"
    unfolding d_def by (auto simp: resolve_dispute_tx_def tx_simps Let_def)
  have t: "t = s4" by (rule dispute_view_same [OF vi])
  from au have t2: "t = s3\<lparr>uuid_drawn := uuid_drawn t, finance_audit := finance_audit t\<rparr>" "uuid_drawn s3 \<le> uuid_drawn t"
    by (auto simp: insert_audit_tx_def t split: if_splits)
  from cl have s2: "s2 = s1\<lparr>service_disputes := map (\<lambda>e. if sd_id e = did \<and> sd_open e \<and> sd_version e = ver
        then closed_dispute resolution units time e else e) (service_disputes s1)\<rparr>"
    by (auto simp: close_dispute_tx_def closed_dispute_def Let_def split: if_splits)
  show thesis by (rule that [OF d op amt re s2 rl t2])
qed

lemma close_inv:
  assumes inv: "earn_inv s" and t: "t = s\<lparr>service_disputes := map (\<lambda>e. if g e then closed_dispute r u time e else e) (service_disputes s)\<rparr>"
  shows "earn_inv t"
proof -
  let ?f = "\<lambda>e. if g e then closed_dispute r u time e else e"
  have ids: "map sd_id (map ?f (service_disputes s)) = map sd_id (service_disputes s)" by (simp add: closed_dispute_def)
  have img: "sd_id ` set (service_disputes t) = sd_id ` set (service_disputes s)"
  proof -
    have "service_disputes t = map ?f (service_disputes s)" by (simp add: t)
    then show ?thesis using arg_cong [OF ids, of set] by (simp only: set_map)
  qed
  have old: "\<exists>e \<in> set (service_disputes s). sd_id e = sd_id x \<and> sd_contract e = sd_contract x \<and> sd_buyer e = sd_buyer x
      \<and> sd_provider e = sd_provider x" if "x \<in> set (service_disputes t)" for x
    using that by (auto simp: t closed_dispute_def)
  have "map sd_id (service_disputes t) = map sd_id (service_disputes s)" using ids by (simp add: t)
  moreover have fr: "slices t = slices s" "lots t = lots s" "dispute_lots t = dispute_lots s" "earning_holds t = earning_holds s"
    "platform_contracts t = platform_contracts s"
    by (simp_all add: t)
  ultimately have "refs_ok t" using inv img unfolding earn_inv_def refs_ok_def by simp
  moreover have "parties_ok t"
    unfolding parties_ok_def fr
  proof (intro conjI ballI impI)
    fix x
    assume "x \<in> set (service_disputes t)"
    from old [OF this] obtain e where e: "e \<in> set (service_disputes s)" "sd_contract e = sd_contract x" "sd_buyer e = sd_buyer x"
      "sd_provider e = sd_provider x" "sd_id e = sd_id x" by blast
    with inv show "\<exists>c \<in> set (platform_contracts s). pc_id c = sd_contract x \<and> same_parties c (sd_buyer x) (sd_provider x)"
      unfolding earn_inv_def parties_ok_def by metis
    fix l
    assume "l \<in> set (lots s)" "(sd_id x, l_id l) \<in> set (dispute_lots s)"
    with e inv show "l_buyer l = sd_buyer x" "l_provider l = sd_provider x"
      unfolding earn_inv_def parties_ok_def by metis+
  qed (use inv in \<open>auto simp: earn_inv_def parties_ok_def\<close>)
  moreover have "wallet_inv t" using inv wallet_inv_cong [of t s] by (simp add: earn_inv_def t)
  moreover have "books_ok t" using inv acct_rows_cong [of t s] by (simp add: earn_inv_def books_ok_def t)
  moreover have "lots_ok t" using inv by (simp add: earn_inv_def lots_ok_def has_active_hold_def t)
  ultimately show ?thesis by (simp add: earn_inv_def)
qed

lemma held_balances: "held ids s t \<Longrightarrow> posted_of v t = posted_of v s \<and> held_of v t = held_of v s"
  by (auto simp: held_def posted_of_def held_of_def)

lemma resolve_dispute_inv:
  assumes op: "resolve_dispute_tx safe did owner ver resolution units time s = Inr (v, t)" and inv: "earn_inv s"
  shows "earn_inv t" "kept s t"
    "\<exists>d \<in> set (service_disputes s). sd_id d = did \<and> sd_open d
      \<and> (\<forall>w. posted_of w t = posted_of w s + (if w = sd_buyer d then units else 0) \<and> held_of w t = held_of w s)"
proof -
  have "earn_inv t \<and> kept s t \<and> (\<exists>d \<in> set (service_disputes s). sd_id d = did \<and> sd_open d
      \<and> (\<forall>w. posted_of w t = posted_of w s + (if w = sd_buyer d then units else 0) \<and> held_of w t = held_of w s))"
    using op
  proof (cases rule: resolve_dispute_cases)
    case (1 d s1 s2 n s3)
    have ok: "lots_ok s" "refs_ok s" "parties_ok s" using inv by (auto simp: earn_inv_def)
    from refund_lots_inv [OF 1(7) inv _ refundable_lots_distinct [OF ok(1,2)] refundable_lots_parties [OF ok(3) 1(1,2)], of "\<lambda>_. True"] 1(6)
    have r: "earn_inv s1" "kept s s1" "\<And>w. posted_of w s1 = posted_of w s + (if w = sd_buyer d then units else 0) \<and> held_of w s1 = held_of w s"
      by (auto simp: refund_amount_ok_def)
    have s2: "earn_inv s2" by (rule close_inv [OF r(1) 1(8)])
    have s3: "earn_inv s3" by (rule release_holds_inv [OF 1(9) s2])
    have "kept s1 s2" by (simp add: 1(8) kept_def)
    moreover have "kept s2 s3" using release_holds_held [OF 1(9)] held_kept by blast
    ultimately have k: "kept s t" using r(2) earn_inv_audited(2) [OF 1(10)] kept_trans by blast
    from release_holds_held [OF 1(9)] held_balances have
      b3: "posted_of w s3 = posted_of w s2 \<and> held_of w s3 = held_of w s2" for w by blast
    have b2: "posted_of w s2 = posted_of w s1 \<and> held_of w s2 = held_of w s1" for w
      by (simp add: 1(8) posted_of_def held_of_def)
    have "posted_of w t = posted_of w s3 \<and> held_of w t = held_of w s3" for w
      by (subst (1 2) 1(10)) (simp add: posted_of_def held_of_def)
    with b3 b2 r(3) earn_inv_audited(1) [OF 1(10) s3] k 1(1-3) show ?thesis by auto
  qed
  then show "earn_inv t" "kept s t" "\<exists>d \<in> set (service_disputes s). sd_id d = did \<and> sd_open d
      \<and> (\<forall>w. posted_of w t = posted_of w s + (if w = sd_buyer d then units else 0) \<and> held_of w t = held_of w s)"
    by blast+
qed

end
