(* ===== verification/Earning_Properties.thy ===== *)
theory Earning_Properties
  imports Earning_Disputes
begin

text \<open>
  Provider earnings as a machine driven by the operations of \<open>src/src/market_finance.rs\<close>,
  \<open>src/src/market_commission.rs\<close> and \<open>src/src/market_service_disputes.rs\<close> together with
  those of the wallet, and the properties of every reachable state.
\<close>


section \<open>Wallet operations of other components\<close>

text \<open>
  Other components use the wallet too. A command of theirs that books on accounts other
  than the four of the earnings, under sources of its own, leaves the earnings alone;
  the machine below refuses any other.
\<close>

definition own_sources :: "string list" where
  "own_sources = [''earning_lot'', ''service_dispute'']"

fun spares :: "wallet_cmd \<Rightarrow> bool" where
  "spares (Capture i amt tk tid ak aid now) \<longleftrightarrow> tk \<notin> set earning_kinds \<and> ak \<notin> set own_sources"
| "spares (Debit u amt tk tid sk sid act now) \<longleftrightarrow> tk \<notin> set earning_kinds \<and> sk \<notin> set own_sources"
| "spares (Refund u amt lk lid sk sid act now) \<longleftrightarrow> lk \<notin> set earning_kinds \<and> sk \<notin> set own_sources"
| "spares (PostOther sk sid act fp ps now) \<longleftrightarrow> (\<forall>p \<in> set ps. p_kind p \<notin> set earning_kinds) \<and> sk \<notin> set own_sources"
| "spares (Reserve u sk sid pp amt ex now) \<longleftrightarrow> sk \<notin> set own_sources"
| "spares _ \<longleftrightarrow> True"

definition spared :: "'a wallet_db_scheme \<Rightarrow> 'a wallet_db_scheme \<Rightarrow> bool" where
  "spared s t \<longleftrightarrow>
     wallet_db.more t = wallet_db.more s \<and> (\<forall>k \<in> set earning_kinds. \<forall>x. acct_rows k x t = acct_rows k x s)"

interpretation spare: tx_preorder spared
  by unfold_locales (auto simp: spared_def)

lemma spared_post:
  assumes "\<And>p. p \<in> set ps \<Longrightarrow> p_kind p \<notin> set earning_kinds"
  shows "within spared (post_journal_tx sk sid act fp ps now)"
proof (rule withinI)
  fix s r and t :: "'a wallet_db_scheme"
  assume "post_journal_tx sk sid act fp ps now s = Inr (r, t)"
  then show "spared s t"
  proof (cases rule: post_journal_tx_cases)
    case (fresh j)
    have "acct_units k x ps = []" if "k \<in> set earning_kinds" for k x
      using assms that by (auto simp: acct_units_def filter_empty_conv)
    then show ?thesis using posted_frame(5) [OF fresh(10)] acct_rows_posted [OF fresh(10)] by (simp add: spared_def)
  qed (simp add: spare.R_refl)
qed

lemma spared_same:
  "(\<And>s r t. m s = Inr (r, t) \<Longrightarrow> postings t = postings s \<and> wallet_db.more t = wallet_db.more s) \<Longrightarrow> within spared m"
  by (rule withinI) (simp add: spared_def acct_rows_def)

lemma spared_tables:
  "within spared (ensure_wallet_tx u now)"
  "within spared (update_wallet_tx ctx u g f)"
  "within spared (insert_hold_tx h)"
  "within spared (update_hold_tx ctx i g' f')"
  "within spared new_v4"
  "within spared (existing_journal_tx sk sid act fp)"
  by (rule spared_same,
      auto simp: ensure_wallet_tx_def update_wallet_tx_def insert_hold_tx_def update_hold_tx_def
        new_v4_def existing_journal_tx_Inr Let_def split: option.splits if_splits)+

lemma topup_spared: "p \<in> set (topup_postings u gross units fee) \<Longrightarrow> p_kind p \<notin> set earning_kinds"
  by (auto simp: topup_postings_def earning_kinds_def split: if_splits)

lemma reversal_spared: "p \<in> set (reversal_postings u gross fee fw short) \<Longrightarrow> p_kind p \<notin> set earning_kinds"
  by (auto simp: reversal_postings_def earning_kinds_def split: if_splits)

lemmas spared_rules = spare.within_rules spared_tables spared_post

lemma wallet_ops_spared:
  "within spared (credit_verified_topup_tx u oid amt rf now)"
  "within spared (credit_manual_topup_tx u oid amt rf now)"
  "within spared (reverse_topup_credit_tx u oid amt rf now)"
  "within spared (reserve_wallet_tx u sk sid pp amt ex now)"
  "tk \<notin> set earning_kinds \<Longrightarrow> within spared (capture_hold_tx i amt tk tid ak aid now)"
  "tk \<notin> set earning_kinds \<Longrightarrow> within spared (debit_available_tx u amt tk tid sk sid act now)"
  "tk \<notin> set earning_kinds \<Longrightarrow> within spared (credit_wallet_from_liability_tx u amt tk tid sk sid act now)"
  "within spared (release_hold_tx i now)"
  unfolding credit_verified_topup_tx_def credit_manual_topup_tx_def reverse_topup_credit_tx_def
    reserve_wallet_tx_def capture_hold_tx_def debit_available_tx_def
    credit_wallet_from_liability_tx_def release_hold_tx_def
    add_posted_tx_def sub_posted_tx_def add_held_tx_def
  by (intro spared_rules; (erule topup_spared reversal_spared)?; auto simp: earning_kinds_def)+

lemma wallet_step_spared: "spares c \<Longrightarrow> spared s (wallet_step c s)"
  by (cases c) (auto intro!: spare.commit_within wallet_ops_spared spared_post simp: spare.R_refl,
      simp add: spared_def acct_rows_def)

lemma earn_inv_spared:
  assumes "spared s t" "wallet_inv t" "earn_inv s"
  shows "earn_inv t"
proof -
  have m: "wallet_db.more t = wallet_db.more s" and rows: "\<And>k x. k \<in> set earning_kinds \<Longrightarrow> acct_rows k x t = acct_rows k x s"
    using assms(1) by (auto simp: spared_def)
  have "books_ok t" using assms(3) rows more_fields [OF m] by (simp add: earn_inv_def books_ok_def earning_kinds_def)
  then show ?thesis using assms(2,3) more_fields [OF m]
    by (simp add: earn_inv_def lots_ok_def refs_ok_def parties_ok_def has_active_hold_def)
qed

section \<open>Policies and frozen terms\<close>

text \<open>Operations that write none of the tables the earnings are made of.\<close>

definition undisturbed :: "'a market_db_scheme \<Rightarrow> 'a market_db_scheme \<Rightarrow> bool" where
  "undisturbed s t \<longleftrightarrow>
     journals t = journals s \<and> postings t = postings s \<and> seals t = seals s \<and> holds t = holds s \<and> wallets t = wallets s
     \<and> lots t = lots s \<and> slices t = slices s \<and> earning_holds t = earning_holds s
     \<and> service_disputes t = service_disputes s \<and> dispute_lots t = dispute_lots s
     \<and> platform_contracts t = platform_contracts s \<and> commission_splits t = commission_splits s
     \<and> commission_refunds t = commission_refunds s"

interpretation calm: tx_preorder undisturbed
  by unfold_locales (auto simp: undisturbed_def)

lemma queued_undisturbed: "within queued_only m \<Longrightarrow> within undisturbed m"
  by (rule withinI, drule (1) withinD) (auto simp: undisturbed_def elim!: queued_onlyE)

lemma undisturbed_tables:
  "within undisturbed (update_control_tx e v)" "within undisturbed (insert_policy_tx p)"
  "within undisturbed (insert_cancellation_tx c)" "within undisturbed (insert_or_ignore_quote_terms_tx q)"
  "within undisturbed (insert_contract_terms_tx k)" "within undisturbed (insert_commission_period_tx pe)"
  "within undisturbed (new_v4 :: ('a market_db_scheme, string) tx)"
  by (rule withinI,
      auto simp: undisturbed_def update_control_tx_def insert_policy_tx_def insert_cancellation_tx_def
        insert_or_ignore_quote_terms_tx_def insert_contract_terms_tx_def insert_commission_period_tx_def new_v4_def
        split: if_splits)+

lemmas undisturbed_rules = calm.within_rules undisturbed_tables
  queued_undisturbed [OF owner_signal_queued] queued_undisturbed [OF notify_policy_queued]

lemma policy_ops_undisturbed:
  "within undisturbed (set_policy_tx T e rate actor at)"
  "within undisturbed (freeze_quote_tx T q p at)"
  "within undisturbed (freeze_contract_tx c q p at)"
  "within undisturbed (freeze_period_tx T c k src first anchor at)"
  unfolding set_policy_tx_def freeze_quote_tx_def freeze_contract_tx_def freeze_period_tx_def view_tx_def terms_at_tx_def
    legacy_backlog_tx_def
  by (intro undisturbed_rules)+

lemma earn_inv_undisturbed: "undisturbed s t \<Longrightarrow> earn_inv s \<Longrightarrow> earn_inv t"
  by (rule earn_inv_cong [of s]) (simp_all add: undisturbed_def)


section \<open>The machine\<close>

text \<open>
  A contract is signed with its commission terms; its status and budget hold may change
  later, its parties never. A delivery is recorded for the parties of its contract, the
  way its callers read them from the contract row.
\<close>

definition sign_contract_tx :: "contract_row \<Rightarrow> string \<Rightarrow> string \<Rightarrow> ('a market_db_scheme, unit) tx" where
  "sign_contract_tx c quote at =
     bind_tx (read_tx (\<lambda>s. if pc_id c \<in> pc_id ` set (platform_contracts s)
         then Inl (db_error ''sign contract'' (Database ''market_platform_contracts'')) else Inr ())) (\<lambda>_.
     bind_tx (write_tx (\<lambda>s. s\<lparr>platform_contracts := platform_contracts s @ [c]\<rparr>)) (\<lambda>_.
     freeze_contract_tx (pc_id c) quote (pc_provider c) at))"

datatype earn_cmd =
    WalletOp wallet_cmd
  | SetPolicy int int string string
  | FreezeQuote string string string
  | SignContract contract_row string string
  | UpdateContract string string "string option"
  | PeriodsChanged "service_period_row list"
  | FreezePeriod string string string bool string string
  | MeteredDelivery string string string string string string string string int string
  | MonthlyDelivery string string string string string string string string int string string string
  | QuotaDelivery share_termination int string
  | HoldContract string string string
  | ReleaseHolds string string string string string
  | UnlockBatch string int
  | OpenDispute string string string string
  | ResolveDispute string string int string int string

definition when_tx :: "('s \<Rightarrow> bool) \<Rightarrow> ('s, 'r) tx \<Rightarrow> 's \<Rightarrow> 's" where
  "when_tx guard m s = (if guard s then commit_tx m s else s)"

fun earn_step ::
  "time_lib \<Rightarrow> (string \<Rightarrow> 'a market_db_scheme \<Rightarrow> unit result) \<Rightarrow> earn_cmd \<Rightarrow> 'a market_db_scheme \<Rightarrow> 'a market_db_scheme"
where
  "earn_step T safe (WalletOp c) = (if spares c then wallet_step c else (\<lambda>s. s))"
| "earn_step T safe (SetPolicy e rate actor at) = commit_tx (set_policy_tx T e rate actor at)"
| "earn_step T safe (FreezeQuote q p at) = commit_tx (freeze_quote_tx T q p at)"
| "earn_step T safe (SignContract c q at) = commit_tx (sign_contract_tx c q at)"
| "earn_step T safe (UpdateContract i st h) =
     (\<lambda>s. s\<lparr>platform_contracts := map (\<lambda>c. if pc_id c = i then c\<lparr>pc_status := st, pc_budget_hold := h\<rparr> else c)
        (platform_contracts s)\<rparr>)"
| "earn_step T safe (PeriodsChanged ps) = (\<lambda>s. s\<lparr>platform_periods := ps\<rparr>)"
| "earn_step T safe (FreezePeriod c k src first anchor at) = commit_tx (freeze_period_tx T c k src first anchor at)"
| "earn_step T safe (MeteredDelivery ck c batch h buyer prov st en amt now) =
     when_tx (signed c buyer prov) (record_captured_metered_delivery_tx T ck c batch h buyer prov st en amt now)"
| "earn_step T safe (MonthlyDelivery ck c per src buyer prov st en amt dj deb now) =
     when_tx (signed c buyer prov) (record_monthly_delivery_tx T ck c per src buyer prov st en amt dj deb now)"
| "earn_step T safe (QuotaDelivery e units at) =
     when_tx (\<lambda>s. case te_contract e of None \<Rightarrow> True | Some c \<Rightarrow> signed c (te_buyer e) (te_provider e) s)
       (record_share_quota_delivery_tx T e units at)"
| "earn_step T safe (HoldContract c k time) = commit_tx (hold_contract_earnings_tx c k time)"
| "earn_step T safe (ReleaseHolds k r actor why time) = commit_tx (release_earning_holds_tx k r actor why time)"
| "earn_step T safe (UnlockBatch at limit) = commit_tx (unlock_due_earnings_isolated T at limit)"
| "earn_step T safe (OpenDispute c buyer reason time) = commit_tx (open_dispute_tx T c buyer reason time)"
| "earn_step T safe (ResolveDispute d owner ver resolution units time) =
     commit_tx (resolve_dispute_tx safe d owner ver resolution units time)"

lemma parties_more_contracts:
  assumes "earn_inv s" "pc_id c \<notin> pc_id ` set (platform_contracts s)" "t = s\<lparr>platform_contracts := platform_contracts s @ [c]\<rparr>"
  shows "earn_inv t"
proof -
  have "parties_ok t" using assms unfolding earn_inv_def parties_ok_def by (simp add: Un_iff)
  then show ?thesis using assms(1) wallet_inv_cong [of t s] acct_rows_cong [of t s]
    by (simp add: earn_inv_def books_ok_def lots_ok_def refs_ok_def has_active_hold_def assms(3))
qed

lemma sign_contract_inv: "sign_contract_tx c q at s = Inr (x, t) \<Longrightarrow> earn_inv s \<Longrightarrow> earn_inv t"
  by (auto simp: sign_contract_tx_def tx_simps split: if_splits
      intro: earn_inv_undisturbed [OF withinD [OF policy_ops_undisturbed(3)]] parties_more_contracts)

lemma update_contract_inv:
  assumes "earn_inv s" "t = s\<lparr>platform_contracts := map (\<lambda>c. if pc_id c = i then c\<lparr>pc_status := st, pc_budget_hold := h\<rparr> else c)
      (platform_contracts s)\<rparr>"
  shows "earn_inv t"
proof -
  let ?f = "\<lambda>c. if pc_id c = i then c\<lparr>pc_status := st, pc_budget_hold := h\<rparr> else c"
  have new: "\<exists>c \<in> set (platform_contracts t). pc_id c = x \<and> same_parties c b p"
    if "\<exists>c \<in> set (platform_contracts s). pc_id c = x \<and> same_parties c b p" for x b p
  proof -
    from that obtain c where "c \<in> set (platform_contracts s)" "pc_id c = x" "same_parties c b p" by blast
    then show ?thesis by (intro bexI [of _ "?f c"]) (auto simp: same_parties_def assms(2))
  qed
  have "map pc_id (platform_contracts t) = map pc_id (platform_contracts s)" by (simp add: assms(2))
  moreover have fr: "lots t = lots s" "slices t = slices s" "service_disputes t = service_disputes s" "dispute_lots t = dispute_lots s"
    "earning_holds t = earning_holds s" by (simp_all add: assms(2))
  ultimately have "parties_ok t"
    using assms(1) new unfolding earn_inv_def parties_ok_def fr by simp
  then show ?thesis using assms(1) wallet_inv_cong [of t s] acct_rows_cong [of t s]
    by (simp add: earn_inv_def books_ok_def lots_ok_def refs_ok_def has_active_hold_def assms(2))
qed

lemma undisturbed_inv: "within undisturbed m \<Longrightarrow> m s = Inr (x, t) \<Longrightarrow> earn_inv s \<Longrightarrow> earn_inv t"
  by (drule (1) withinD) (rule earn_inv_undisturbed)

lemmas earn_op_inv = sign_contract_inv hold_contract_inv release_holds_inv unlock_batch_inv(1) open_dispute_inv(1)
  resolve_dispute_inv(1) policy_ops_undisturbed [THEN undisturbed_inv]

lemma when_tx_inv: "I s \<Longrightarrow> (\<And>x t. guard s \<Longrightarrow> m s = Inr (x, t) \<Longrightarrow> I t) \<Longrightarrow> I (when_tx guard m s)"
  by (auto simp: when_tx_def intro: commit_tx_inv)

lemma earn_step_inv:
  assumes inv: "earn_inv s"
  shows "earn_inv (earn_step T safe c s)"
proof (cases c)
  case (WalletOp w)
  have "wallet_inv (wallet_step w s)" using inv wallet_step_inv by (auto simp: earn_inv_def)
  with WalletOp inv show ?thesis by (simp add: earn_inv_spared [OF wallet_step_spared])
next
  case (UpdateContract i st h)
  then show ?thesis using update_contract_inv [OF inv] by simp
next
  case (PeriodsChanged ps)
  then show ?thesis using earn_inv_cong [OF inv, of "s\<lparr>platform_periods := ps\<rparr>"] by simp
next
  case (MeteredDelivery ck c batch h buyer prov st en amt now)
  then show ?thesis
    by (simp only: earn_step.simps) (rule when_tx_inv [of earn_inv, OF inv], erule metered_delivery_inv [OF _ inv])
next
  case (MonthlyDelivery ck c per src buyer prov st en amt dj deb now)
  then show ?thesis
    by (simp only: earn_step.simps) (rule when_tx_inv [of earn_inv, OF inv], erule monthly_delivery_inv [OF _ inv])
next
  case (QuotaDelivery e units at)
  then show ?thesis
    by (simp only: earn_step.simps) (rule when_tx_inv [of earn_inv, OF inv], erule quota_delivery_inv [OF _ inv], simp)
qed (simp_all only: earn_step.simps, (rule commit_tx_inv [of earn_inv, OF inv], erule earn_op_inv, rule inv)+)

interpretation earnings: safe_machine "earn_step T safe" earn_inv
  by unfold_locales (rule earn_step_inv)

end
