(* ===== verification/Earning_History.thy ===== *)
theory Earning_History
  imports Earning_Properties
begin

text \<open>
  What the deliveries of \<open>src/src/market_finance.rs\<close> leave behind: the splits of a
  commission period (\<open>src/src/market_commission.rs\<close>) form one chain of cumulative totals,
  and the date a lot matures is fixed by the debit and the fulfilment. Every command of
  the earnings machine is one of three kinds: it keeps the lots and the evidence, it
  opens a commission period, or it adds one delivery.
\<close>


section \<open>The kinds of commands\<close>

definition continues :: "'a market_db_scheme \<Rightarrow> commission_period_row \<Rightarrow> lot_row \<Rightarrow> split_row \<Rightarrow> bool" where
  "continues s p l x \<longleftrightarrow>
     sp_lot x = l_id l \<and> sp_period x = pe_id p
     \<and> sp_gross_before x = max_or_zero (map sp_gross_after (period_splits (pe_id p) s))
     \<and> sp_gross_after x = sp_gross_before x + l_amount l
     \<and> cumulative_fee (sp_gross_before x) (pe_rate_bps p) = Inr (sp_fee_before x)
     \<and> cumulative_fee (sp_gross_after x) (pe_rate_bps p) = Inr (sp_fee_after x)
     \<and> l_commission l = sp_fee_after x - sp_fee_before x"

definition adds_delivery :: "time_lib \<Rightarrow> 'a market_db_scheme \<Rightarrow> 'a market_db_scheme \<Rightarrow> bool" where
  "adds_delivery T s t \<longleftrightarrow>
     (\<exists>l xs. lots t = lots s @ [l] \<and> commission_splits t = commission_splits s @ xs
        \<and> commission_periods t = commission_periods s
        \<and> l_id l \<notin> l_id ` set (lots s) \<and> 0 < l_amount l
        \<and> unlock_at T (l_debited_at l) (l_fulfilled_at l) = Inr (l_unlock_at l)
        \<and> (if xs = [] then l_commission l = 0
           else \<exists>p x. p \<in> set (commission_periods s) \<and> xs = [x] \<and> continues s p l x))"

definition adds_period :: "'a market_db_scheme \<Rightarrow> 'a market_db_scheme \<Rightarrow> bool" where
  "adds_period s t \<longleftrightarrow>
     (\<exists>p. lots t = lots s \<and> commission_splits t = commission_splits s
        \<and> commission_periods t = commission_periods s @ [p] \<and> pe_id p \<notin> pe_id ` set (commission_periods s)
        \<and> rate_check (pe_rate_bps p))"

definition same_evidence :: "'a market_db_scheme \<Rightarrow> 'a market_db_scheme \<Rightarrow> bool" where
  "same_evidence s t \<longleftrightarrow>
     map lot_ident (lots t) = map lot_ident (lots s) \<and> commission_splits t = commission_splits s
     \<and> commission_periods t = commission_periods s"

lemma kept_evidence: "kept s t \<Longrightarrow> same_evidence s t"
  by (simp add: kept_def same_evidence_def)

interpretation same: tx_preorder same_evidence
  by unfold_locales (auto simp: same_evidence_def)

lemma same_more: "wallet_db.more t = wallet_db.more s \<Longrightarrow> same_evidence s t"
  using more_fields [of t s] by (simp add: same_evidence_def)

lemma same_tables:
  "within same_evidence (update_control_tx e v)" "within same_evidence (insert_policy_tx p)"
  "within same_evidence (insert_cancellation_tx c)" "within same_evidence (insert_or_ignore_quote_terms_tx q)"
  "within same_evidence (insert_contract_terms_tx k)"
  "within same_evidence (write_tx (\<lambda>s. s\<lparr>platform_contracts := f s\<rparr>))"
  by (rule withinI,
      auto simp: same_evidence_def update_control_tx_def insert_policy_tx_def insert_cancellation_tx_def
        insert_or_ignore_quote_terms_tx_def insert_contract_terms_tx_def tx_simps
        split: if_splits)+

lemma same_queued: "within queued_only m \<Longrightarrow> within same_evidence m"
  by (rule withinI, drule (1) withinD) (auto simp: same_evidence_def elim!: queued_onlyE)

lemma policy_ops_same:
  "within same_evidence (set_policy_tx T e rate actor at)"
  "within same_evidence (freeze_quote_tx T q p at)"
  "within same_evidence (sign_contract_tx c q at)"
  unfolding set_policy_tx_def freeze_quote_tx_def freeze_contract_tx_def view_tx_def terms_at_tx_def sign_contract_tx_def
  by (intro same.within_rules same_tables same_queued owner_signal_queued notify_policy_queued)+

lemma freeze_period_adds:
  assumes "freeze_period_tx T c k src first anchor at s = Inr (x, t)"
  shows "adds_period s t"
proof -
  from assms obtain v rate n u where
    i: "insert_commission_period_tx \<lparr>pe_id = n, pe_contract = c, pe_source_kind = k, pe_source_id = src,
       pe_policy_version = v, pe_rate_bps = rate, pe_anchor_at = anchor, pe_created_at = at\<rparr> u = Inr (x, t)"
    and u: "commission_splits u = commission_splits s" "commission_periods u = commission_periods s" "lots u = lots s"
    by (auto simp: freeze_period_tx_def tx_simps new_v4_def legacy_backlog_tx_def terms_at_tx_def split: if_splits)
  then show ?thesis
    by (auto simp: adds_period_def insert_commission_period_tx_def split: if_splits)
qed

lemma deliver_adds:
  assumes f: "funded prov amt ej s s1"
    and op: "insert_slice_and_lot_tx T ck c sk sid per buyer prov st en amt dj ej deb now s1 = Inr (r, t)"
  shows "adds_delivery T s t"
  using op
proof (cases rule: insert_slice_and_lot_cases)
  case (1 n d l a xs u)
  have m1: "wallet_db.more s1 = wallet_db.more s" using f by (simp add: funded_def)
  let ?s = "s1\<lparr>uuid_drawn := n, slices := slices s1 @ [d]\<rparr>"
  have "wallet_inv ?s" using f wallet_inv_cong [of ?s s1] by (simp add: funded_def)
  note mu = more_fields [OF allocation_books(2) [OF 1(1) this 1(8)]] and m = more_fields [OF m1]
  have l: "l_amount l = amt" "l_commission l = da_fee_units a" using 1(3,6) by (auto simp: fresh_lot_def)
  from 1(2) have t: "lots t = lots s @ [l]" "commission_splits t = commission_splits s @ xs"
    "commission_periods t = commission_periods s" "l_id l \<notin> l_id ` set (lots s)"
    and xs: "case da_evidence a of None \<Rightarrow> xs = []
        | Some e \<Rightarrow> \<exists>now. xs = [split_of_allocation (l_id l) now e]"
    using mu m unfolding delivered_def by (auto split: option.splits)
  have "if xs = [] then l_commission l = 0
    else \<exists>p x. p \<in> set (commission_periods s) \<and> xs = [x] \<and> continues s p l x"
    using 1(1)
  proof (cases rule: allocate_delivery_cases)
    case unsplit
    then show ?thesis using xs l(2) by (simp add: no_allocation_def)
  next
    case (split p)
    then have p: "p \<in> set (commission_periods s)" using m by (simp add: commission_source_def)
    have ps: "period_splits (pe_id p) ?s = period_splits (pe_id p) s" using m by (simp add: period_splits_def)
    from split(2) xs show ?thesis
      unfolding allocated_def ps
      by (auto simp: continues_def split_of_allocation_def l intro!: exI [of _ p] p)
  qed
  with t 1(8,11-13) l(1) show ?thesis
    unfolding adds_delivery_def by (intro exI [of _ l] exI [of _ xs]) simp
qed

lemma delivery_ops_add:
  assumes "wallet_inv s"
  shows "record_captured_metered_delivery_tx T ck c batch h buyer prov st en amt now s = Inr (x, t) \<Longrightarrow>
      same_evidence s t \<or> adds_delivery T s t"
    "record_monthly_delivery_tx T ck c per src buyer prov st en amt dj deb now s = Inr (y, t) \<Longrightarrow>
      same_evidence s t \<or> adds_delivery T s t"
    "record_share_quota_delivery_tx T e units at s = Inr (z, t) \<Longrightarrow> same_evidence s t \<or> adds_delivery T s t"
proof -
  assume "record_captured_metered_delivery_tx T ck c batch h buyer prov st en amt now s = Inr (x, t)"
  then show "same_evidence s t \<or> adds_delivery T s t"
    using assms by (cases rule: metered_delivery_cases) (auto intro: deliver_adds [OF capture_funded])
next
  assume "record_monthly_delivery_tx T ck c per src buyer prov st en amt dj deb now s = Inr (y, t)"
  then show "same_evidence s t \<or> adds_delivery T s t"
    using assms by (cases rule: monthly_delivery_cases) (auto intro: deliver_adds [OF post_funded] same.R_refl)
next
  assume "record_share_quota_delivery_tx T e units at s = Inr (z, t)"
  then show "same_evidence s t \<or> adds_delivery T s t"
    using assms by (cases rule: quota_delivery_cases) (auto intro: deliver_adds [OF post_funded] same.R_refl)
qed

lemma earn_step_kinds:
  assumes inv: "earn_inv s" and t: "t = earn_step T safe c s"
  shows "same_evidence s t \<or> adds_period s t \<or> adds_delivery T s t"
proof -
  have w: "wallet_inv s" using inv by (simp add: earn_inv_def)
  let ?P = "\<lambda>t. same_evidence s t \<or> adds_period s t \<or> adds_delivery T s t"
  have refl: "?P s" by (simp add: same.R_refl)
  have kept: "kept s u \<Longrightarrow> ?P u" for u by (simp add: kept_evidence)
  show ?thesis
    unfolding t
  proof (cases c)
    case (WalletOp w)
    then show "?P (earn_step T safe c s)"
      using wallet_step_spared [of w s] by (auto simp: spared_def intro: same_more same.R_refl)
  next
    case (UpdateContract i st h)
    then show "?P (earn_step T safe c s)" by (simp add: same_evidence_def)
  next
    case (MeteredDelivery ck k batch h buyer prov st en amt now)
    then show "?P (earn_step T safe c s)"
      by (simp only: earn_step.simps) (rule when_tx_inv [of ?P, OF refl], drule delivery_ops_add(1) [OF w], blast)
  next
    case (MonthlyDelivery ck k per src buyer prov st en amt dj deb now)
    then show "?P (earn_step T safe c s)"
      by (simp only: earn_step.simps) (rule when_tx_inv [of ?P, OF refl], drule delivery_ops_add(2) [OF w], blast)
  next
    case (QuotaDelivery e units at)
    then show "?P (earn_step T safe c s)"
      by (simp only: earn_step.simps) (rule when_tx_inv [of ?P, OF refl], drule delivery_ops_add(3) [OF w], blast)
  next
    case (PeriodsChanged ps)
    then show "?P (earn_step T safe c s)" by (simp add: same_evidence_def)
  qed (simp_all only: earn_step.simps,
      (rule commit_tx_inv [of ?P, OF refl],
        (((drule policy_ops_same [THEN withinD] freeze_period_adds), blast)
         | (rule kept, erule hold_contract_held [THEN held_kept] unlock_batch_inv(2) [OF _ inv] open_dispute_inv(2) [OF _ inv]
             resolve_dispute_inv(2) [OF _ inv])
         | (rule kept, drule release_holds_held, metis held_kept)))+)
qed


section \<open>The chain of a commission period\<close>

text \<open>
  The splits of a period, in order: each starts where the last one ended, and the fees
  are the rounded shares of the cumulative gross.
\<close>

fun chain :: "int \<Rightarrow> int \<Rightarrow> split_row list \<Rightarrow> bool" where
  "chain rate g [] \<longleftrightarrow> True"
| "chain rate g (x # xs) \<longleftrightarrow>
     sp_gross_before x = g \<and> g < sp_gross_after x
     \<and> cumulative_fee g rate = Inr (sp_fee_before x)
     \<and> cumulative_fee (sp_gross_after x) rate = Inr (sp_fee_after x)
     \<and> chain rate (sp_gross_after x) xs"

definition chain_end :: "int \<Rightarrow> split_row list \<Rightarrow> int" where
  "chain_end g xs = (if xs = [] then g else sp_gross_after (last xs))"

lemma chain_end_simps [simp]: "chain_end g [] = g" "chain_end g (x # xs) = chain_end (sp_gross_after x) xs"
  by (simp_all add: chain_end_def)

lemma chain_snoc:
  "chain rate g (xs @ [x]) \<longleftrightarrow> chain rate g xs \<and> chain rate (chain_end g xs) [x]"
  by (induction xs arbitrary: g) auto

lemma chain_above: "chain rate g xs \<Longrightarrow> g \<le> chain_end g xs \<and> (\<forall>x \<in> set xs. g < sp_gross_after x \<and> sp_gross_after x \<le> chain_end g xs)"
  by (induction xs arbitrary: g) fastforce+

lemma chain_end_member: "xs \<noteq> [] \<Longrightarrow> chain_end g xs \<in> sp_gross_after ` set xs"
  by (simp add: chain_end_def)

lemma chain_max: "chain rate 0 xs \<Longrightarrow> max_or_zero (map sp_gross_after xs) = chain_end 0 xs"
  using chain_above [of rate 0 xs] chain_end_member [of xs 0]
  by (auto simp: max_or_zero_def intro!: Max_eqI)

lemma chain_sums:
  assumes "chain rate g xs" "cumulative_fee g rate = Inr f"
  shows "sum_list (map (\<lambda>x. sp_gross_after x - sp_gross_before x) xs) = chain_end g xs - g"
    "cumulative_fee (chain_end g xs) rate = Inr (f + sum_list (map (\<lambda>x. sp_fee_after x - sp_fee_before x) xs))"
  using assms by (induction xs arbitrary: g f) auto

definition splits_ok :: "'a market_db_scheme \<Rightarrow> bool" where
  "splits_ok s \<longleftrightarrow>
     distinct (map pe_id (commission_periods s)) \<and> distinct (map sp_lot (commission_splits s))
     \<and> (\<forall>p \<in> set (commission_periods s). rate_check (pe_rate_bps p)
          \<and> chain (pe_rate_bps p) 0 (period_splits (pe_id p) s))
     \<and> (\<forall>x \<in> set (commission_splits s). sp_period x \<in> pe_id ` set (commission_periods s)
          \<and> (\<exists>l \<in> set (lots s). l_id l = sp_lot x \<and> l_amount l = sp_gross_after x - sp_gross_before x
               \<and> l_commission l = sp_fee_after x - sp_fee_before x))"

lemma splits_ok_same:
  assumes "same_evidence s t" "splits_ok s"
  shows "splits_ok t"
proof -
  have img: "lot_ident ` set (lots t) = lot_ident ` set (lots s)"
    using assms(1) by (metis list.set_map same_evidence_def)
  have "\<exists>m \<in> set (lots t). l_id m = l_id l \<and> l_amount m = l_amount l \<and> l_commission m = l_commission l"
    if "l \<in> set (lots s)" for l
  proof -
    from that img obtain m where "m \<in> set (lots t)" "lot_ident m = lot_ident l" by (metis (no_types, lifting) imageE imageI)
    then show ?thesis by (intro bexI [of _ m]) (simp_all add: lot_ident_def)
  qed
  note lot = this
  have e: "commission_splits t = commission_splits s" "commission_periods t = commission_periods s"
    using assms(1) by (simp_all add: same_evidence_def)
  have p: "period_splits i t = period_splits i s" for i by (simp add: period_splits_def e)
  have "\<exists>l \<in> set (lots t). l_id l = sp_lot x \<and> l_amount l = sp_gross_after x - sp_gross_before x
      \<and> l_commission l = sp_fee_after x - sp_fee_before x" if "x \<in> set (commission_splits s)" for x
    using assms(2) lot that unfolding splits_ok_def by metis
  then show ?thesis using assms(2) by (simp add: splits_ok_def e p)
qed

lemma splits_ok_period:
  assumes "adds_period s t" "splits_ok s"
  shows "splits_ok t"
proof -
  from assms(1) obtain p where p: "lots t = lots s" "commission_splits t = commission_splits s"
    "commission_periods t = commission_periods s @ [p]" "pe_id p \<notin> pe_id ` set (commission_periods s)" "rate_check (pe_rate_bps p)"
    by (auto simp: adds_period_def)
  have "period_splits (pe_id p) t = []"
    using assms(2) p(4) unfolding period_splits_def p(2) filter_empty_conv splits_ok_def by metis
  moreover have "period_splits i t = period_splits i s" for i by (simp add: period_splits_def p)
  ultimately show ?thesis using assms(2) p(4,5) by (auto simp: splits_ok_def p)
qed

lemma splits_ok_delivery:
  assumes "adds_delivery T s t" "splits_ok s"
  shows "splits_ok t"
proof -
  from assms(1) obtain l xs where t: "lots t = lots s @ [l]" "commission_splits t = commission_splits s @ xs"
    "commission_periods t = commission_periods s" and l: "l_id l \<notin> l_id ` set (lots s)" "0 < l_amount l"
    and xs: "if xs = [] then l_commission l = 0 else \<exists>p x. p \<in> set (commission_periods s) \<and> xs = [x] \<and> continues s p l x"
    unfolding adds_delivery_def by blast
  show ?thesis
  proof (cases "xs = []")
    case True
    then show ?thesis using assms(2) t by (auto simp: splits_ok_def period_splits_def)
  next
    case False
    with xs obtain p x where p: "p \<in> set (commission_periods s)" "xs = [x]" and c: "continues s p l x" by auto
    have new: "sp_lot x \<notin> sp_lot ` set (commission_splits s)"
    proof
      assume "sp_lot x \<in> sp_lot ` set (commission_splits s)"
      then obtain y where "y \<in> set (commission_splits s)" "sp_lot y = l_id l" using c by (auto simp: continues_def)
      with assms(2) obtain m where "m \<in> set (lots s)" "l_id m = l_id l" by (auto simp: splits_ok_def)
      with l(1) show False by (metis imageI)
    qed
    have ch: "chain (pe_rate_bps p) 0 (period_splits (pe_id p) s)" using assms(2) p(1) by (simp add: splits_ok_def)
    have "chain (pe_rate_bps q) 0 (period_splits (pe_id q) t)" if q: "q \<in> set (commission_periods s)" for q
    proof (cases "pe_id q = pe_id p")
      case True
      have "q = p" using assms(2) q p(1) True by (metis splits_ok_def distinct_map inj_onD)
      moreover have "period_splits (pe_id p) t = period_splits (pe_id p) s @ [x]"
        using c by (simp add: period_splits_def t p(2) continues_def)
      ultimately show ?thesis
        using ch c l(2) chain_max [OF ch] by (auto simp: chain_snoc continues_def)
    next
      case False
      then have "period_splits (pe_id q) t = period_splits (pe_id q) s"
        using c by (auto simp: period_splits_def t p(2) continues_def)
      then show ?thesis using assms(2) q by (simp add: splits_ok_def)
    qed
    then show ?thesis
      using assms(2) new c p(1) by (auto simp: splits_ok_def t p(2) continues_def)
  qed
qed


section \<open>Maturity\<close>

definition matured_ok :: "time_lib \<Rightarrow> 'a market_db_scheme \<Rightarrow> bool" where
  "matured_ok T s \<longleftrightarrow>
     (\<forall>l \<in> set (lots s). unlock_at T (l_debited_at l) (l_fulfilled_at l) = Inr (l_unlock_at l))"

lemma matured_ok_same:
  assumes "same_evidence s t" "matured_ok T s"
  shows "matured_ok T t"
proof -
  have img: "lot_ident ` set (lots t) = lot_ident ` set (lots s)"
    using assms(1) by (metis list.set_map same_evidence_def)
  have "unlock_at T (l_debited_at l) (l_fulfilled_at l) = Inr (l_unlock_at l)" if "l \<in> set (lots t)" for l
  proof -
    from that img obtain m where "m \<in> set (lots s)" "lot_ident m = lot_ident l" by (metis (no_types, lifting) imageE imageI)
    with assms(2) show ?thesis by (auto simp: matured_ok_def lot_ident_def)
  qed
  then show ?thesis by (simp add: matured_ok_def)
qed

lemma matured_ok_period: "adds_period s t \<Longrightarrow> matured_ok T s \<Longrightarrow> matured_ok T t"
  by (auto simp: adds_period_def matured_ok_def)

lemma matured_ok_delivery: "adds_delivery T s t \<Longrightarrow> matured_ok T s \<Longrightarrow> matured_ok T t"
  by (auto simp: adds_delivery_def matured_ok_def)

definition history_inv :: "time_lib \<Rightarrow> 'a market_db_scheme \<Rightarrow> bool" where
  "history_inv T s \<longleftrightarrow> earn_inv s \<and> splits_ok s \<and> matured_ok T s"

interpretation history: safe_machine "earn_step T safe" "history_inv T"
proof unfold_locales
  fix s :: "'a market_db_scheme" and c
  assume h: "history_inv T s"
  then have inv: "earn_inv s" by (simp add: history_inv_def)
  from earn_step_kinds [OF inv refl, of T safe c] h
  have "splits_ok (earn_step T safe c s) \<and> matured_ok T (earn_step T safe c s)"
    unfolding history_inv_def
    using splits_ok_same splits_ok_period splits_ok_delivery matured_ok_same matured_ok_period matured_ok_delivery by blast
  with earn_step_inv [OF inv] show "history_inv T (earn_step T safe c s)" by (simp add: history_inv_def)
qed

text \<open>
  A freshly installed market: empty tables, and the policy that the schema inserts
  (\<open>src/schema/0076_market_provider_commission.sql\<close>): ten percent from the beginning.
\<close>

definition new_market :: "(nat \<Rightarrow> string) \<Rightarrow> string \<Rightarrow> market_db" where
  "new_market ids installed_at = \<lparr>uuid_supply = ids, uuid_drawn = 0, wallets = (\<lambda>_. None), journals = [], postings = [],
     seals = [], holds = [], topup_orders = (\<lambda>_. None), owner_actions = [], notification_outbox = [], operator_outbox = [],
     commission_version = 1,
     commission_policies = [\<lparr>cp_version = 1, cp_rate_bps = 1000, cp_effective_at = ''1970-01-01T00:00:00+00:00'',
       cp_actor = ''system'', cp_created_at = installed_at\<rparr>],
     commission_cancellations = [], quote_terms = [], contract_terms = [], commission_periods = [],
     commission_splits = [], commission_refunds = [], platform_contracts = [], profile_users = [],
     platform_periods = [], slices = [], lots = [], earning_holds = [], service_disputes = [], dispute_lots = [],
     finance_cases = [], finance_audit = [], compensations = [], share_income = []\<rparr>"

lemma new_market_wallet: "wallet_inv (new_market ids at)"
  by (simp add: wallet_inv_def new_market_def ledger_ok_def journal_total_def holds_ok_def
      user_ok_def posted_of_def held_of_def acct_rows_def reserved_def credit_range_def i64_defs)

lemma new_market_tables:
  "lots (new_market ids at) = []" "slices (new_market ids at) = []" "service_disputes (new_market ids at) = []"
  "dispute_lots (new_market ids at) = []" "earning_holds (new_market ids at) = []" "platform_contracts (new_market ids at) = []"
  "commission_splits (new_market ids at) = []" "commission_periods (new_market ids at) = []" "postings (new_market ids at) = []"
  by (simp_all add: new_market_def)

lemma new_market_inv: "history_inv T (new_market ids at)"
  using new_market_wallet
  by (simp add: history_inv_def earn_inv_def books_ok_def lots_ok_def refs_ok_def parties_ok_def splits_ok_def matured_ok_def
      new_market_tables acct_rows_def lots_sum_def)

lemmas reachable_history = history.run_inv [OF new_market_inv]

end
