(* ===== verification/Ledger_Growth.thy ===== *)
theory Ledger_Growth
  imports Earning_History
begin

text \<open>
  What an operation may add to the journal: new transactions with identifiers drawn during
  the operation and sources the caller names, and rows of these transactions only. Every
  operation of the earnings machine is shown to be of this kind, so what was recorded of
  a lot stays recorded.
\<close>


section \<open>Growth of the journal\<close>

definition drawn_ids :: "'a wallet_db_scheme \<Rightarrow> 'a wallet_db_scheme \<Rightarrow> string set" where
  "drawn_ids s t = uuid_supply s ` {uuid_drawn s ..< uuid_drawn t}"

definition grown :: "(journal_row \<Rightarrow> bool) \<Rightarrow> 'a wallet_db_scheme \<Rightarrow> 'a wallet_db_scheme \<Rightarrow> bool" where
  "grown P s t \<longleftrightarrow>
     uuid_supply t = uuid_supply s \<and> uuid_drawn s \<le> uuid_drawn t
     \<and> (\<exists>js rows sl. journals t = journals s @ js \<and> postings t = postings s @ rows \<and> seals t = seals s @ sl
          \<and> (\<forall>j \<in> set js. P j \<and> j_id j \<notin> j_id ` set (journals s) \<and> j_id j \<in> drawn_ids s t)
          \<and> (\<forall>r \<in> set rows. pr_journal r \<in> j_id ` set js \<and> pr_id r \<in> drawn_ids s t))"

lemma grownE:
  assumes "grown P s t"
  obtains js rows sl where "journals t = journals s @ js" "postings t = postings s @ rows" "seals t = seals s @ sl"
    "\<And>j. j \<in> set js \<Longrightarrow> P j" "\<And>j. j \<in> set js \<Longrightarrow> j_id j \<notin> j_id ` set (journals s)"
    "\<And>r. r \<in> set rows \<Longrightarrow> pr_journal r \<in> j_id ` set js"
    "\<And>j. j \<in> set js \<Longrightarrow> j_id j \<in> drawn_ids s t" "\<And>r. r \<in> set rows \<Longrightarrow> pr_id r \<in> drawn_ids s t"
    "uuid_supply t = uuid_supply s" "uuid_drawn s \<le> uuid_drawn t"
proof -
  from assms obtain js rows sl where "journals t = journals s @ js" "postings t = postings s @ rows" "seals t = seals s @ sl"
    "\<forall>j \<in> set js. P j \<and> j_id j \<notin> j_id ` set (journals s) \<and> j_id j \<in> drawn_ids s t"
    "\<forall>r \<in> set rows. pr_journal r \<in> j_id ` set js \<and> pr_id r \<in> drawn_ids s t"
    "uuid_supply t = uuid_supply s" "uuid_drawn s \<le> uuid_drawn t" unfolding grown_def by blast
  then show thesis by (intro that [of js rows sl]) blast+
qed

lemma drawn_ids_trans:
  assumes "uuid_supply t = uuid_supply s" "uuid_drawn s \<le> uuid_drawn t" "uuid_drawn t \<le> uuid_drawn u"
  shows "drawn_ids s t \<subseteq> drawn_ids s u" "drawn_ids t u \<subseteq> drawn_ids s u"
  using assms by (auto simp: drawn_ids_def)

interpretation growth: tx_preorder "grown P"
proof unfold_locales
  fix s t u :: "'a wallet_db_scheme"
  show "grown P s s" by (simp add: grown_def)
  assume st: "grown P s t" and tu: "grown P t u"
  from st obtain js rows sl where a: "journals t = journals s @ js" "postings t = postings s @ rows" "seals t = seals s @ sl"
    "\<And>j. j \<in> set js \<Longrightarrow> P j \<and> j_id j \<notin> j_id ` set (journals s) \<and> j_id j \<in> drawn_ids s t"
    "\<And>r. r \<in> set rows \<Longrightarrow> pr_journal r \<in> j_id ` set js \<and> pr_id r \<in> drawn_ids s t"
    and sup: "uuid_supply t = uuid_supply s" "uuid_drawn s \<le> uuid_drawn t" unfolding grown_def by blast
  from tu obtain ks more tl where b: "journals u = journals t @ ks" "postings u = postings t @ more" "seals u = seals t @ tl"
    "\<And>j. j \<in> set ks \<Longrightarrow> P j \<and> j_id j \<notin> j_id ` set (journals t) \<and> j_id j \<in> drawn_ids t u"
    "\<And>r. r \<in> set more \<Longrightarrow> pr_journal r \<in> j_id ` set ks \<and> pr_id r \<in> drawn_ids t u"
    and sup2: "uuid_supply u = uuid_supply t" "uuid_drawn t \<le> uuid_drawn u" unfolding grown_def by blast
  note dr = drawn_ids_trans [OF sup sup2(2), THEN subsetD]
  have "P j \<and> j_id j \<notin> j_id ` set (journals s) \<and> j_id j \<in> drawn_ids s u" if "j \<in> set (js @ ks)" for j
    using that a(1) a(4) [of j] b(4) [of j] dr by auto
  moreover have "pr_journal r \<in> j_id ` set (js @ ks) \<and> pr_id r \<in> drawn_ids s u" if "r \<in> set (rows @ more)" for r
    using that a(5) [of r] b(5) [of r] dr by auto
  ultimately show "grown P s u"
    unfolding grown_def using a(1-3) b(1-3) sup sup2
    by (intro conjI exI [of _ "js @ ks"] exI [of _ "rows @ more"] exI [of _ "sl @ tl"]) simp_all
qed

text \<open>An operation that draws identifiers and posts nothing.\<close>

definition silent :: "'a wallet_db_scheme \<Rightarrow> 'a wallet_db_scheme \<Rightarrow> bool" where
  "silent s t \<longleftrightarrow>
     uuid_supply t = uuid_supply s \<and> uuid_drawn s \<le> uuid_drawn t
     \<and> journals t = journals s \<and> postings t = postings s \<and> seals t = seals s"

lemma silent_grown: "silent s t \<Longrightarrow> grown P s t"
  by (auto simp: silent_def grown_def)

interpretation silence: tx_preorder silent
  by unfold_locales (auto simp: silent_def)

lemma within_silent: "within silent m \<Longrightarrow> within (grown P) m"
  by (rule withinI) (drule (1) withinD, erule silent_grown)

lemma grown_mono: "grown P s t \<Longrightarrow> (\<And>j. P j \<Longrightarrow> Q j) \<Longrightarrow> grown Q s t"
  unfolding grown_def by meson

lemma insert_postings_drawn:
  assumes "insert_postings_tx jid now ps s = Inr (x, t)"
  shows "\<exists>n rows. uuid_drawn s \<le> n \<and> t = s\<lparr>uuid_drawn := n, postings := postings s @ rows\<rparr>
    \<and> (\<forall>r \<in> set rows. pr_journal r = jid \<and> pr_id r \<in> uuid_supply s ` {uuid_drawn s ..< n})"
  using assms
proof (induction ps arbitrary: s)
  case Nil
  then show ?case by (intro exI [of _ "uuid_drawn s"] exI [of _ "[]"]) (simp add: tx_simps)
next
  case (Cons p ps)
  define row where "row = \<lparr>pr_id = uuid_supply s (uuid_drawn s), pr_journal = jid, pr_kind = p_kind p, pr_subject = p_subject p,
    pr_asset = ''USD'', pr_units = p_units p, pr_created_at = now\<rparr>"
  define u where "u = s\<lparr>uuid_drawn := Suc (uuid_drawn s), postings := postings s @ [row]\<rparr>"
  from Cons.prems have "insert_postings_tx jid now ps u = Inr (x, t)" by (auto simp: tx_simps row_def u_def)
  from Cons.IH [OF this] obtain n rows where n: "uuid_drawn u \<le> n" "t = u\<lparr>uuid_drawn := n, postings := postings u @ rows\<rparr>"
    "\<forall>r \<in> set rows. pr_journal r = jid \<and> pr_id r \<in> uuid_supply u ` {uuid_drawn u ..< n}" by blast
  show ?case
    by (intro exI [of _ n] exI [of _ "row # rows"]) (use n in \<open>auto simp: u_def row_def\<close>)
qed

lemma post_journal_grown:
  assumes "\<And>j. j_source_kind j = sk \<Longrightarrow> j_source_id j = sid \<Longrightarrow> j_action j = act \<Longrightarrow> P j"
  shows "within (grown P) (post_journal_tx sk sid act fp ps now)"
proof (rule withinI)
  fix s r and t :: "'a wallet_db_scheme"
  assume op: "post_journal_tx sk sid act fp ps now s = Inr (r, t)"
  show "grown P s t"
  proof (cases "find_journal sk sid act s")
    case (Some j)
    with op have "t = s" by (auto simp: post_journal_tx_def existing_journal_tx_def tx_simps split: if_splits)
    then show ?thesis by (simp add: growth.R_refl)
  next
    case None
    define jid where "jid = uuid_supply s (uuid_drawn s)"
    define j where "j = \<lparr>j_id = jid, j_source_kind = sk, j_source_id = sid, j_action = act,
      j_asset = ''USD'', j_fingerprint = fp, j_created_at = now\<rparr>"
    define s1 where "s1 = s\<lparr>uuid_drawn := Suc (uuid_drawn s), journals := journals s @ [j]\<rparr>"
    from op None obtain v where jr: "jid \<notin> j_id ` set (journals s)" and ins: "insert_postings_tx jid now ps s1 = Inr ((), v)"
      and seal: "insert_seal_tx \<lparr>s_journal = jid, s_count = int (length ps), s_sealed_at = now\<rparr> v = Inr ((), t)"
      by (auto simp: post_journal_tx_def existing_journal_tx_def insert_journal_tx_def tx_simps
          jid_def j_def s1_def split: if_splits)
    from insert_postings_drawn [OF ins] obtain n rows where n: "Suc (uuid_drawn s) \<le> n"
      "v = s1\<lparr>uuid_drawn := n, postings := postings s1 @ rows\<rparr>"
      "\<forall>r \<in> set rows. pr_journal r = jid \<and> pr_id r \<in> uuid_supply s ` {Suc (uuid_drawn s) ..< n}" by (auto simp: s1_def)
    from seal obtain x where t: "t = v\<lparr>seals := seals v @ [x]\<rparr>" by (auto simp: insert_seal_tx_def Let_def split: if_splits)
    have "P j" by (rule assms) (simp_all add: j_def)
    moreover have "jid \<in> drawn_ids s t" using n(1) by (auto simp: drawn_ids_def t n(2) jid_def)
    ultimately show ?thesis
      unfolding grown_def using jr n
      by (intro conjI exI [of _ "[j]"] exI [of _ rows] exI [of _ "[x]"]) (auto simp: t s1_def j_def drawn_ids_def)
  qed
qed

section \<open>Statements that post nothing\<close>

lemma silent_wallet_tables:
  "within silent (ensure_wallet_tx u now)"
  "within silent (update_wallet_tx ctx u g f)"
  "within silent (insert_hold_tx h)"
  "within silent (update_hold_tx ctx i g' f')"
  "within silent new_v4"
  "within silent (existing_journal_tx sk sid act fp)"
  by (rule withinI,
      auto simp: silent_def ensure_wallet_tx_def update_wallet_tx_def insert_hold_tx_def update_hold_tx_def
        new_v4_def existing_journal_tx_Inr Let_def split: option.splits if_splits)+

lemma silent_queue:
  "within silent (enqueue_user_notification_tx a r ek ok oid dk pl time)"
  "within silent (owner_signal_tx T k ek eid d time res)"
  unfolding enqueue_user_notification_tx_def owner_signal_tx_def Let_def
  by (rule withinI,
      auto simp: silent_def tx_simps insert_notice_tx_def enqueue_operator_alert_signal_tx_def Let_def
        split: if_splits option.splits)+

lemma silent_market_tables:
  "within silent (update_control_tx e v)" "within silent (insert_policy_tx p)"
  "within silent (insert_cancellation_tx c)" "within silent (insert_or_ignore_quote_terms_tx q)"
  "within silent (insert_contract_terms_tx k)" "within silent (insert_commission_period_tx pe)"
  "within silent (insert_split_tx x)" "within silent (insert_slice_tx d)" "within silent (insert_lot_tx l)"
  "within silent (update_lots_tx ctx g u)" "within silent (insert_hold_row_tx h)" "within silent (insert_case_tx c')"
  "within silent (insert_dispute_tx d')" "within silent (insert_audit_tx ctx a)" "within silent (insert_refund_tx f)"
  "within silent (insert_dispute_lots_tx ds lot)" "within silent (release_holds_update_tx rk rr actor rs time)"
  "within silent (close_dispute_tx did res units ver time)" "within silent (reverse_lot_tx rl n fa fe cp)"
  "within silent (write_tx (\<lambda>s. s\<lparr>platform_contracts := g' s\<rparr>))"
  "within silent (recompute_lot_holds_tx ctx ids)" "within silent (insert_scope_tx did' ids')"
  unfolding reverse_lot_tx_def
  by (rule withinI,
      auto simp: silent_def update_control_tx_def insert_policy_tx_def insert_cancellation_tx_def
        insert_or_ignore_quote_terms_tx_def insert_contract_terms_tx_def insert_commission_period_tx_def insert_split_tx_def
        insert_slice_tx_def insert_lot_tx_def update_lots_tx_def insert_hold_row_tx_def insert_case_tx_def
        insert_dispute_tx_def insert_audit_tx_def insert_refund_tx_def insert_dispute_lots_tx_def release_holds_update_tx_def
        close_dispute_tx_def recompute_lot_holds_tx_def insert_scope_tx_def tx_simps Let_def split: if_splits)+

lemmas silent_rules = silence.within_rules silent_wallet_tables silent_queue silent_market_tables

lemma silent_loops:
  "within silent (insert_earning_holds_tx ids k r time)"
  "within silent (hold_for_disputes_tx ds lot time)"
  "within silent (notify_held_tx xs k r time)"
  "within silent (notify_released_tx ps k r time)"
  "within silent (notify_policy_tx ps v rate eff at)"
proof -
  show holds: "within silent (insert_earning_holds_tx ids k r time)" for ids k r time
    by (induction ids) (simp_all, (intro silent_rules; assumption?)+)
  show "within silent (hold_for_disputes_tx ds lot time)"
    by (induction ds) (simp_all only: hold_for_disputes_tx.simps, (intro silent_rules holds; assumption?)+)
  show "within silent (notify_held_tx xs k r time)"
    by (induction xs) (auto intro!: silent_rules)
  show "within silent (notify_released_tx ps k r time)"
    by (induction ps) (auto intro!: silent_rules)
  show "within silent (notify_policy_tx ps v rate eff at)"
    by (induction ps) (auto intro!: silent_rules)
qed

lemma silent_reads:
  "within silent (check_reopen_tx T c)" "within silent (dispute_view_tx d)" "within silent (lot_evidence_valid_tx lot)"
  "within silent (existing_slice_tx sk sid b p amt)" "within silent (liability_balance_tx k x)"
  "within silent (commission_source_tx c per sk)"
  by (rule withinI,
      drule check_reopen_same dispute_view_same lot_evidence_same existing_slice_same liability_same commission_source_tx_same,
      simp add: silence.R_refl)+

lemma silent_ops:
  "within silent (set_policy_tx T e rate actor at)"
  "within silent (freeze_quote_tx T q p at)"
  "within silent (sign_contract_tx c q at)"
  "within silent (freeze_period_tx T c' k src first anchor at)"
  "within silent (hold_contract_earnings_tx c' k time)"
  "within silent (release_earning_holds_tx k r actor why time)"
  "within silent (hold_failed_unlock_tx T lot time)"
  "within silent (open_dispute_tx T c' buyer reason time)"
  unfolding set_policy_tx_def freeze_quote_tx_def sign_contract_tx_def freeze_contract_tx_def freeze_period_tx_def view_tx_def
    terms_at_tx_def legacy_backlog_tx_def hold_contract_earnings_tx_def release_earning_holds_tx_def hold_failed_unlock_tx_def
    open_dispute_tx_def hold_dispute_earnings_tx_def notify_providers_for_lots_tx_def held_recipients_tx_def Let_def
  by (intro silent_rules silent_loops silent_reads)+


section \<open>Operations that post\<close>

lemmas growth_intros = growth.within_rules
  silent_wallet_tables [THEN within_silent] silent_queue [THEN within_silent] silent_market_tables [THEN within_silent]
  silent_loops [THEN within_silent] silent_reads [THEN within_silent] silent_ops [THEN within_silent]

definition foreign :: "journal_row \<Rightarrow> bool" where
  "foreign j \<longleftrightarrow> j_source_kind j \<notin> set own_sources"

lemma wallet_ops_grown:
  "within (grown foreign) (credit_verified_topup_tx u oid amt rf now)"
  "within (grown foreign) (credit_manual_topup_tx u oid amt rf now)"
  "within (grown foreign) (reverse_topup_credit_tx u oid amt rf now)"
  "within (grown foreign) (release_hold_tx i now)"
  "(\<And>j. j_source_kind j = ak \<Longrightarrow> P j) \<Longrightarrow> within (grown P) (reserve_wallet_tx u ak sid pp amt ex now)"
  "(\<And>j. j_source_kind j = ak \<Longrightarrow> P j) \<Longrightarrow> within (grown P) (capture_hold_tx i amt tk tid ak aid now)"
  "(\<And>j. j_source_kind j = ak \<Longrightarrow> P j) \<Longrightarrow> within (grown P) (debit_available_tx u amt tk tid ak sid act now)"
  "(\<And>j. j_source_kind j = ak \<Longrightarrow> j_source_id j = sid \<Longrightarrow> j_action j = act \<Longrightarrow> P j) \<Longrightarrow>
     within (grown P) (credit_wallet_from_liability_tx u amt tk tid ak sid act now)"
  unfolding credit_verified_topup_tx_def credit_manual_topup_tx_def reverse_topup_credit_tx_def
    reserve_wallet_tx_def capture_hold_tx_def debit_available_tx_def
    credit_wallet_from_liability_tx_def release_hold_tx_def
    add_posted_tx_def sub_posted_tx_def add_held_tx_def
  by (intro growth_intros post_journal_grown; (auto simp: foreign_def own_sources_def)?)+

definition of_delivery :: "journal_row \<Rightarrow> bool" where
  "of_delivery j \<longleftrightarrow> j_source_kind j \<noteq> ''service_dispute'' \<and> \<not> (j_source_kind j = ''earning_lot'' \<and> j_action j = ''unlock'')"

lemma allocate_grown: "within (grown of_delivery) (allocate_delivery_tx lot c per sk gross p at)"
  unfolding allocate_delivery_tx_def allocate_in_period_tx_def Let_def
  by (intro growth_intros post_journal_grown) (auto simp: of_delivery_def)

lemma insert_slice_grown:
  "within (grown of_delivery) (insert_slice_and_lot_tx T ck c sk sid per b p st en amt dj ej deb now)"
  unfolding insert_slice_and_lot_tx_def finish_delivery_tx_def
  by (intro growth_intros allocate_grown)

lemma delivery_ops_grown:
  "within (grown of_delivery) (record_captured_metered_delivery_tx T ck c batch h buyer prov st en amt now)"
  "within (grown of_delivery) (record_monthly_delivery_tx T ck c per src buyer prov st en amt dj deb now)"
  "within (grown of_delivery) (record_share_quota_delivery_tx T e units at)"
  unfolding record_captured_metered_delivery_tx_def record_monthly_delivery_tx_def record_share_quota_delivery_tx_def
  by (intro growth_intros insert_slice_grown wallet_ops_grown post_journal_grown; (auto simp: of_delivery_def)?)+

lemma unlock_lot_grown:
  "within (grown (\<lambda>j. j_source_kind j = ''earning_lot'' \<and> j_source_id j = lot \<and> j_action j = ''unlock''))
     (unlock_lot_tx lot prov units mat at)"
  unfolding unlock_lot_tx_def by (intro growth_intros post_journal_grown; blast?)

lemma unlock_batch_grown: "within (grown (\<lambda>_. True)) (unlock_due_earnings_isolated T at limit)"
proof -
  have one: "within (grown (\<lambda>_. True)) (try_unlock_tx T l at)" for l
  proof (rule withinI)
    fix s n t
    assume op: "try_unlock_tx T l at s = Inr (n, t)"
    show "grown (\<lambda>_. True) s t"
    proof (cases "unlock_lot_tx (l_id l) (l_provider l) (pending_net l) (l_unlock_at l) at s")
      case (Inr z)
      then have "unlock_lot_tx (l_id l) (l_provider l) (pending_net l) (l_unlock_at l) at s = Inr (fst z, t)"
        using op by (auto simp: try_unlock_tx_def split: prod.splits)
      from withinD [OF unlock_lot_grown this] show ?thesis by (rule grown_mono) simp
    next
      case (Inl e)
      with op obtain x where "hold_failed_unlock_tx T (l_id l) at s = Inr (x, t)" by (auto simp: try_unlock_tx_def tx_simps)
      from withinD [OF silent_ops(7) this] show ?thesis by (rule silent_grown)
    qed
  qed
  have "within (grown (\<lambda>_. True)) (unlock_rows_tx T ls at_utc at)" for ls at_utc
    by (induction ls) (auto intro!: growth_intros one)
  then show ?thesis unfolding unlock_due_earnings_isolated_def by (intro growth_intros)
qed

definition refund_actions :: "string \<Rightarrow> string list" where
  "refund_actions lot = [''refund_pending:'' @ lot, ''refund_available:'' @ lot,
     ''refund_commission_pending:'' @ lot, ''refund_commission_revenue:'' @ lot]"

lemma refund_lot_grown:
  "within (grown (\<lambda>j. j_source_kind j = ''service_dispute'' \<and> j_source_id j = sd_id d \<and> j_action j \<in> set (refund_actions (rl_id l))))
     (refund_lot_tx d l taken time)"
  unfolding refund_lot_tx_def refund_part_tx_def refund_fee_tx_def Let_def
  by (intro growth_intros wallet_ops_grown; (simp add: refund_actions_def)?)

lemma resolve_dispute_grown: "within (grown (\<lambda>_. True)) (resolve_dispute_tx safe did owner ver res units time)"
proof -
  have one: "within (grown (\<lambda>_. True)) (refund_lot_tx d l taken time)" for d l taken
    by (rule withinI, drule withinD [OF refund_lot_grown], erule grown_mono) simp
  have "within (grown (\<lambda>_. True)) (refund_lots_tx d ls left time)" for d ls left
    by (induction ls arbitrary: left) (auto simp: Let_def intro!: growth_intros one)
  then show ?thesis unfolding resolve_dispute_tx_def Let_def by (intro growth_intros)
qed

lemma wallet_step_grown: "spares c \<Longrightarrow> grown foreign s (wallet_step c s)"
proof (cases c)
  case (OrdersChanged orders actions)
  then show ?thesis by (simp add: silent_grown silent_def)
qed (auto intro!: growth.commit_within wallet_ops_grown post_journal_grown simp: growth.R_refl foreign_def)

lemma earn_step_grown: "grown (\<lambda>_. True) s (earn_step T safe c s)"
proof (cases c)
  case (WalletOp w)
  then show ?thesis
    using wallet_step_grown [of w s] grown_mono [of foreign s "wallet_step w s" "\<lambda>_. True"] by (simp add: growth.R_refl)
next
  case (UpdateContract i st h)
  then show ?thesis by (simp add: silent_grown silent_def)
next
  case (PeriodsChanged ps)
  then show ?thesis by (simp add: silent_grown silent_def)
qed (auto simp: when_tx_def growth.R_refl
      intro!: growth.commit_within growth_intros unlock_batch_grown resolve_dispute_grown
        grown_mono [OF growth.commit_within [OF delivery_ops_grown(1)]]
        grown_mono [OF growth.commit_within [OF delivery_ops_grown(2)]]
        grown_mono [OF growth.commit_within [OF delivery_ops_grown(3)]])

end
