(* ===== verification/Earning_Evidence.thy ===== *)
theory Earning_Evidence
  imports Ledger_Growth
begin

text \<open>
  The evidence behind every earning lot. The audit of \<open>src/src/market_commission.rs\<close>
  (\<open>lot_evidence_valid_tx\<close>) recomputes a lot from its slice, split, period, policy,
  journals and refunds before money moves. Here: no reachable lot ever fails it.
\<close>


section \<open>Terms and identifiers\<close>

definition fresh_ids :: "'a wallet_db_scheme \<Rightarrow> bool" where
  "fresh_ids s \<longleftrightarrow> j_id ` set (journals s) \<union> pr_id ` set (postings s) \<subseteq> uuid_supply s ` {..<uuid_drawn s}"

lemma grown_fresh:
  assumes "grown P s t" "fresh_ids s"
  shows "fresh_ids t"
proof -
  from assms(1) obtain js rows where t: "journals t = journals s @ js" "postings t = postings s @ rows"
    and n: "j_id ` set js \<subseteq> drawn_ids s t" "pr_id ` set rows \<subseteq> drawn_ids s t"
    and u: "uuid_supply t = uuid_supply s" "uuid_drawn s \<le> uuid_drawn t"
    unfolding grown_def by blast
  have d: "drawn_ids s t \<subseteq> uuid_supply s ` {..<uuid_drawn t}" by (auto simp: drawn_ids_def)
  have "uuid_supply s ` {..<uuid_drawn s} \<subseteq> uuid_supply s ` {..<uuid_drawn t}"
    using u(2) by (intro image_mono) simp
  with assms(2) d n show ?thesis
    unfolding fresh_ids_def t u(1) set_append image_Un by (simp add: subset_iff)
qed

definition backed :: "'a market_db_scheme \<Rightarrow> int \<Rightarrow> int \<Rightarrow> bool" where
  "backed s version rate \<longleftrightarrow>
     (version = 0 \<and> rate = 0) \<or> (\<exists>p \<in> set (commission_policies s). cp_version p = version \<and> cp_rate_bps p = rate)"

definition terms_ok :: "'a market_db_scheme \<Rightarrow> bool" where
  "terms_ok s \<longleftrightarrow>
     kt_contract ` set (contract_terms s) = pc_id ` set (platform_contracts s)
     \<and> (\<forall>q \<in> set (quote_terms s). backed s (qt_policy_version q) (qt_rate_bps q))
     \<and> (\<forall>k \<in> set (contract_terms s). backed s (kt_policy_version k) (kt_rate_bps k))
     \<and> (\<forall>p \<in> set (commission_periods s). backed s (pe_policy_version p) (pe_rate_bps p))"

lemma terms_ok_kept: "kept s t \<Longrightarrow> terms_ok s \<Longrightarrow> terms_ok t"
proof -
  assume k: "kept s t" and ok: "terms_ok s"
  have "pc_id ` set (platform_contracts t) = pc_id ` set (platform_contracts s)"
    using k by (metis kept_def list.set_map)
  with k ok show ?thesis by (simp add: kept_def terms_ok_def backed_def)
qed


section \<open>The evidence of a lot\<close>

definition split_origin ::
  "'a market_db_scheme \<Rightarrow> lot_row \<Rightarrow> slice_row \<Rightarrow> split_row \<Rightarrow> commission_period_row \<Rightarrow> bool"
where
  "split_origin s l d x p \<longleftrightarrow>
     sp_lot x = l_id l \<and> pe_id p = sp_period x \<and> pe_contract p = ds_contract d
     \<and> (pe_source_kind p \<noteq> ''monthly_period'' \<or> ds_period d = Some (pe_source_id p))
     \<and> ds_earning_journal d \<in> j_id ` set (journals s)
     \<and> journal_acct (ds_earning_journal d) ''provider_pending'' (l_provider l) s = [- l_amount l]
     \<and> allocation_booked l x s"

definition lot_origin :: "'a market_db_scheme \<Rightarrow> lot_row \<Rightarrow> bool" where
  "lot_origin s l \<longleftrightarrow>
     in_i64 (l_amount l) \<and> l_provider l \<noteq> [] \<and> l_id l \<in> range (uuid_supply s)
     \<and> (\<exists>d \<in> set (slices s). ds_id d = l_slice l \<and> ds_amount d = l_amount l
          \<and> (if l_id l \<notin> sp_lot ` set (commission_splits s)
             then l_commission l = 0 \<and> \<not> protected_contract (ds_contract d) s
             else \<exists>x \<in> set (commission_splits s). \<exists>p \<in> set (commission_periods s). split_origin s l d x p))"

definition lot_refunds_ok :: "'a market_db_scheme \<Rightarrow> lot_row \<Rightarrow> bool" where
  "lot_refunds_ok s l \<longleftrightarrow>
     sum_is (map rf_net (lot_refunds (l_id l) s)) (l_reversed l)
     \<and> sum_is (map rf_fee (lot_refunds (l_id l) s)) (l_commission_reversed l)
     \<and> refund_share_ok l \<and> (\<forall>f \<in> set (lot_refunds (l_id l) s). refund_booked l f s)"

definition unlocked_once :: "'a wallet_db_scheme \<Rightarrow> lot_row \<Rightarrow> bool" where
  "unlocked_once s l \<longleftrightarrow>
     ((''earning_lot'', l_id l, ''unlock'') \<in> journal_key ` set (journals s) \<longrightarrow> pending_net l = 0 \<and> pending_fee l = 0)"

definition lot_audited :: "'a market_db_scheme \<Rightarrow> lot_row \<Rightarrow> bool" where
  "lot_audited s l \<longleftrightarrow> lot_origin s l \<and> lot_refunds_ok s l \<and> liability_booked l s \<and> unlocked_once s l"

text \<open>No evidence refers to a lot that does not exist, or to a refund that was not recorded.\<close>

definition evidence_scope :: "'a market_db_scheme \<Rightarrow> bool" where
  "evidence_scope s \<longleftrightarrow>
     rf_lot ` set (commission_refunds s) \<subseteq> l_id ` set (lots s)
     \<and> (\<forall>j \<in> set (journals s). j_source_kind j = ''earning_lot'' \<longrightarrow> j_source_id j \<in> l_id ` set (lots s))
     \<and> (\<forall>j \<in> set (journals s). j_source_kind j = ''service_dispute'' \<longrightarrow>
          (\<exists>f \<in> set (commission_refunds s). rf_dispute f = j_source_id j \<and> j_action j \<in> set (refund_actions (rf_lot f))))
     \<and> (\<forall>x. x \<notin> l_id ` set (lots s) \<longrightarrow>
          acct_rows ''platform_commission_pending'' x s = [] \<and> acct_rows ''platform_commission_revenue'' x s = [])"


section \<open>What stays of the evidence\<close>

lemma grown_journals: "grown P s t \<Longrightarrow> set (journals s) \<subseteq> set (journals t)"
  by (auto simp: grown_def)

lemma grown_new: "grown P s t \<Longrightarrow> j \<in> set (journals t) \<Longrightarrow> j \<in> set (journals s) \<or> P j"
  by (auto simp: grown_def)

lemma grown_journal_acct:
  assumes "grown P s t" "i \<in> j_id ` set (journals s)"
  shows "journal_acct i k x t = journal_acct i k x s"
  using assms(1)
proof (cases rule: grownE)
  case (1 js rows sl)
  have "pr_journal r \<noteq> i" if "r \<in> set rows" for r using 1(6) [OF that] 1(5) assms(2) by (metis imageE)
  then have "filter (\<lambda>p. pr_journal p = i \<and> pr_kind p = k \<and> pr_subject p = x) rows = []" by (auto simp: filter_empty_conv)
  then show ?thesis by (simp add: journal_acct_def 1(2))
qed

lemma allocation_booked_grown:
  assumes "grown P s t" "allocation_booked l x s"
  shows "allocation_booked l x t"
proof (cases "l_commission l = 0 \<and> sp_journal x = None")
  case True
  then show ?thesis by (simp add: allocation_booked_def)
next
  case False
  with assms(2) obtain j seal where j: "j \<in> set (journals s)" "seal \<in> set (seals s)" and e: "s_journal seal = j_id j" "sp_journal x = Some (j_id j)"
    "j_source_kind j = ''earning_lot''" "j_source_id j = l_id l" "j_action j = ''commission''" "s_count seal = 2"
    "sum_is (journal_acct (j_id j) ''provider_pending'' (l_provider l) s) (l_commission l)"
    "sum_is (journal_acct (j_id j) ''platform_commission_pending'' (l_id l) s) (- l_commission l)"
    unfolding allocation_booked_def by blast
  have "j \<in> set (journals t)" "seal \<in> set (seals t)" using assms(1) j by (auto simp: grown_def)
  moreover have "j_id j \<in> j_id ` set (journals s)" using j(1) by simp
  ultimately show ?thesis
    using e unfolding allocation_booked_def grown_journal_acct [OF assms(1) \<open>j_id j \<in> j_id ` set (journals s)\<close>, symmetric] by blast
qed

lemma refund_postings_grown:
  assumes g: "grown P s t" and q: "\<And>j. P j \<Longrightarrow> \<not> (j_source_kind j = ''service_dispute'' \<and> j_source_id j = d \<and> j_action j \<in> set acts)"
  shows "refund_postings d acts ks x t = refund_postings d acts ks x s"
  using g
proof (cases rule: grownE)
  case (1 js rows sl)
  let ?f = "\<lambda>j. j_source_kind j = ''service_dispute'' \<and> j_source_id j = d \<and> j_action j \<in> set acts"
  have none: "filter ?f js = []" using 1(4) q by (auto simp: filter_empty_conv)
  have "filter (\<lambda>p. pr_journal p = j_id j \<and> pr_kind p \<in> set ks \<and> pr_subject p = x) (postings t)
      = filter (\<lambda>p. pr_journal p = j_id j \<and> pr_kind p \<in> set ks \<and> pr_subject p = x) (postings s)"
    if "j \<in> set (filter ?f (journals s))" for j
  proof -
    from that have "j \<in> set (journals s)" by simp
    then have "pr_journal p \<noteq> j_id j" if "p \<in> set rows" for p
      using 1(6) [OF that] 1(5) by (metis imageE imageI)
    then show ?thesis by (auto simp: 1(2) filter_empty_conv)
  qed
  then show ?thesis
    unfolding refund_postings_def 1(1) filter_append none append_Nil2
    by (intro arg_cong [where f = concat] map_cong refl arg_cong [where f = "map pr_units"])
qed

lemma lot_origin_stays:
  assumes "lot_origin s l" "grown P s t" "set (slices s) \<subseteq> set (slices t)" "set (commission_periods s) \<subseteq> set (commission_periods t)"
    "commission_splits t = commission_splits s @ xs" "l_id l \<notin> sp_lot ` set xs"
    "\<And>d. d \<in> set (slices s) \<Longrightarrow> ds_id d = l_slice l \<Longrightarrow> protected_contract (ds_contract d) t = protected_contract (ds_contract d) s"
  shows "lot_origin t l"
proof -
  from assms(1) obtain d where d: "d \<in> set (slices s)" "ds_id d = l_slice l" "ds_amount d = l_amount l"
    and e: "if l_id l \<notin> sp_lot ` set (commission_splits s)
       then l_commission l = 0 \<and> \<not> protected_contract (ds_contract d) s
       else \<exists>x \<in> set (commission_splits s). \<exists>p \<in> set (commission_periods s). split_origin s l d x p"
    and base: "in_i64 (l_amount l)" "l_provider l \<noteq> []" "l_id l \<in> range (uuid_supply s)"
    unfolding lot_origin_def by blast
  have sp: "split_origin t l d x p" if "split_origin s l d x p" for x p
  proof -
    from that have j: "ds_earning_journal d \<in> j_id ` set (journals s)" by (simp add: split_origin_def)
    with grown_journals [OF assms(2)] have "ds_earning_journal d \<in> j_id ` set (journals t)" by (metis image_mono subsetD)
    with that show ?thesis
      by (simp add: split_origin_def grown_journal_acct [OF assms(2) j] allocation_booked_grown [OF assms(2)])
  qed
  have iff: "l_id l \<in> sp_lot ` set (commission_splits t) \<longleftrightarrow> l_id l \<in> sp_lot ` set (commission_splits s)"
    using assms(5,6) by auto
  have "if l_id l \<notin> sp_lot ` set (commission_splits t)
       then l_commission l = 0 \<and> \<not> protected_contract (ds_contract d) t
       else \<exists>x \<in> set (commission_splits t). \<exists>p \<in> set (commission_periods t). split_origin t l d x p"
  proof (cases "l_id l \<in> sp_lot ` set (commission_splits s)")
    case True
    with e obtain x p where "x \<in> set (commission_splits s)" "p \<in> set (commission_periods s)" "split_origin s l d x p" by auto
    with sp have "\<exists>x \<in> set (commission_splits t). \<exists>p \<in> set (commission_periods t). split_origin t l d x p"
      using assms(4,5) by (intro bexI [of _ x] bexI [of _ p]) auto
    with True iff show ?thesis by simp
  next
    case False
    with e iff assms(7) [OF d(1,2)] show ?thesis by simp
  qed
  moreover have "uuid_supply t = uuid_supply s" using assms(2) by (simp add: grown_def)
  ultimately show ?thesis
    using base d assms(3) unfolding lot_origin_def by (intro conjI bexI [of _ d]) auto
qed

lemma refund_actions_inj: "a \<in> set (refund_actions x) \<Longrightarrow> a \<in> set (refund_actions y) \<Longrightarrow> x = y"
  by (auto simp: refund_actions_def)

lemma refund_booked_grown:
  assumes "grown P s t" "refund_booked l f s"
    "\<And>j. P j \<Longrightarrow> \<not> (j_source_kind j = ''service_dispute'' \<and> j_source_id j = rf_dispute f \<and> j_action j \<in> set (refund_actions (l_id l)))"
  shows "refund_booked l f t"
proof -
  have "refund_postings (rf_dispute f) acts ks x t = refund_postings (rf_dispute f) acts ks x s"
    if "set acts \<subseteq> set (refund_actions (l_id l))" for acts ks x
    by (rule refund_postings_grown [OF assms(1)]) (use that assms(3) in blast)
  then show ?thesis using assms(2) by (simp add: refund_booked_def Let_def refund_actions_def)
qed

lemma lot_refunds_stay:
  assumes "lot_refunds_ok s l" "grown P s t" "lot_refunds (l_id l) t = lot_refunds (l_id l) s"
    "\<And>j f. P j \<Longrightarrow> f \<in> set (lot_refunds (l_id l) s) \<Longrightarrow>
      \<not> (j_source_kind j = ''service_dispute'' \<and> j_source_id j = rf_dispute f \<and> j_action j \<in> set (refund_actions (l_id l)))"
  shows "lot_refunds_ok t l"
  using assms(1) refund_booked_grown [OF assms(2)] assms(4) unfolding lot_refunds_ok_def assms(3) by blast

lemma unlocked_once_stays:
  assumes "unlocked_once s l" "grown P s t" "\<And>j. P j \<Longrightarrow> journal_key j \<noteq> (''earning_lot'', l_id l, ''unlock'')"
  shows "unlocked_once t l"
proof -
  have "(''earning_lot'', l_id l, ''unlock'') \<in> journal_key ` set (journals s)"
    if u: "(''earning_lot'', l_id l, ''unlock'') \<in> journal_key ` set (journals t)"
  proof -
    from u obtain j where "j \<in> set (journals t)" "journal_key j = (''earning_lot'', l_id l, ''unlock'')" by force
    with grown_new [OF assms(2), of j] assms(3) [of j] show ?thesis by (metis imageI)
  qed
  with assms(1) show ?thesis by (auto simp: unlocked_once_def)
qed

text \<open>A lot apart from its freeze.\<close>

definition lot_money :: "lot_row \<Rightarrow> lot_row" where
  "lot_money l = l\<lparr>l_disputed := False\<rparr>"

lemma lot_audited_money:
  assumes "lot_money m = lot_money l" "lot_audited s l"
  shows "lot_audited s m"
proof -
  have "m = l\<lparr>l_disputed := l_disputed m\<rparr>" using assms(1) by (cases m; cases l) (simp add: lot_money_def)
  then obtain b where m: "m = l\<lparr>l_disputed := b\<rparr>" by blast
  have "allocation_booked m x s = allocation_booked l x s" "refund_booked m f s = refund_booked l f s" for x f
    by (simp_all add: m allocation_booked_def refund_booked_def)
  then have "lot_origin s m = lot_origin s l" "lot_refunds_ok s m = lot_refunds_ok s l"
    by (simp_all add: lot_origin_def split_origin_def lot_refunds_ok_def refund_share_ok_def m)
  with assms(2) show ?thesis
    by (simp add: lot_audited_def liability_booked_def unlocked_once_def pending_net_def pending_fee_def l_net_def m)
qed

text \<open>An operation that leaves the evidence alone.\<close>

definition neutral :: "'a market_db_scheme \<Rightarrow> 'a market_db_scheme \<Rightarrow> bool" where
  "neutral s t \<longleftrightarrow>
     grown foreign s t \<and> kept s t \<and> map lot_money (lots t) = map lot_money (lots s)
     \<and> commission_refunds t = commission_refunds s
     \<and> (\<forall>x. acct_rows ''platform_commission_pending'' x t = acct_rows ''platform_commission_pending'' x s
          \<and> acct_rows ''platform_commission_revenue'' x t = acct_rows ''platform_commission_revenue'' x s)"

lemma protected_cong: "contract_terms t = contract_terms s \<Longrightarrow> protected_contract c t = protected_contract c s"
  by (simp add: protected_contract_def)

lemma foreign_key: "foreign j \<Longrightarrow> journal_key j \<noteq> (''earning_lot'', i, a)" "foreign j \<Longrightarrow> j_source_kind j \<noteq> ''service_dispute''"
  "foreign j \<Longrightarrow> j_source_kind j \<noteq> ''earning_lot''"
  by (auto simp: foreign_def own_sources_def journal_key_def)

lemma neutral_audited:
  assumes n: "neutral s t" and a: "lot_audited s l"
  shows "lot_audited t l"
proof -
  have g: "grown foreign s t" and k: "slices t = slices s" "commission_periods t = commission_periods s"
    "commission_splits t = commission_splits s" "contract_terms t = contract_terms s"
    using n by (simp_all add: neutral_def kept_def)
  have o: "lot_origin s l" "lot_refunds_ok s l" "unlocked_once s l" using a by (simp_all add: lot_audited_def)
  have "lot_origin t l"
    by (rule lot_origin_stays [OF o(1) g, where xs = "[]"]) (simp_all add: k protected_cong [OF k(4)])
  moreover have "lot_refunds_ok t l"
  proof (rule lot_refunds_stay [OF o(2) g])
    show "lot_refunds (l_id l) t = lot_refunds (l_id l) s" using n by (simp add: lot_refunds_def neutral_def)
  qed (use foreign_key(2) in blast)
  moreover have "unlocked_once t l"
    by (rule unlocked_once_stays [OF o(3) g]) (erule foreign_key(1))
  moreover have "liability_booked l t" using a n by (simp add: lot_audited_def liability_booked_def neutral_def)
  ultimately show ?thesis by (simp add: lot_audited_def)
qed

lemma money_ids: "map lot_money xs = map lot_money ys \<Longrightarrow> l_id ` set xs = l_id ` set ys"
proof -
  assume "map lot_money xs = map lot_money ys"
  then have "map (l_id \<circ> lot_money) xs = map (l_id \<circ> lot_money) ys" by (metis map_map)
  then have "map l_id xs = map l_id ys" by (simp add: lot_money_def comp_def)
  then show ?thesis by (metis list.set_map)
qed

lemma neutral_evidence:
  assumes n: "neutral s t" and "evidence_scope s" "\<forall>l \<in> set (lots s). lot_audited s l"
  shows "evidence_scope t \<and> (\<forall>l \<in> set (lots t). lot_audited t l)"
proof -
  have g: "grown foreign s t" and m: "map lot_money (lots t) = map lot_money (lots s)" using n by (simp_all add: neutral_def)
  have ids: "l_id ` set (lots t) = l_id ` set (lots s)" by (rule money_ids [OF m])
  have "evidence_scope t"
    using assms(2) n grown_new [OF g] foreign_key(2,3) unfolding evidence_scope_def ids neutral_def by metis
  moreover have "lot_audited t l" if l: "l \<in> set (lots t)" for l
  proof -
    from l have "lot_money l \<in> lot_money ` set (lots s)" using m by (metis imageI list.set_map)
    then obtain k where "k \<in> set (lots s)" "lot_money l = lot_money k" by auto
    with assms(3) lot_audited_money neutral_audited [OF n] show ?thesis by blast
  qed
  ultimately show ?thesis by blast
qed

section \<open>Policies and frozen terms\<close>

text \<open>An operation that adds terms: lots, their evidence and the journal stay as they are.\<close>

definition recorded :: "'a market_db_scheme \<Rightarrow> 'a market_db_scheme \<Rightarrow> bool" where
  "recorded s t \<longleftrightarrow>
     silent s t \<and> lots t = lots s \<and> slices t = slices s \<and> commission_splits t = commission_splits s
     \<and> commission_refunds t = commission_refunds s
     \<and> set (commission_periods s) \<subseteq> set (commission_periods t)
     \<and> (\<forall>c \<in> pc_id ` set (platform_contracts s). protected_contract c t = protected_contract c s)"

lemma recorded_evidence:
  assumes r: "recorded s t" and "parties_ok s" "refs_ok s" "evidence_scope s" "\<forall>l \<in> set (lots s). lot_audited s l"
  shows "evidence_scope t \<and> (\<forall>l \<in> set (lots t). lot_audited t l)"
proof -
  have same: "journals t = journals s" "postings t = postings s" "lots t = lots s" "slices t = slices s"
    "commission_splits t = commission_splits s" "commission_refunds t = commission_refunds s"
    "set (commission_periods s) \<subseteq> set (commission_periods t)"
    using r by (simp_all add: recorded_def silent_def)
  have g: "grown (\<lambda>_. False) s t" using r by (simp add: recorded_def silent_grown)
  have rows: "acct_rows k x t = acct_rows k x s" for k x by (rule acct_rows_cong [OF same(2)])
  have "lot_audited t l" if l: "l \<in> set (lots s)" for l
  proof -
    have a: "lot_origin s l" "lot_refunds_ok s l" "unlocked_once s l" "liability_booked l s"
      using assms(5) l by (simp_all add: lot_audited_def)
    have prot: "protected_contract (ds_contract d) t = protected_contract (ds_contract d) s"
      if "d \<in> set (slices s)" "ds_id d = l_slice l" for d
      using assms(2) l that r unfolding parties_ok_def recorded_def by (metis imageI)
    have "lot_origin t l"
      by (rule lot_origin_stays [OF a(1) g, where xs = "[]"]) (use same prot in simp_all)
    moreover have "lot_refunds_ok t l"
      by (rule lot_refunds_stay [OF a(2) g]) (simp_all add: lot_refunds_def same)
    moreover have "unlocked_once t l" by (rule unlocked_once_stays [OF a(3) g]) simp
    ultimately show ?thesis using a(4) by (simp add: lot_audited_def liability_booked_def rows)
  qed
  then show ?thesis using assms(4) by (simp add: evidence_scope_def same rows)
qed

text \<open>Changing the policy only adds to its history.\<close>

definition repriced :: "'a market_db_scheme \<Rightarrow> 'a market_db_scheme \<Rightarrow> bool" where
  "repriced s t \<longleftrightarrow>
     silent s t \<and> lots t = lots s \<and> slices t = slices s \<and> commission_splits t = commission_splits s
     \<and> commission_refunds t = commission_refunds s \<and> commission_periods t = commission_periods s
     \<and> platform_contracts t = platform_contracts s \<and> contract_terms t = contract_terms s \<and> quote_terms t = quote_terms s
     \<and> set (commission_policies s) \<subseteq> set (commission_policies t)"

interpretation reprice: tx_preorder repriced
  by unfold_locales (auto simp: repriced_def silent_def)

lemma repriced_queued:
  assumes "within queued_only m" "within silent m"
  shows "within repriced m"
  by (rule withinI, frule withinD [OF assms(1)], drule withinD [OF assms(2)]) (auto simp: repriced_def elim!: queued_onlyE)

lemma set_policy_repriced: "within repriced (set_policy_tx T e rate actor at)"
proof -
  have tables: "within repriced (update_control_tx e v)" "within repriced (insert_policy_tx p)" "within repriced (insert_cancellation_tx c)"
    for v p c
    by (rule withinI, auto simp: repriced_def silent_def update_control_tx_def insert_policy_tx_def insert_cancellation_tx_def split: if_splits)+
  show ?thesis
    unfolding set_policy_tx_def view_tx_def terms_at_tx_def Let_def
    by (intro reprice.within_rules tables repriced_queued owner_signal_queued notify_policy_queued silent_queue silent_loops)
qed

lemma repriced_ok: "repriced s t \<Longrightarrow> recorded s t" "repriced s t \<Longrightarrow> terms_ok s \<Longrightarrow> terms_ok t"
proof -
  assume r: "repriced s t"
  then show "recorded s t" by (simp add: repriced_def recorded_def protected_contract_def)
  have "backed s v x \<Longrightarrow> backed t v x" for v x using r by (auto simp: backed_def repriced_def)
  then show "terms_ok s \<Longrightarrow> terms_ok t" using r by (simp add: terms_ok_def repriced_def)
qed

lemma terms_ok_more:
  assumes "terms_ok s" "set (commission_policies s) \<subseteq> set (commission_policies t)"
    "kt_contract ` set (contract_terms t) = pc_id ` set (platform_contracts t)"
    "\<And>q. q \<in> set (quote_terms t) \<Longrightarrow> q \<in> set (quote_terms s) \<or> backed s (qt_policy_version q) (qt_rate_bps q)"
    "\<And>k. k \<in> set (contract_terms t) \<Longrightarrow> k \<in> set (contract_terms s) \<or> backed s (kt_policy_version k) (kt_rate_bps k)"
    "\<And>p. p \<in> set (commission_periods t) \<Longrightarrow> p \<in> set (commission_periods s) \<or> backed s (pe_policy_version p) (pe_rate_bps p)"
  shows "terms_ok t"
proof -
  have b: "backed s v x \<Longrightarrow> backed t v x" for v x using assms(2) by (auto simp: backed_def)
  have old: "q \<in> set (quote_terms s) \<Longrightarrow> backed s (qt_policy_version q) (qt_rate_bps q)"
    "k \<in> set (contract_terms s) \<Longrightarrow> backed s (kt_policy_version k) (kt_rate_bps k)"
    "p \<in> set (commission_periods s) \<Longrightarrow> backed s (pe_policy_version p) (pe_rate_bps p)" for q k p
    using assms(1) by (simp_all add: terms_ok_def)
  show ?thesis
    unfolding terms_ok_def
    by (intro conjI ballI assms(3) b; (drule assms(4) | drule assms(5) | drule assms(6)); elim disjE; (erule old)?; assumption?)
qed

lemma terms_at_backed: "terms_at_tx T at s = Inr (x, u) \<Longrightarrow> u = s \<and> backed s (tm_policy_version x) (tm_rate_bps x)"
  by (auto simp: terms_at_tx_def tx_simps backed_def terms_of_def split: option.splits dest!: first_by_mem)

lemma freeze_quote_ok:
  assumes "freeze_quote_tx T q p at s = Inr (x, t)"
  shows "recorded s t" "terms_ok s \<Longrightarrow> terms_ok t"
proof -
  from assms obtain y u where "terms_at_tx T at s = Inr (y, u)" and
    i: "insert_or_ignore_quote_terms_tx \<lparr>qt_quote = q, qt_provider = p, qt_policy_version = tm_policy_version y,
       qt_rate_bps = tm_rate_bps y, qt_created_at = at\<rparr> u = Inr (x, t)"
    by (auto simp: freeze_quote_tx_def tx_simps)
  with terms_at_backed have u: "u = s" and b: "backed s (tm_policy_version y) (tm_rate_bps y)" by blast+
  define row where "row = \<lparr>qt_quote = q, qt_provider = p, qt_policy_version = tm_policy_version y,
       qt_rate_bps = tm_rate_bps y, qt_created_at = at\<rparr>"
  from i have t: "t = s \<or> t = s\<lparr>quote_terms := quote_terms s @ [row]\<rparr>"
    unfolding u row_def insert_or_ignore_quote_terms_tx_def by (simp split: if_splits)
  then show "recorded s t" by (auto simp: recorded_def silent_def protected_contract_def)
  show "terms_ok t" if ok: "terms_ok s"
    using t
  proof
    assume t: "t = s\<lparr>quote_terms := quote_terms s @ [row]\<rparr>"
    show ?thesis by (rule terms_ok_more [OF ok]) (use ok b in \<open>auto simp: t terms_ok_def row_def\<close>)
  qed (use ok in simp)
qed

lemma sign_contract_ok:
  assumes op: "sign_contract_tx c q at s = Inr (x, t)" and ok: "terms_ok s"
  shows "recorded s t" "terms_ok t"
proof -
  from op ok obtain k where t: "t = s\<lparr>platform_contracts := platform_contracts s @ [c], contract_terms := contract_terms s @ [k]\<rparr>"
    and k: "kt_contract k = pc_id c" "pc_id c \<notin> pc_id ` set (platform_contracts s)" "backed s (kt_policy_version k) (kt_rate_bps k)"
    by (auto simp: sign_contract_tx_def freeze_contract_tx_def tx_simps insert_contract_terms_tx_def terms_ok_def backed_def [of _ 0 0]
        find_Some_iff split: if_splits option.splits)
  show "recorded s t" using k(1,2) by (auto simp: t recorded_def silent_def protected_contract_def)
  show "terms_ok t" by (rule terms_ok_more [OF ok]) (use ok k(1,3) in \<open>auto simp: t terms_ok_def\<close>)
qed

lemma freeze_period_ok:
  fixes s :: "'a market_db_scheme"
  assumes op: "freeze_period_tx T c k src first anchor at s = Inr (x, t)" and ok: "terms_ok s"
  shows "recorded s t" "terms_ok t"
proof -
  define m :: "('a market_db_scheme, int \<times> int) tx" where "m = (if first
       then gets_tx (\<lambda>s. case find (\<lambda>k. kt_contract k = c) (contract_terms s) of
           None \<Rightarrow> (0, 0) | Some k \<Rightarrow> (kt_policy_version k, kt_rate_bps k))
       else bind_tx (legacy_backlog_tx T c anchor) (\<lambda>backlog.
         if backlog then return_tx (0, 0)
         else bind_tx (terms_at_tx T anchor) (\<lambda>t. return_tx (tm_policy_version t, tm_rate_bps t))))"
  from op obtain v rate u where m: "m s = Inr ((v, rate), u)"
    and i: "insert_commission_period_tx \<lparr>pe_id = uuid_supply u (uuid_drawn u), pe_contract = c, pe_source_kind = k, pe_source_id = src,
       pe_policy_version = v, pe_rate_bps = rate, pe_anchor_at = anchor, pe_created_at = at\<rparr> (u\<lparr>uuid_drawn := Suc (uuid_drawn u)\<rparr>) = Inr (x, t)"
    unfolding m_def by (auto simp: freeze_period_tx_def bind_tx_Inr new_v4_Inr)
  have "u = s \<and> backed s v rate"
    using m ok unfolding m_def
    by (auto simp: tx_simps legacy_backlog_tx_def terms_ok_def backed_def [of _ 0 0] find_Some_iff
        split: if_splits option.splits dest!: terms_at_backed)
  with i obtain p where t: "t = s\<lparr>uuid_drawn := Suc (uuid_drawn s), commission_periods := commission_periods s @ [p]\<rparr>"
    and p: "backed s (pe_policy_version p) (pe_rate_bps p)"
    by (auto simp: insert_commission_period_tx_def split: if_splits)
  show "recorded s t" by (auto simp: t recorded_def silent_def protected_contract_def)
  show "terms_ok t" by (rule terms_ok_more [OF ok]) (use ok p in \<open>auto simp: t terms_ok_def\<close>)
qed

section \<open>Unlocking a lot\<close>

lemma sum_is_Nil [simp]: "sum_is [] v \<longleftrightarrow> v = 0"
  by (auto simp: sum_is_def sql_sum_def)

lemma sql_sum_from_append:
  "sql_sum_from a (xs @ ys) = (case sql_sum_from a xs of None \<Rightarrow> None | Some b \<Rightarrow> sql_sum_from b ys)"
  by (induction xs arbitrary: a) (auto split: option.splits)

lemma sum_is_snoc: "sum_is xs v \<Longrightarrow> in_i64 (v + y) \<Longrightarrow> sum_is (xs @ [y]) (v + y)"
  by (simp add: sum_is_def sql_sum_def sql_sum_from_append checked_add64_def checked_i64_def)

lemma sum_is_more: "sum_is xs v \<Longrightarrow> in_i64 (v + y) \<Longrightarrow> sum_is (xs @ (if y = 0 then [] else [y])) (v + y)"
  by (simp add: sum_is_snoc)

lemma lot_origin_ident:
  assumes "lot_ident m = lot_ident l" "lot_origin s l"
  shows "lot_origin s m"
proof -
  have e: "l_id m = l_id l" "l_slice m = l_slice l" "l_provider m = l_provider l" "l_amount m = l_amount l" "l_commission m = l_commission l"
    using assms(1) by (simp_all add: lot_ident_def)
  have "allocation_booked m x s = allocation_booked l x s" for x by (simp add: allocation_booked_def e)
  then have "split_origin s m d x p = split_origin s l d x p" for d x p by (simp add: split_origin_def e)
  then have "lot_origin s m = lot_origin s l" unfolding lot_origin_def e by simp
  with assms(2) show ?thesis by simp
qed

text \<open>One lot is replaced: what must be shown of the new row and of the others.\<close>

lemma put_lot_audited:
  assumes d: "distinct (map l_id (lots s))" and l: "l \<in> set (lots s)" "lot_ident l' = lot_ident l"
    and t: "lots t = put_lot l' (lots s)" and all: "\<forall>m \<in> set (lots s). lot_audited s m"
    and g: "grown P s t" and k: "kept s t"
    and other: "\<And>m. m \<in> set (lots s) \<Longrightarrow> l_id m \<noteq> l_id l \<Longrightarrow> lot_refunds_ok t m \<and> liability_booked m t \<and> unlocked_once t m"
    and new: "lot_refunds_ok t l'" "liability_booked l' t" "unlocked_once t l'"
  shows "\<forall>m \<in> set (lots t). lot_audited t m"
proof
  fix m
  assume m: "m \<in> set (lots t)"
  have id: "l_id l' = l_id l" using l(2) by (simp add: lot_ident_def)
  have origin: "lot_origin t k" if "k \<in> set (lots s)" for k
    by (rule lot_origin_stays [OF _ g, where xs = "[]"])
      (use all that \<open>kept s t\<close> in \<open>auto simp: lot_audited_def kept_def protected_contract_def\<close>)
  from m have "m = l' \<or> (m \<in> set (lots s) \<and> l_id m \<noteq> l_id l')" unfolding t set_put_lot [OF l(1) id] .
  then show "lot_audited t m"
  proof
    assume "m = l'"
    then show ?thesis using new lot_origin_ident [OF l(2) origin [OF l(1)]] by (simp add: lot_audited_def)
  next
    assume "m \<in> set (lots s) \<and> l_id m \<noteq> l_id l'"
    then show ?thesis using other [of m] origin [of m] id by (simp add: lot_audited_def)
  qed
qed

lemma liability_same_rows:
  "acct_rows ''platform_commission_pending'' (l_id m) t = acct_rows ''platform_commission_pending'' (l_id m) s \<Longrightarrow>
   acct_rows ''platform_commission_revenue'' (l_id m) t = acct_rows ''platform_commission_revenue'' (l_id m) s \<Longrightarrow>
   liability_booked m s \<Longrightarrow> liability_booked m t"
  by (simp add: liability_booked_def)

lemma lot_range:
  assumes "lot_check l" "in_i64 (l_amount l)"
  shows "0 \<le> pending_net l" "pending_net l \<le> i64_max" "0 \<le> pending_fee l" "pending_fee l \<le> i64_max"
    "0 \<le> l_commission_unlocked l" "l_commission l \<le> i64_max"
    "pending_fee l + l_commission_unlocked l + l_commission_reversed l = l_commission l" "l_reversed l \<le> i64_max"
  using assms by (auto simp: lot_check_def pending_net_def pending_fee_def l_net_def in_i64_def)

lemma unlock_evidence:
  assumes op: "unlock_lot_tx lot prov units mat at s = Inr (x, t)" and inv: "earn_inv s"
    and prov: "\<And>l. l \<in> set (lots s) \<Longrightarrow> l_id l = lot \<Longrightarrow> l_provider l = prov"
    and ev: "evidence_scope s" "\<forall>l \<in> set (lots s). lot_audited s l"
  shows "evidence_scope t \<and> (\<forall>l \<in> set (lots t). lot_audited t l)"
proof -
  have d: "distinct (map l_id (lots s))" using inv by (simp add: earn_inv_def lots_ok_def)
  obtain l j t1 where l: "l \<in> set (lots s)" "l_id l = lot" "pending_net l = units" "lot_check (unlocked_lot l)"
    and post: "posted s j (unlock_postings lot prov units (pending_fee l)) t1"
    and t: "t = t1\<lparr>lots := put_lot (unlocked_lot l) (lots s)\<rparr>" by (rule unlock_lot_cases [OF op d]) blast
  let ?P = "\<lambda>j. j_source_kind j = ''earning_lot'' \<and> j_source_id j = lot \<and> j_action j = ''unlock''"
  have g: "grown ?P s t" by (rule withinD [OF unlock_lot_grown op])
  have k: "kept s t" by (rule unlock_lot_inv(2) [OF op inv prov])
  have la: "lot_refunds_ok s l" "liability_booked l s" "in_i64 (l_amount l)"
    using ev(2) l(1) by (simp_all add: lot_audited_def lot_origin_def)
  have "lot_check l" using inv l(1) by (simp add: earn_inv_def lots_ok_def)
  note rng = lot_range [OF this la(3)]
  have rf: "commission_refunds t = commission_refunds s" "lots t = put_lot (unlocked_lot l) (lots s)"
    using more_fields [OF posted_frame(5) [OF post]] by (simp_all add: t)
  have rows: "acct_rows k x t = acct_rows k x s @ acct_units k x (unlock_postings lot prov units (pending_fee l))" for k x
    using acct_rows_posted [OF post] acct_rows_cong [of t t1] by (simp add: t)
  have ids: "l_id ` set (lots t) = l_id ` set (lots s)"
    unfolding rf(2) by (metis list.set_map put_lot_ids)
  have cr: "acct_rows ''platform_commission_pending'' x t = acct_rows ''platform_commission_pending'' x s
        @ (if x = lot \<and> pending_fee l \<noteq> 0 then [pending_fee l] else [])"
      "acct_rows ''platform_commission_revenue'' x t = acct_rows ''platform_commission_revenue'' x s
        @ (if x = lot \<and> pending_fee l \<noteq> 0 then [- pending_fee l] else [])" for x
    using rng(3) by (auto simp: rows unlock_postings_def)
  have "evidence_scope t"
    unfolding evidence_scope_def rf(1) ids
  proof (intro conjI ballI allI impI)
    fix x
    assume x: "x \<notin> l_id ` set (lots s)"
    then have "x \<noteq> lot" using l(1,2) by (metis imageI)
    with x ev(1) show "acct_rows ''platform_commission_pending'' x t = []" "acct_rows ''platform_commission_revenue'' x t = []"
      unfolding cr evidence_scope_def by simp_all
  next
    fix j
    assume j: "j \<in> set (journals t)"
    show "j_source_id j \<in> l_id ` set (lots s)" if "j_source_kind j = ''earning_lot''"
      using grown_new [OF g j] that ev(1) l(1,2) unfolding evidence_scope_def by (metis imageI)
    show "\<exists>f \<in> set (commission_refunds s). rf_dispute f = j_source_id j \<and> j_action j \<in> set (refund_actions (rf_lot f))"
      if "j_source_kind j = ''service_dispute''"
      using grown_new [OF g j] that ev(1) unfolding evidence_scope_def by auto
  qed (use ev(1) in \<open>simp add: evidence_scope_def\<close>)
  moreover have "\<forall>m \<in> set (lots t). lot_audited t m"
  proof (rule put_lot_audited [OF d l(1) _ rf(2) ev(2) g k])
    show "lot_ident (unlocked_lot l) = lot_ident l" by (simp add: unlocked_lot_def lot_ident_def)
  next
    fix m
    assume m: "m \<in> set (lots s)" "l_id m \<noteq> l_id l"
    have a: "lot_refunds_ok s m" "liability_booked m s" "unlocked_once s m" using ev(2) m(1) by (simp_all add: lot_audited_def)
    have "lot_refunds_ok t m" by (rule lot_refunds_stay [OF a(1) g]) (simp_all add: lot_refunds_def rf)
    moreover have "unlocked_once t m"
      by (rule unlocked_once_stays [OF a(3) g]) (use m(2) l(2) in \<open>auto simp: journal_key_def\<close>)
    moreover have "liability_booked m t"
      by (rule liability_same_rows [OF _ _ a(2)]) (use m(2) l(2) in \<open>simp_all add: cr\<close>)
    ultimately show "lot_refunds_ok t m \<and> liability_booked m t \<and> unlocked_once t m" by blast
  next
    have same: "lot_refunds_ok t (unlocked_lot l) = lot_refunds_ok t l"
      by (simp add: lot_refunds_ok_def refund_share_ok_def refund_booked_def unlocked_lot_def)
    show "lot_refunds_ok t (unlocked_lot l)"
      unfolding same by (rule lot_refunds_stay [OF la(1) g]) (simp_all add: lot_refunds_def rf)
    show "liability_booked (unlocked_lot l) t"
    proof -
      have "sum_is (acct_rows ''platform_commission_pending'' lot s) (- pending_fee l)"
        "sum_is (acct_rows ''platform_commission_revenue'' lot s) (- l_commission_unlocked l)"
        using la(2) l(2) by (simp_all add: liability_booked_def pending_fee_def)
      note sums = sum_is_more [OF this(1), of "pending_fee l"] sum_is_more [OF this(2), of "- pending_fee l"]
      show ?thesis
        using sums rng(3-7) l(2) \<open>lot_check l\<close> by (auto simp: liability_booked_def cr unlocked_lot_def pending_fee_def i64_defs lot_check_def)
    qed
    show "unlocked_once t (unlocked_lot l)"
      by (simp add: unlocked_once_def unlocked_lot_def pending_net_def pending_fee_def l_net_def)
  qed
  ultimately show ?thesis by blast
qed

end
