(* ===== verification/Earning_Audit.thy ===== *)
theory Earning_Audit
  imports Earning_Evidence
begin

text \<open>
  Refunds and deliveries keep the evidence of every lot, so the audit of
  \<open>src/src/market_commission.rs\<close> accepts every lot the service can produce and the
  unlock batch of \<open>src/src/market_finance.rs\<close> pays out exactly the lots that are due.
\<close>


section \<open>Refunds\<close>

lemma repaid_rows:
  assumes "repaid buyer kind subject amt d act s t"
  shows "acct_rows k x t = acct_rows k x s @ (if amt = 0 then [] else acct_units k x
      [\<lparr>p_kind = kind, p_subject = subject, p_units = amt\<rparr>, \<lparr>p_kind = ''wallet_available'', p_subject = buyer, p_units = - amt\<rparr>])"
proof (cases "amt = 0")
  case False
  with assms obtain j where "appended s j [\<lparr>p_kind = kind, p_subject = subject, p_units = amt\<rparr>,
      \<lparr>p_kind = ''wallet_available'', p_subject = buyer, p_units = - amt\<rparr>] t" unfolding repaid_def by auto
  from acct_rows_appended [OF this] False show ?thesis by simp
qed (use assms in \<open>simp add: repaid_def\<close>)

text \<open>What a refund of one part adds to the postings an audit of the dispute finds.\<close>

lemma repaid_refund_postings:
  assumes "repaid buyer kind subject amt d act s t"
  shows "refund_postings d acts ks x t = refund_postings d acts ks x s
    @ (if amt = 0 \<or> act \<notin> set acts then []
       else (if kind \<in> set ks \<and> subject = x then [amt] else []) @ (if ''wallet_available'' \<in> set ks \<and> buyer = x then [- amt] else []))"
proof (cases "amt = 0")
  case True
  with assms show ?thesis by (simp add: repaid_def)
next
  case False
  let ?ps = "[\<lparr>p_kind = kind, p_subject = subject, p_units = amt\<rparr>, \<lparr>p_kind = ''wallet_available'', p_subject = buyer, p_units = - amt\<rparr>]"
  let ?sel = "\<lambda>j p. pr_journal p = j_id j \<and> pr_kind p \<in> set ks \<and> pr_subject p = x"
  let ?mine = "\<lambda>j. j_source_kind j = ''service_dispute'' \<and> j_source_id j = d \<and> j_action j \<in> set acts"
  from assms False obtain j rows where j: "j_source_kind j = ''service_dispute''" "j_source_id j = d" "j_action j = act"
    and t: "postings t = postings s @ rows" "map row_posting rows = ?ps" "\<forall>r \<in> set rows. pr_journal r = j_id j"
      "journals t = journals s @ [j]"
    and new: "j_id j \<notin> j_id ` set (journals s)" "journal_postings (j_id j) s = []"
    unfolding repaid_def appended_def by auto
  have old: "filter (?sel i) (postings t) = filter (?sel i) (postings s)" if "i \<in> set (filter ?mine (journals s))" for i
  proof -
    from that have "i \<in> set (journals s)" by simp
    then have "j_id i \<noteq> j_id j" using new(1) by (metis imageI)
    with t(3) show ?thesis by (auto simp: t(1) filter_empty_conv)
  qed
  have "filter (?sel j) (postings s) = []" using new(2) by (auto simp: journal_postings_def filter_empty_conv)
  then have "map pr_units (filter (?sel j) (postings t)) = map p_units (filter (\<lambda>p. p_kind p \<in> set ks \<and> p_subject p = x) (map row_posting rows))"
    using t(3) by (simp add: t(1) filter_map comp_def row_posting_def cong: filter_cong)
  then have mine: "map pr_units (filter (?sel j) (postings t))
      = (if kind \<in> set ks \<and> subject = x then [amt] else []) @ (if ''wallet_available'' \<in> set ks \<and> buyer = x then [- amt] else [])"
    by (simp add: t(2))
  have "concat (map (\<lambda>i. map pr_units (filter (?sel i) (postings t))) (filter ?mine (journals s)))
      = concat (map (\<lambda>i. map pr_units (filter (?sel i) (postings s))) (filter ?mine (journals s)))"
    using old by (intro arg_cong [where f = concat] map_cong refl arg_cong [where f = "map pr_units"])
  then show ?thesis
    using False j mine by (simp add: refund_postings_def t(4))
qed

lemma refund_postings_none:
  assumes "evidence_scope s" "\<not> (\<exists>g \<in> set (commission_refunds s). rf_dispute g = d \<and> rf_lot g = lot)"
    "set acts \<subseteq> set (refund_actions lot)"
  shows "refund_postings d acts ks x s = []"
proof -
  have "\<not> (j_source_kind j = ''service_dispute'' \<and> j_source_id j = d \<and> j_action j \<in> set acts)" if "j \<in> set (journals s)" for j
    using assms that refund_actions_inj unfolding evidence_scope_def by (metis subsetD)
  then show ?thesis by (simp add: refund_postings_def filter_False)
qed

lemma sum_is_parts:
  assumes "in_i64 a" "in_i64 (a + b)"
  shows "sum_is ((if a = 0 then [] else [a]) @ (if b = 0 then [] else [b])) (a + b)"
  using sum_is_more [OF sum_is_more [of "[]" 0 a], of b] assms by (simp add: i64_defs)

lemma refund_share_refunded:
  assumes "lot_check l" "split_refund (refundable_of l) taken = (n, f)"
  shows "refund_share_ok (refunded_lot l n fa f cr)"
proof -
  have f: "f = ((l_reversed l + l_commission_reversed l + taken) * l_commission l + l_amount l div 2) div l_amount l - l_commission_reversed l"
    and n: "n + f = taken"
    using assms(2) by (auto simp: split_refund_def Let_def refunded_gross_def refundable_of_def)
  have eq: "l_reversed l + n + (l_commission_reversed l + f) = l_reversed l + l_commission_reversed l + taken" using n by simp
  have "((l_reversed l + n + (l_commission_reversed l + f)) * l_commission l + l_amount l div 2) div l_amount l = l_commission_reversed l + f"
    unfolding eq using f by simp
  then show ?thesis by (simp add: refund_share_ok_def refunded_lot_def)
qed

text \<open>The four parts of a refund are what the audit of its row finds.\<close>

lemma refund_row_booked:
  assumes r: "repaid b ''provider_pending'' p fp d (''refund_pending:'' @ i) s s1"
      "repaid b ''provider_available'' p fa d (''refund_available:'' @ i) s1 s2"
      "repaid b ''platform_commission_pending'' i cp d (''refund_commission_pending:'' @ i) s2 s3"
      "repaid b ''platform_commission_revenue'' i cr d (''refund_commission_revenue:'' @ i) s3 s4"
    and nn: "0 \<le> fp" "0 \<le> fa" "0 \<le> cp" "0 \<le> cr" "fp + fa + cp + cr \<le> i64_max"
    and none: "\<And>acts ks x. set acts \<subseteq> set (refund_actions i) \<Longrightarrow> refund_postings d acts ks x s = []"
    and l: "l_id l = i" "l_provider l = p" "l_buyer l = b" and t: "journals t = journals s4" "postings t = postings s4"
  shows "refund_booked l \<lparr>rf_dispute = d, rf_lot = i, rf_gross = fp + fa + cp + cr, rf_net = fp + fa, rf_fee = cp + cr, rf_created_at = time\<rparr> t"
proof -
  note rp = repaid_refund_postings [OF r(4)] repaid_refund_postings [OF r(3)] repaid_refund_postings [OF r(2)] repaid_refund_postings [OF r(1)]
  have tt: "refund_postings d acts ks x t = refund_postings d acts ks x s4" for acts ks x by (simp add: refund_postings_def t)
  let ?na = "[''refund_pending:'' @ i, ''refund_available:'' @ i]"
    and ?fa = "[''refund_commission_pending:'' @ i, ''refund_commission_revenue:'' @ i]"
  let ?o = "\<lambda>a::int. if a = 0 then [] else [a]"
  have "refund_postings d ?na [''provider_pending'', ''provider_available''] p t = ?o fp @ ?o fa"
    unfolding tt rp by (simp add: none refund_actions_def)
  moreover have "refund_postings d ?fa [''platform_commission_pending'', ''platform_commission_revenue''] i t = ?o cp @ ?o cr"
    unfolding tt rp by (simp add: none refund_actions_def)
  moreover have "refund_postings d (?na @ ?fa) [''wallet_available''] b t = ?o (- fp) @ ?o (- fa) @ ?o (- cp) @ ?o (- cr)"
    unfolding tt rp by (simp add: none refund_actions_def)
  moreover have "sum_is (?o fp @ ?o fa) (fp + fa)" "sum_is (?o cp @ ?o cr) (cp + cr)"
    by (rule sum_is_parts; use nn in \<open>simp add: i64_defs\<close>)+
  moreover have "sum_is (((?o (- fp) @ ?o (- fa)) @ ?o (- cp)) @ ?o (- cr)) (- fp + - fa + - cp + - cr)"
    by (intro sum_is_more sum_is_parts; use nn in \<open>simp add: i64_defs\<close>)
  ultimately show ?thesis
    by (simp add: refund_booked_def l algebra_simps)
qed

lemma refund_commission_rows:
  assumes r: "repaid b ''provider_pending'' p fp d a1 s s1" "repaid b ''provider_available'' p fa d a2 s1 s2"
      "repaid b ''platform_commission_pending'' i cp d a3 s2 s3" "repaid b ''platform_commission_revenue'' i cr d a4 s3 s4"
    and t: "postings t = postings s4"
  shows "acct_rows ''platform_commission_pending'' x t = acct_rows ''platform_commission_pending'' x s @ (if x = i \<and> cp \<noteq> 0 then [cp] else [])"
    "acct_rows ''platform_commission_revenue'' x t = acct_rows ''platform_commission_revenue'' x s @ (if x = i \<and> cr \<noteq> 0 then [cr] else [])"
  unfolding acct_rows_cong [OF t] repaid_rows [OF r(4)] repaid_rows [OF r(3)] repaid_rows [OF r(2)] repaid_rows [OF r(1)] by auto

lemma refunded_liability:
  assumes "liability_booked l s" "lot_check l" "in_i64 (l_amount l)" "lot_check (refunded_lot l n fa f cr)" "f = cp + cr" "0 \<le> cp" "0 \<le> cr"
    and rows: "acct_rows ''platform_commission_pending'' (l_id l) t = acct_rows ''platform_commission_pending'' (l_id l) s @ (if cp \<noteq> 0 then [cp] else [])"
      "acct_rows ''platform_commission_revenue'' (l_id l) t = acct_rows ''platform_commission_revenue'' (l_id l) s @ (if cr \<noteq> 0 then [cr] else [])"
  shows "liability_booked (refunded_lot l n fa f cr) t"
proof -
  have s: "sum_is (acct_rows ''platform_commission_pending'' (l_id l) s) (- pending_fee l)"
    "sum_is (acct_rows ''platform_commission_revenue'' (l_id l) s) (- l_commission_unlocked l)"
    using assms(1) by (simp_all add: liability_booked_def pending_fee_def)
  note rng = lot_range [OF assms(2,3)] lot_range [OF assms(4)]
  have "in_i64 (- pending_fee l + cp)" "in_i64 (- l_commission_unlocked l + cr)"
    using rng assms(3-7) by (auto simp: refunded_lot_def pending_fee_def i64_defs lot_check_def l_net_def)
  from sum_is_more [OF s(1) this(1)] sum_is_more [OF s(2) this(2)] show ?thesis
    using assms(5) by (auto simp: liability_booked_def rows refunded_lot_def pending_fee_def algebra_simps)
qed

lemma refunded_refunds:
  assumes "lot_refunds_ok s l" and g: "grown P s t" and t: "commission_refunds t = commission_refunds s @ [row]"
    and l': "l' = refunded_lot l n fa f cr" and row: "refund_booked l' row t" and share: "refund_share_ok l'"
    and r: "rf_lot row = l_id l" "rf_net row = n" "rf_fee row = f" "lot_check l'" "in_i64 (l_amount l)" "0 \<le> n" "0 \<le> f"
    and P: "\<And>j f. P j \<Longrightarrow> f \<in> set (lot_refunds (l_id l) s) \<Longrightarrow>
      \<not> (j_source_kind j = ''service_dispute'' \<and> j_source_id j = rf_dispute f \<and> j_action j \<in> set (refund_actions (l_id l)))"
  shows "lot_refunds_ok t l'"
proof -
  have id: "l_id l' = l_id l" by (simp add: l' refunded_lot_def)
  have lr: "lot_refunds (l_id l) t = lot_refunds (l_id l) s @ [row]" using r(1) by (simp add: lot_refunds_def t)
  have old: "refund_booked l' f t" if "f \<in> set (lot_refunds (l_id l) s)" for f
  proof -
    have "refund_booked l f t"
      by (rule refund_booked_grown [OF g]) (use assms(1) that P in \<open>auto simp: lot_refunds_ok_def\<close>)
    then show ?thesis by (simp add: refund_booked_def l' refunded_lot_def)
  qed
  have rng: "in_i64 (l_reversed l + n)" "in_i64 (l_commission_reversed l + f)"
    using r(4-7) by (auto simp: l' lot_check_def refunded_lot_def l_net_def i64_defs)
  have "sum_is (map rf_net (lot_refunds (l_id l) t)) (l_reversed l + n)" "sum_is (map rf_fee (lot_refunds (l_id l) t)) (l_commission_reversed l + f)"
    using assms(1) rng sum_is_snoc by (auto simp: lr r(2,3) lot_refunds_ok_def)
  then show ?thesis
    unfolding lot_refunds_ok_def id using share old row lr by (auto simp: l' refunded_lot_def)
qed

lemma refunded_once:
  assumes "unlocked_once t l" "fp = min n (pending_net l)" "cp = min f (pending_fee l)" "0 \<le> fp" "0 \<le> cp" "0 \<le> n - fp" "0 \<le> f - cp"
  shows "unlocked_once t (refunded_lot l n (n - fp) f (f - cp))"
  using assms by (auto simp: unlocked_once_def refunded_lot_def pending_net_def pending_fee_def l_net_def)

lemma refund_evidence:
  assumes op: "refund_lot_tx d (refundable_of l) taken time s = Inr (x, t)" and inv: "earn_inv s"
    and ev: "evidence_scope s \<and> (\<forall>m \<in> set (lots s). lot_audited s m)"
    and l: "l \<in> set (lots s)" "l_provider l = sd_provider d" "l_buyer l = sd_buyer d" "refund_share_ok l"
    and g: "0 < taken" "taken \<le> refundable_gross (refundable_of l)"
  shows "evidence_scope t \<and> (\<forall>m \<in> set (lots t). lot_audited t m)"
proof -
  have ids: "distinct (map l_id (lots s))" and chk: "lot_check l" using inv l(1) by (auto simp: earn_inv_def lots_ok_def)
  have g0: "0 \<le> taken" using g(1) by simp
  have k: "kept s t" by (rule refund_lot_inv [OF op inv l(1,2,4) g0 g(2)])
  have la: "lot_refunds_ok s l" "liability_booked l s" "unlocked_once s l" "in_i64 (l_amount l)"
    using ev l(1) by (auto simp: lot_audited_def lot_origin_def)
  let ?P = "\<lambda>j. j_source_kind j = ''service_dispute'' \<and> j_source_id j = sd_id d \<and> j_action j \<in> set (refund_actions (l_id l))"
  have gr: "grown ?P s t" using withinD [OF refund_lot_grown op] by (simp add: refundable_of_def)
  show ?thesis
  proof (rule refund_lot_shape [OF op ids l(1) chk l(4) g0 g(2)])
    fix n f fp cp s1 s2 s3 s4
    assume sp: "split_refund (refundable_of l) taken = (n, f)" "fp = min n (pending_net l)" "cp = min f (pending_fee l)"
      and nn: "0 \<le> fp" "0 \<le> n - fp" "0 \<le> cp" "0 \<le> f - cp" "n + f = taken"
      and r: "repaid (sd_buyer d) ''provider_pending'' (sd_provider d) fp (sd_id d) (''refund_pending:'' @ l_id l) s s1"
        "repaid (sd_buyer d) ''provider_available'' (sd_provider d) (n - fp) (sd_id d) (''refund_available:'' @ l_id l) s1 s2"
        "repaid (sd_buyer d) ''platform_commission_pending'' (l_id l) cp (sd_id d) (''refund_commission_pending:'' @ l_id l) s2 s3"
        "repaid (sd_buyer d) ''platform_commission_revenue'' (l_id l) (f - cp) (sd_id d) (''refund_commission_revenue:'' @ l_id l) s3 s4"
      and chk': "lot_check (refunded_lot l n (n - fp) f (f - cp))"
      and no: "\<not> (\<exists>g \<in> set (commission_refunds s). rf_dispute g = sd_id d \<and> rf_lot g = l_id l)"
      and t: "t = s4\<lparr>lots := put_lot (refunded_lot l n (n - fp) f (f - cp)) (lots s),
         commission_refunds := commission_refunds s @ [\<lparr>rf_dispute = sd_id d, rf_lot = l_id l, rf_gross = taken, rf_net = n,
             rf_fee = f, rf_created_at = time\<rparr>]\<rparr>"
    define l' where "l' = refunded_lot l n (n - fp) f (f - cp)"
    define row where "row = \<lparr>rf_dispute = sd_id d, rf_lot = l_id l, rf_gross = taken, rf_net = n, rf_fee = f, rf_created_at = time\<rparr>"
    have tf: "lots t = put_lot l' (lots s)" "commission_refunds t = commission_refunds s @ [row]"
      "journals t = journals s4" "postings t = postings s4" by (simp_all add: t l'_def row_def)
    note cr = refund_commission_rows [OF r tf(4)]
    have idl: "l_id l' = l_id l" "lot_ident l' = lot_ident l" by (simp_all add: l'_def refunded_lot_def lot_ident_def)
    have lots_ids: "l_id ` set (lots t) = l_id ` set (lots s)" unfolding tf(1) by (metis list.set_map put_lot_ids)
    have none: "refund_postings (sd_id d) acts ks x s = []" if "set acts \<subseteq> set (refund_actions (l_id l))" for acts ks x
      by (rule refund_postings_none [OF _ no that]) (use ev in simp)
    have scope: "evidence_scope t"
      unfolding evidence_scope_def lots_ids tf(2)
    proof (intro conjI ballI allI impI)
      show "rf_lot ` set (commission_refunds s @ [row]) \<subseteq> l_id ` set (lots s)"
        using ev l(1) by (auto simp: evidence_scope_def row_def)
    next
      fix j
      assume j: "j \<in> set (journals t)"
      show "j_source_id j \<in> l_id ` set (lots s)" if "j_source_kind j = ''earning_lot''"
        using grown_new [OF gr j] that ev unfolding evidence_scope_def by auto
      show "\<exists>f \<in> set (commission_refunds s @ [row]). rf_dispute f = j_source_id j \<and> j_action j \<in> set (refund_actions (rf_lot f))"
        if "j_source_kind j = ''service_dispute''"
        using grown_new [OF gr j] that ev unfolding evidence_scope_def by (auto simp: row_def)
    next
      fix x
      assume x: "x \<notin> l_id ` set (lots s)"
      then have "x \<noteq> l_id l" using l(1) by (metis imageI)
      with x ev show "acct_rows ''platform_commission_pending'' x t = []" "acct_rows ''platform_commission_revenue'' x t = []"
        unfolding cr evidence_scope_def by simp_all
    qed
    have taken: "taken \<le> i64_max"
      using nn chk' la(4) chk by (auto simp: lot_check_def refunded_lot_def l_net_def i64_defs)
    have row: "refund_booked l' row t"
      using refund_row_booked [OF r nn(1-4) _ none idl(1) _ _ tf(3,4), of time] nn(5) taken l(2,3)
      by (simp add: row_def l'_def refunded_lot_def algebra_simps)
    have "\<forall>m \<in> set (lots t). lot_audited t m"
    proof (rule put_lot_audited [OF ids l(1) idl(2) tf(1) conjunct2 [OF ev] gr k])
      fix m
      assume m: "m \<in> set (lots s)" "l_id m \<noteq> l_id l"
      have a: "lot_refunds_ok s m" "liability_booked m s" "unlocked_once s m" using ev m(1) by (simp_all add: lot_audited_def)
      have "lot_refunds_ok t m"
        by (rule lot_refunds_stay [OF a(1) gr])
          (use m(2) refund_actions_inj in \<open>auto simp: lot_refunds_def tf(2) row_def\<close>)
      moreover have "unlocked_once t m" by (rule unlocked_once_stays [OF a(3) gr]) (auto simp: journal_key_def)
      moreover have "liability_booked m t" by (rule liability_same_rows [OF _ _ a(2)]) (use m(2) in \<open>simp_all add: cr\<close>)
      ultimately show "lot_refunds_ok t m \<and> liability_booked m t \<and> unlocked_once t m" by blast
    next
      have u: "unlocked_once t l" by (rule unlocked_once_stays [OF la(3) gr]) (auto simp: journal_key_def)
      show "unlocked_once t l'" unfolding l'_def by (rule refunded_once [OF u sp(2,3) nn(1,3,2,4)])
      show "liability_booked l' t"
        unfolding l'_def by (rule refunded_liability [OF la(2) chk la(4) chk', of cp]) (use nn in \<open>simp_all add: cr\<close>)
      have share: "refund_share_ok l'" unfolding l'_def by (rule refund_share_refunded [OF chk sp(1)])
      show "lot_refunds_ok t l'"
        by (rule refunded_refunds [OF la(1) gr tf(2) l'_def row share])
          (use no nn chk' la(4) in \<open>auto simp: row_def l'_def lot_refunds_def\<close>)
    qed
    with scope show ?thesis by blast
  qed
qed

section \<open>Deliveries\<close>

lemma appended_journal_acct:
  assumes "appended s j ps t"
  shows "journal_acct (j_id j) k x t = acct_units k x ps"
proof -
  from assms obtain rows where t: "postings t = postings s @ rows" "map row_posting rows = ps" "\<forall>r \<in> set rows. pr_journal r = j_id j"
    and new: "journal_postings (j_id j) s = []" unfolding appended_def by blast
  have "filter (\<lambda>p. pr_journal p = j_id j \<and> pr_kind p = k \<and> pr_subject p = x) (postings s) = []"
    using new by (auto simp: journal_postings_def filter_empty_conv)
  then show ?thesis
    using t(3) unfolding journal_acct_def acct_units_def t(1) t(2) [symmetric]
    by (simp add: filter_map comp_def row_posting_def cong: filter_cong)
qed

text \<open>The commission journals \<open>js\<close> of a delivery: none without a fee, otherwise one that moves it.\<close>

definition commission_journals :: "lot_row \<Rightarrow> journal_row list \<Rightarrow> bool" where
  "commission_journals l js \<longleftrightarrow>
     (\<forall>j \<in> set js. j_source_kind j = ''earning_lot'' \<and> j_source_id j = l_id l \<and> j_action j = ''commission'')"

lemma allocated_booked:
  assumes al: "allocated s (l_id l) p gross (l_provider l) a u" and l: "l_commission l = da_fee_units a" "lot_check l" "in_i64 (l_amount l)"
    and e: "da_evidence a = Some e" and x: "sp_journal x = ev_journal e"
  shows "\<exists>js. journals u = journals s @ js \<and> commission_journals l js \<and> allocation_booked l x u
    \<and> (\<forall>y. acct_rows ''platform_commission_pending'' y u
          = acct_rows ''platform_commission_pending'' y s @ (if y = l_id l \<and> l_commission l \<noteq> 0 then [- l_commission l] else [])
        \<and> acct_rows ''platform_commission_revenue'' y u = acct_rows ''platform_commission_revenue'' y s)"
proof (cases "0 < l_commission l")
  case True
  with al l(1) e obtain j where j: "ev_journal e = Some (j_id j)" "j_source_kind j = ''earning_lot''" "j_source_id j = l_id l"
    "j_action j = ''commission''" and post: "posted s j (commission_postings (l_provider l) (l_id l) (l_commission l)) u"
    by (auto simp: allocated_def)
  note ap = posted_appended [OF post]
  have one: "sum_is [b] b" if "in_i64 b" for b using sum_is_snoc [of "[]" 0 b] that by simp
  have acct: "sum_is (journal_acct (j_id j) ''provider_pending'' (l_provider l) u) (l_commission l)"
    "sum_is (journal_acct (j_id j) ''platform_commission_pending'' (l_id l) u) (- l_commission l)"
    using one lot_range(6) [OF l(2,3)] True
    by (simp_all add: appended_journal_acct [OF ap] commission_postings_def i64_defs)
  have "journals u = journals s @ [j]" "\<exists>seal \<in> set (seals u). s_journal seal = j_id j \<and> s_count seal = 2"
    using ap by (auto simp: appended_def commission_postings_def)
  moreover from this have "allocation_booked l x u"
    using acct j x unfolding allocation_booked_def by auto
  ultimately show ?thesis
    using j True acct_rows_posted [OF post]
    by (intro exI [of _ "[j]"]) (auto simp: commission_journals_def commission_postings_def)
next
  case False
  with l(2) have z: "l_commission l = 0" by (simp add: lot_check_def)
  with al l(1) e have "u = s" "ev_journal e = None" by (auto simp: allocated_def)
  with z x show ?thesis by (intro exI [of _ "[]"]) (simp add: commission_journals_def allocation_booked_def)
qed

lemma deliver_shape:
  assumes f: "funded prov amt ej s s1"
    and op: "insert_slice_and_lot_tx T ck c sk sid per buyer prov st en amt dj ej deb now s1 = Inr (r, t)"
    and known: "per \<noteq> None \<or> sk = ''metered_batch''"
  obtains d l j js xs where
    "journals t = journals s @ j # js" "foreign j" "commission_journals l js" "slices t = slices s @ [d]" "lots t = lots s @ [l]"
    "commission_splits t = commission_splits s @ xs" "commission_periods t = commission_periods s"
    "contract_terms t = contract_terms s" "commission_refunds t = commission_refunds s"
    "quote_terms t = quote_terms s" "commission_policies t = commission_policies s" "platform_contracts t = platform_contracts s"
    "fresh_lot d buyer prov (l_commission l) (l_disputed l) l" "l_id l \<notin> l_id ` set (lots s)" "in_i64 (l_amount l)"
    "l_provider l \<noteq> []" "l_id l \<in> range (uuid_supply t)"
    "\<And>y. acct_rows ''platform_commission_pending'' y t
        = acct_rows ''platform_commission_pending'' y s @ (if y = l_id l \<and> l_commission l \<noteq> 0 then [- l_commission l] else [])"
    "\<And>y. acct_rows ''platform_commission_revenue'' y t = acct_rows ''platform_commission_revenue'' y s"
    "if xs = [] then l_commission l = 0 \<and> \<not> protected_contract (ds_contract d) s
     else \<exists>x p. xs = [x] \<and> p \<in> set (commission_periods s) \<and> split_origin t l d x p"
proof -
  note result = that
  from f obtain j ps where j: "j_id j = ej" "foreign j" and ap: "appended s j ps s1"
    and un: "\<And>k x. k \<in> set earning_kinds \<Longrightarrow> acct_units k x ps = (if k = ''provider_pending'' \<and> x = prov then [- amt] else [])"
    and m1: "wallet_db.more s1 = wallet_db.more s" and fa: "prov \<noteq> []" "in_i64 amt" "wallet_inv s1"
    unfolding funded_def foreign_def own_sources_def by auto
  note m = more_fields [OF m1]
  from op show thesis
  proof (cases rule: insert_slice_and_lot_cases)
    case (1 n d l a xs u)
    let ?s = "s1\<lparr>uuid_drawn := n, slices := slices s1 @ [d]\<rparr>"
    have "wallet_inv ?s" using fa(3) wallet_inv_cong [of ?s s1] by simp
    note mu = more_fields [OF allocation_books(2) [OF 1(1) this 1(8)]]
    have l: "fresh_lot d buyer prov (l_commission l) (l_disputed l) l" "l_amount l = amt" "l_provider l = prov"
      "l_commission l = da_fee_units a" "lot_check l" using 1(3,6) by (auto simp: fresh_lot_def)
    from 1(2) have t: "journals t = journals u" "postings t = postings u" "seals t = seals u" "slices t = slices u" "lots t = lots u @ [l]"
      "commission_splits t = commission_splits u @ xs" "commission_periods t = commission_periods u" "contract_terms t = contract_terms u"
      "commission_refunds t = commission_refunds u" "l_id l \<notin> l_id ` set (lots u)" "quote_terms t = quote_terms u"
      "commission_policies t = commission_policies u" "platform_contracts t = platform_contracts u"
      and xs: "case da_evidence a of None \<Rightarrow> xs = [] | Some e \<Rightarrow> \<exists>now. xs = [split_of_allocation (l_id l) now e]"
      unfolding delivered_def by (auto split: option.splits)
    have rows1: "acct_rows k y s1 = acct_rows k y s" if "k \<in> {''platform_commission_pending'', ''platform_commission_revenue''}" for k y
      using that un [of k y] by (auto simp: acct_rows_appended [OF ap] earning_kinds_def)
    have sup: "l_id l \<in> range (uuid_supply t)"
      using withinD [OF insert_slice_grown op] 1(16) by (auto simp: grown_def)
    have ids: "l_id l \<notin> l_id ` set (lots s)" using t(10) mu(1) m(1) by simp
    have j1: "journals ?s = journals s @ [j]" "j_id j \<in> j_id ` set (journals s1)" using ap by (auto simp: appended_def)
    have rt: "acct_rows k y t = acct_rows k y u" "acct_rows k y ?s = acct_rows k y s1" for k y by (rule acct_rows_cong, simp add: t)+
    have at: "allocation_booked l x t = allocation_booked l x u" for x by (simp add: allocation_booked_def journal_acct_def t)
    have fin: thesis
      if "journals u = journals ?s @ js" "commission_journals l js"
        "\<And>y. acct_rows ''platform_commission_pending'' y u
          = acct_rows ''platform_commission_pending'' y ?s @ (if y = l_id l \<and> l_commission l \<noteq> 0 then [- l_commission l] else [])"
        "\<And>y. acct_rows ''platform_commission_revenue'' y u = acct_rows ''platform_commission_revenue'' y ?s"
        "if xs = [] then l_commission l = 0 \<and> \<not> protected_contract (ds_contract d) s
         else \<exists>x p. xs = [x] \<and> p \<in> set (commission_periods s) \<and> split_origin t l d x p" for js
      by (rule result [of j js l d xs]) (use \<open>journals u = journals ?s @ js\<close> \<open>commission_journals l js\<close> j(2) j1(1) t mu m l(1) ids fa l(2,3) sup that(3-5) rt rows1 in simp_all)
    from 1(1) show thesis
    proof (cases rule: allocate_delivery_cases)
      case unsplit
      then have "xs = []" "l_commission l = 0" using xs l(4) by (simp_all add: no_allocation_def)
      moreover have "\<not> protected_contract c ?s" using unsplit(3) known by blast
      ultimately show thesis
        using unsplit(2) by (intro fin [of "[]"]) (simp_all add: commission_journals_def 1(4) protected_contract_def m)
    next
      case (split p)
      from split(2) obtain e where e: "da_evidence a = Some e" "ev_period e = pe_id p" by (auto simp: allocated_def)
      with xs obtain now' where x: "xs = [split_of_allocation (l_id l) now' e]" by auto
      let ?x = "split_of_allocation (l_id l) now' e"
      from allocated_booked [OF split(2) [folded l(3)] l(4,5) _ e(1), of ?x] fa(2) l(2,3) obtain js where js: "journals u = journals ?s @ js"
        "commission_journals l js" "allocation_booked l ?x u"
        "\<And>y. acct_rows ''platform_commission_pending'' y u
          = acct_rows ''platform_commission_pending'' y ?s @ (if y = l_id l \<and> l_commission l \<noteq> 0 then [- l_commission l] else [])"
        "\<And>y. acct_rows ''platform_commission_revenue'' y u = acct_rows ''platform_commission_revenue'' y ?s"
        by (auto simp: split_of_allocation_def)
      have "journal_acct (j_id j) ''provider_pending'' (l_provider l) t = [- l_amount l]"
        unfolding grown_journal_acct [OF withinD [OF insert_slice_grown op] j1(2)] appended_journal_acct [OF ap]
        using un [of "''provider_pending''" prov] l(2,3) by (simp add: earning_kinds_def)
      moreover have "commission_source s c per sk p" using split(1) m by (simp add: commission_source_def)
      ultimately have "split_origin t l d ?x p" "p \<in> set (commission_periods s)"
        using js(1,3) j1(1) e(2) j(1) 1(4,5,7) at t(1)
        by (auto simp: split_origin_def split_of_allocation_def commission_source_def split: option.splits)
      then show thesis using x by (intro fin [OF js(1,2,4,5)]) auto
    qed
  qed
qed

lemma deliver_evidence:
  assumes f: "funded prov amt ej s s1"
    and op: "insert_slice_and_lot_tx T ck c sk sid per buyer prov st en amt dj ej deb now s1 = Inr (r, t)"
    and known: "per \<noteq> None \<or> sk = ''metered_batch''" and gr: "grown of_delivery s t" and inv: "earn_inv s" "splits_ok s"
    and ev: "evidence_scope s" "\<forall>m \<in> set (lots s). lot_audited s m" "terms_ok s"
  shows "evidence_scope t \<and> (\<forall>m \<in> set (lots t). lot_audited t m) \<and> terms_ok t"
proof (rule deliver_shape [OF f op known])
  fix d l j js xs
  assume js: "journals t = journals s @ j # js" "foreign j" "commission_journals l js"
    and t: "slices t = slices s @ [d]" "lots t = lots s @ [l]" "commission_splits t = commission_splits s @ xs"
      "commission_periods t = commission_periods s" "contract_terms t = contract_terms s" "commission_refunds t = commission_refunds s"
    and tm: "quote_terms t = quote_terms s" "commission_policies t = commission_policies s" "platform_contracts t = platform_contracts s"
    and l: "fresh_lot d buyer prov (l_commission l) (l_disputed l) l" "l_id l \<notin> l_id ` set (lots s)" "in_i64 (l_amount l)"
      "l_provider l \<noteq> []" "l_id l \<in> range (uuid_supply t)"
    and rows: "\<And>y. acct_rows ''platform_commission_pending'' y t
        = acct_rows ''platform_commission_pending'' y s @ (if y = l_id l \<and> l_commission l \<noteq> 0 then [- l_commission l] else [])"
      "\<And>y. acct_rows ''platform_commission_revenue'' y t = acct_rows ''platform_commission_revenue'' y s"
    and xs: "if xs = [] then l_commission l = 0 \<and> \<not> protected_contract (ds_contract d) s
     else \<exists>x p. xs = [x] \<and> p \<in> set (commission_periods s) \<and> split_origin t l d x p"
  have fl: "l_slice l = ds_id d" "l_amount l = ds_amount d" "l_reversed l = 0" "l_commission_reversed l = 0" "l_commission_unlocked l = 0"
    "lot_check l" using l(1) by (simp_all add: fresh_lot_def)
  have prot: "protected_contract x t = protected_contract x s" for x by (rule protected_cong [OF t(5)])
  have nosplit: "l_id l \<notin> sp_lot ` set (commission_splits s)"
  proof
    assume "l_id l \<in> sp_lot ` set (commission_splits s)"
    then obtain x where "x \<in> set (commission_splits s)" "sp_lot x = l_id l" by auto
    with inv(2) obtain m where "m \<in> set (lots s)" "l_id m = l_id l" unfolding splits_ok_def by metis
    with l(2) show False by (metis imageI)
  qed
  have scope: "evidence_scope t"
    unfolding evidence_scope_def t(2,6)
  proof (intro conjI ballI allI impI)
    show "rf_lot ` set (commission_refunds s) \<subseteq> l_id ` set (lots s @ [l])" using ev(1) by (auto simp: evidence_scope_def)
  next
    fix i
    assume i: "i \<in> set (journals t)"
    show "j_source_id i \<in> l_id ` set (lots s @ [l])" if "j_source_kind i = ''earning_lot''"
      using i that js foreign_key(3) ev(1) by (auto simp: evidence_scope_def commission_journals_def)
    show "\<exists>f \<in> set (commission_refunds s). rf_dispute f = j_source_id i \<and> j_action i \<in> set (refund_actions (rf_lot f))"
      if "j_source_kind i = ''service_dispute''"
      using i that js foreign_key(2) ev(1) by (auto simp: evidence_scope_def commission_journals_def)
  next
    fix x
    assume "x \<notin> l_id ` set (lots s @ [l])"
    then have "x \<notin> l_id ` set (lots s)" "x \<noteq> l_id l" by auto
    with ev(1) show "acct_rows ''platform_commission_pending'' x t = []" "acct_rows ''platform_commission_revenue'' x t = []"
      unfolding rows evidence_scope_def by simp_all
  qed
  have old: "lot_audited t m" if m: "m \<in> set (lots s)" for m
  proof -
    have a: "lot_origin s m" "lot_refunds_ok s m" "liability_booked m s" "unlocked_once s m"
      using ev(2) m by (simp_all add: lot_audited_def)
    have neq: "l_id m \<noteq> l_id l" using l(2) m by (metis imageI)
    have "l_id m \<notin> sp_lot ` set xs" using xs neq by (auto simp: split_origin_def split: if_splits)
    then have "lot_origin t m" by (intro lot_origin_stays [OF a(1) gr _ _ t(3)]) (auto simp: t prot)
    moreover have "lot_refunds_ok t m"
      by (rule lot_refunds_stay [OF a(2) gr]) (simp_all add: lot_refunds_def t of_delivery_def)
    moreover have "unlocked_once t m" by (rule unlocked_once_stays [OF a(4) gr]) (auto simp: of_delivery_def journal_key_def)
    moreover have "liability_booked m t" by (rule liability_same_rows [OF _ _ a(3)]) (simp_all add: rows neq)
    ultimately show ?thesis by (simp add: lot_audited_def)
  qed
  have "lot_origin t l"
    unfolding lot_origin_def
  proof (intro conjI bexI [of _ d] l(3-5))
    show "if l_id l \<notin> sp_lot ` set (commission_splits t) then l_commission l = 0 \<and> \<not> protected_contract (ds_contract d) t
      else \<exists>x \<in> set (commission_splits t). \<exists>p \<in> set (commission_periods t). split_origin t l d x p"
    proof (cases "xs = []")
      case True
      with xs nosplit show ?thesis by (simp add: t prot)
    next
      case False
      with xs obtain x p where x: "xs = [x]" "p \<in> set (commission_periods s)" "split_origin t l d x p" by auto
      then have "sp_lot x = l_id l" by (simp add: split_origin_def)
      with x have "l_id l \<in> sp_lot ` set (commission_splits t)" "\<exists>x \<in> set (commission_splits t). \<exists>p \<in> set (commission_periods t). split_origin t l d x p"
        unfolding t(3,4) by simp_all blast
      then show ?thesis by simp
    qed
  qed (use fl t in simp_all)
  have "lot_refunds (l_id l) t = []"
    using ev(1) l(2) unfolding lot_refunds_def t evidence_scope_def filter_empty_conv by (metis imageI subsetD)
  moreover have "l_amount l div 2 div l_amount l = 0" using fl(6) by (intro div_pos_pos_trivial) (auto simp: lot_check_def)
  ultimately have "lot_refunds_ok t l" using fl by (simp add: lot_refunds_ok_def refund_share_ok_def)
  moreover have "liability_booked l t"
  proof -
    have "acct_rows ''platform_commission_pending'' (l_id l) s = []" "acct_rows ''platform_commission_revenue'' (l_id l) s = []"
      using ev(1) l(2) by (simp_all add: evidence_scope_def)
    then show ?thesis
      using sum_is_snoc [of "[]" 0 "- l_commission l"] fl lot_range(6) [OF fl(6) l(3)]
      by (auto simp: liability_booked_def rows i64_defs lot_check_def)
  qed
  moreover have "unlocked_once t l"
  proof -
    have old: "journal_key i \<noteq> (''earning_lot'', l_id l, ''unlock'')" if "i \<in> set (journals s)" for i
      using that ev(1) l(2) unfolding evidence_scope_def journal_key_def by (metis prod.inject)
    have "journal_key i \<noteq> (''earning_lot'', l_id l, ''unlock'')" if "i \<in> set (journals t)" for i
      using that js(1,3) old [of i] foreign_key(1) [OF js(2)] by (auto simp: journal_key_def commission_journals_def)
    then have "(''earning_lot'', l_id l, ''unlock'') \<notin> journal_key ` set (journals t)" by (force simp: image_iff)
    then show ?thesis by (simp add: unlocked_once_def)
  qed
  moreover have "terms_ok t" using ev(3) by (simp add: terms_ok_def backed_def t tm)
  ultimately show ?thesis using \<open>lot_origin t l\<close> scope old t(2) by (simp add: lot_audited_def)
qed


section \<open>Every command keeps the evidence\<close>

lemma neutral_trans: "neutral s t \<Longrightarrow> neutral t u \<Longrightarrow> neutral s u"
  by (auto simp: neutral_def intro: growth.R_trans kept_trans)

lemma neutral_silent:
  "silent s t \<Longrightarrow> kept s t \<Longrightarrow> map lot_money (lots t) = map lot_money (lots s) \<Longrightarrow> commission_refunds t = commission_refunds s \<Longrightarrow> neutral s t"
  using acct_rows_cong [of t s] by (simp add: neutral_def silent_grown silent_def)

lemma reflag_money: "map lot_money (reflag ids s ls) = map lot_money ls"
  by (simp add: reflag_def lot_money_def)

lemma neutral_held: "held ids s t \<Longrightarrow> silent s t \<Longrightarrow> neutral s t"
  by (rule neutral_silent) (auto simp: held_kept held_def reflag_money)

definition evidenced :: "'a market_db_scheme \<Rightarrow> bool" where
  "evidenced s \<longleftrightarrow> terms_ok s \<and> evidence_scope s \<and> (\<forall>l \<in> set (lots s). lot_audited s l)"

lemma neutral_evidenced: "neutral s t \<Longrightarrow> evidenced s \<Longrightarrow> evidenced t"
  using neutral_evidence terms_ok_kept by (auto simp: evidenced_def neutral_def)

lemma wallet_step_neutral:
  fixes s :: "'a market_db_scheme"
  assumes "spares c"
  shows "neutral s (wallet_step c s)"
proof -
  have "spared s (wallet_step c s)" by (rule wallet_step_spared [OF assms])
  then have m: "wallet_db.more (wallet_step c s) = wallet_db.more s"
    and r: "\<And>k x. k \<in> set earning_kinds \<Longrightarrow> acct_rows k x (wallet_step c s) = acct_rows k x s" by (auto simp: spared_def)
  show ?thesis
    using more_fields [OF m] r wallet_step_grown [OF assms] by (simp add: neutral_def kept_def earning_kinds_def)
qed

lemma open_dispute_neutral:
  assumes "open_dispute_tx T c buyer reason time s = Inr (v, t)"
  shows "neutral s t"
  using assms
proof (cases rule: open_dispute_cases)
  case (opened k d ids at n s1 s2)
  have s: "silent s t" by (rule withinD [OF silent_ops(8) assms])
  from hold_dispute_held [OF opened(14)] have h: "held (set (dispute_lot_ids (sd_id d) s1)) s1 s2" by simp
  then have "kept s1 s2" "map lot_money (lots s2) = map lot_money (lots s1)" "commission_refunds s2 = commission_refunds s1"
    by (auto simp: held_kept held_def reflag_money)
  moreover have "kept s s1" "lots s1 = lots s" "commission_refunds s1 = commission_refunds s" by (simp_all add: opened(13) kept_def)
  moreover have "kept s2 t" "lots t = lots s2" "commission_refunds t = commission_refunds s2"
    by (subst opened(15), simp add: kept_def)+
  ultimately show ?thesis by (intro neutral_silent [OF s]) (auto intro: kept_trans)
qed (simp add: neutral_silent silence.R_refl)

lemma try_unlock_evidenced:
  assumes op: "try_unlock_tx T l at s = Inr (n, t)" and inv: "earn_inv s" and ev: "evidenced s"
    and l: "lot_ident l \<in> lot_ident ` set (lots s)"
  shows "evidenced t"
proof (cases "unlock_lot_tx (l_id l) (l_provider l) (pending_net l) (l_unlock_at l) at s")
  case (Inr z)
  then have u: "unlock_lot_tx (l_id l) (l_provider l) (pending_net l) (l_unlock_at l) at s = Inr (fst z, t)"
    using op by (auto simp: try_unlock_tx_def split: prod.splits)
  have prov: "l_provider m = l_provider l" if "m \<in> set (lots s)" "l_id m = l_id l" for m
  proof -
    from l obtain k where k: "k \<in> set (lots s)" "lot_ident k = lot_ident l" by auto
    then have "k = m" using that l_id_inj inv by (metis earn_inv_def lots_ok_def lot_ident_def prod.inject)
    with k show ?thesis by (simp add: lot_ident_def)
  qed
  have "terms_ok t" using terms_ok_kept [OF unlock_lot_inv(2) [OF u inv prov]] ev by (simp add: evidenced_def)
  with unlock_evidence [OF u inv prov] ev show ?thesis by (simp add: evidenced_def)
next
  case (Inl e)
  with op obtain x where h: "hold_failed_unlock_tx T (l_id l) at s = Inr (x, t)"
    by (auto simp: try_unlock_tx_def tx_simps)
  from neutral_held [OF hold_failed_unlock_held [OF h] withinD [OF silent_ops(7) h]] ev
  show ?thesis by (rule neutral_evidenced)
qed

text \<open>What one attempt keeps, a whole batch keeps.\<close>

lemma unlock_rows_rule:
  assumes "unlock_rows_tx T ls at_utc at s = Inr (n, t)" "earn_inv s" "Q s" "lot_ident ` set ls \<subseteq> lot_ident ` set (lots s)"
    and step: "\<And>s l n t. try_unlock_tx T l at s = Inr (n, t) \<Longrightarrow> earn_inv s \<Longrightarrow> Q s \<Longrightarrow> lot_ident l \<in> lot_ident ` set (lots s) \<Longrightarrow> Q t"
  shows "Q t"
  using assms(1-4)
proof (induction ls arbitrary: s n)
  case (Cons l ls)
  from Cons.prems(1) obtain m where "parse_utc T (l_unlock_at l) = Inr m"
    and rest: "(if at_utc < m then unlock_rows_tx T ls at_utc at
      else bind_tx (try_unlock_tx T l at) (\<lambda>n. bind_tx (unlock_rows_tx T ls at_utc at) (\<lambda>m. return_tx (n + m)))) s = Inr (n, t)"
    by (auto simp: tx_simps)
  show ?case
  proof (cases "at_utc < m")
    case True
    with rest Cons.IH [of s n] Cons.prems(2-4) show ?thesis by simp
  next
    case False
    with rest obtain a b u where one: "try_unlock_tx T l at s = Inr (a, u)" and more: "unlock_rows_tx T ls at_utc at u = Inr (b, t)"
      by (auto simp: tx_simps)
    have l: "lot_ident l \<in> lot_ident ` set (lots s)" using Cons.prems(4) by simp
    have u: "earn_inv u \<and> kept s u" by (rule try_unlock_inv [OF one Cons.prems(2) l])
    then have "lot_ident ` set ls \<subseteq> lot_ident ` set (lots u)" using Cons.prems(4) kept_idents [of s u] by simp
    with Cons.IH [OF more] u step [OF one Cons.prems(2,3) l] show ?thesis by blast
  qed
qed (simp add: tx_simps)

lemma unlock_batch_rule:
  assumes "unlock_due_earnings_isolated T at limit s = Inr (n, t)" "earn_inv s" "Q s"
    and "\<And>s l n t. try_unlock_tx T l at s = Inr (n, t) \<Longrightarrow> earn_inv s \<Longrightarrow> Q s \<Longrightarrow> lot_ident l \<in> lot_ident ` set (lots s) \<Longrightarrow> Q t"
  shows "Q t"
proof -
  from assms(1) obtain at_utc where op: "unlock_rows_tx T (due_lots limit s) at_utc at s = Inr (n, t)"
    by (auto simp: unlock_due_earnings_isolated_def tx_simps)
  have "set (due_lots limit s) \<subseteq> set (lots s)"
    by (auto simp: due_lots_def dest!: in_set_takeD)
  then show ?thesis by (intro unlock_rows_rule [where Q = Q, OF op assms(2,3) _ assms(4)] image_mono)
qed

lemma unlock_batch_evidenced:
  assumes "unlock_due_earnings_isolated T at limit s = Inr (n, t)" "earn_inv s" "evidenced s"
  shows "evidenced t"
  using assms by (rule unlock_batch_rule) (rule try_unlock_evidenced)

text \<open>Resolving refunds the lots; closing, releasing and auditing the dispute moves no money.\<close>

lemma resolve_dispute_shape:
  assumes "resolve_dispute_tx safe did owner ver resolution units time s = Inr (v, t)"
  obtains d s1 where "d \<in> set (service_disputes s)" "sd_id d = did" "0 \<le> units"
    "refund_lots_tx d (refundable_lots did s) units time s = Inr (0, s1)" "neutral s1 t"
  using assms
proof (cases rule: resolve_dispute_cases)
  case (1 d s1 s2 n s3)
  have "neutral s1 s2" by (rule neutral_silent) (simp_all add: 1(8) silent_def kept_def)
  moreover have "neutral s2 s3"
    using release_holds_held [OF 1(9)] neutral_held withinD [OF silent_ops(6) 1(9)] by blast
  moreover have "neutral s3 t"
  proof (rule neutral_silent)
    show "silent s3 t" using 1(11) by (subst 1(10)) (simp add: silent_def)
  qed (subst 1(10), simp add: kept_def)+
  moreover have "0 \<le> units" using 1(6) by (auto simp: refund_amount_ok_def)
  ultimately show thesis using that 1(1,2,7) neutral_trans by blast
qed

lemma resolve_dispute_rule:
  assumes op: "resolve_dispute_tx safe did owner ver resolution units time s = Inr (v, t)" and inv: "earn_inv s"
  obtains d s1 where "d \<in> set (service_disputes s)" "sd_id d = did" "earn_inv s1" "kept s s1" "neutral s1 t"
    "\<And>w. posted_of w s1 = posted_of w s + (if w = sd_buyer d then units else 0)"
    "\<And>Q. Q s \<Longrightarrow> (\<And>s l taken x t. refund_lot_tx d (refundable_of l) taken time s = Inr (x, t) \<Longrightarrow> earn_inv s \<Longrightarrow> Q s \<Longrightarrow> l \<in> set (lots s)
      \<Longrightarrow> l_provider l = sd_provider d \<Longrightarrow> l_buyer l = sd_buyer d \<Longrightarrow> refund_share_ok l \<Longrightarrow> 0 < taken
      \<Longrightarrow> taken \<le> refundable_gross (refundable_of l) \<Longrightarrow> Q t) \<Longrightarrow> Q s1"
  using op
proof (cases rule: resolve_dispute_shape)
  case (1 d s1)
  have ok: "lots_ok s" "refs_ok s" "parties_ok s" using inv by (auto simp: earn_inv_def)
  note rule = refund_lots_inv [OF 1(4) inv 1(3) refundable_lots_distinct [OF ok(1,2)] refundable_lots_parties [OF ok(3) 1(1,2)]]
  have s1: "earn_inv s1" "kept s s1" "\<And>w. posted_of w s1 = posted_of w s + (if w = sd_buyer d then units else 0)"
    using rule [of "\<lambda>_. True"] by auto
  show thesis by (rule that [OF 1(1,2) s1(1,2) 1(5) s1(3)]) (rule rule [THEN conjunct2, THEN conjunct1])
qed

lemma resolve_dispute_evidenced:
  assumes op: "resolve_dispute_tx safe did owner ver resolution units time s = Inr (v, t)" and inv: "earn_inv s" and ev: "evidenced s"
  shows "evidenced t"
proof (rule resolve_dispute_rule [OF op inv])
  fix d s1
  assume s1: "kept s s1" "neutral s1 t" and rule: "\<And>Q. Q s \<Longrightarrow> (\<And>s l taken x t. refund_lot_tx d (refundable_of l) taken time s = Inr (x, t)
      \<Longrightarrow> earn_inv s \<Longrightarrow> Q s \<Longrightarrow> l \<in> set (lots s) \<Longrightarrow> l_provider l = sd_provider d \<Longrightarrow> l_buyer l = sd_buyer d \<Longrightarrow> refund_share_ok l
      \<Longrightarrow> 0 < taken \<Longrightarrow> taken \<le> refundable_gross (refundable_of l) \<Longrightarrow> Q t) \<Longrightarrow> Q s1"
  have "evidence_scope s1 \<and> (\<forall>m \<in> set (lots s1). lot_audited s1 m)"
    by (rule rule [of "\<lambda>s. evidence_scope s \<and> (\<forall>m \<in> set (lots s). lot_audited s m)"])
      (use ev in \<open>simp add: evidenced_def\<close>, (assumption | erule refund_evidence)+)
  then have "evidenced s1" using terms_ok_kept [OF s1(1)] ev by (auto simp: evidenced_def)
  with s1(2) show ?thesis by (rule neutral_evidenced)
qed

lemma delivery_ops_evidenced:
  assumes inv: "earn_inv s" "splits_ok s" and ev: "evidenced s"
  shows "record_captured_metered_delivery_tx T ck c batch h buyer prov st en amt now s = Inr (x, t) \<Longrightarrow> evidenced t"
    "record_monthly_delivery_tx T ck c per src buyer prov st en amt dj deb now s = Inr (y, t) \<Longrightarrow> evidenced t"
    "record_share_quota_delivery_tx T e units at s = Inr (z, t) \<Longrightarrow> evidenced t"
proof -
  have w: "wallet_inv s" using inv by (simp add: earn_inv_def)
  have e: "evidence_scope s" "\<forall>m \<in> set (lots s). lot_audited s m" "terms_ok s" using ev by (auto simp: evidenced_def)
  note rule = deliver_evidence [OF _ _ _ _ inv e]
  show "evidenced t" if op: "record_captured_metered_delivery_tx T ck c batch h buyer prov st en amt now s = Inr (x, t)"
    using op
  proof (cases rule: metered_delivery_cases)
    case (1 j s1)
    have "funded prov amt (jr_id j) s s1" by (rule capture_funded [OF 1(1,2) w]) simp
    from rule [OF this 1(3) _ withinD [OF delivery_ops_grown(1) op]] show ?thesis by (simp add: evidenced_def)
  qed
  show "evidenced t" if op: "record_monthly_delivery_tx T ck c per src buyer prov st en amt dj deb now s = Inr (y, t)"
    using op
  proof (cases rule: monthly_delivery_cases)
    case (earned fp j s1)
    have "funded prov amt (jr_id j) s s1" by (rule post_funded [OF earned(1,2) w _ earned(4)]) simp
    from rule [OF this earned(3) _ withinD [OF delivery_ops_grown(2) op]] show ?thesis by (simp add: evidenced_def)
  qed (use ev in simp)
  show "evidenced t" if op: "record_share_quota_delivery_tx T e units at s = Inr (z, t)"
    using op
  proof (cases rule: quota_delivery_cases)
    case (earned c per fp j s1 sid p)
    have "funded (te_provider e) units (jr_id j) s s1" by (rule post_funded [OF earned(3,4) w _ earned(6)]) simp
    from rule [OF this earned(5) _ withinD [OF delivery_ops_grown(3) op]] show ?thesis by (simp add: evidenced_def)
  qed (use ev in simp)
qed

lemma recorded_evidenced:
  "recorded s t \<Longrightarrow> earn_inv s \<Longrightarrow> evidenced s \<Longrightarrow> terms_ok t \<Longrightarrow> evidenced t"
  using recorded_evidence [of s t] unfolding evidenced_def earn_inv_def by blast

lemma policy_ops_recorded:
  assumes ok: "terms_ok s"
  shows "set_policy_tx T e rate actor at s = Inr (x, t) \<Longrightarrow> recorded s t \<and> terms_ok t"
    "freeze_quote_tx T q p at s = Inr (u, t) \<Longrightarrow> recorded s t \<and> terms_ok t"
    "sign_contract_tx c q at s = Inr (u, t) \<Longrightarrow> recorded s t \<and> terms_ok t"
    "freeze_period_tx T i k src first anchor at s = Inr (u, t) \<Longrightarrow> recorded s t \<and> terms_ok t"
proof -
  show "recorded s t \<and> terms_ok t" if "set_policy_tx T e rate actor at s = Inr (x, t)"
    using withinD [OF set_policy_repriced that] repriced_ok ok by blast
qed (simp_all add: freeze_quote_ok ok sign_contract_ok [OF _ ok] freeze_period_ok [OF _ ok])

text \<open>Commands that move no earnings: they only record terms, freeze lots or use other accounts.\<close>

fun moves_earnings :: "earn_cmd \<Rightarrow> bool" where
  "moves_earnings (MeteredDelivery ck c batch h buyer prov st en amt now) = True"
| "moves_earnings (MonthlyDelivery ck c per src buyer prov st en amt dj deb now) = True"
| "moves_earnings (QuotaDelivery e units at) = True"
| "moves_earnings (UnlockBatch at limit) = True"
| "moves_earnings (ResolveDispute d owner ver resolution units time) = True"
| "moves_earnings _ = False"

lemma quiet_step:
  assumes "\<not> moves_earnings c" "terms_ok s"
  shows "neutral s (earn_step T safe c s) \<or> recorded s (earn_step T safe c s) \<and> terms_ok (earn_step T safe c s)"
proof -
  let ?P = "\<lambda>t. neutral s t \<or> recorded s t \<and> terms_ok t"
  have refl: "?P s" by (simp add: neutral_silent silence.R_refl)
  show ?thesis
  proof (cases c)
    case (WalletOp w)
    then show ?thesis using wallet_step_neutral [of w s] refl by simp
  next
    case (UpdateContract i st h)
    have "neutral s (earn_step T safe c s)"
      by (rule neutral_silent) (simp_all add: UpdateContract silent_def kept_def comp_def if_distrib [of pc_id] cong: if_cong)
    then show ?thesis ..
  next
    case (PeriodsChanged ps)
    have "neutral s (earn_step T safe c s)" by (rule neutral_silent) (simp_all add: PeriodsChanged silent_def kept_def)
    then show ?thesis ..
  next
    case (HoldContract k kind time)
    have "neutral s t" if "hold_contract_earnings_tx k kind time s = Inr (x, t)" for x t
      by (rule neutral_held [OF hold_contract_held [OF that] withinD [OF silent_ops(5) that]])
    with HoldContract show ?thesis by (simp only: earn_step.simps) (rule commit_tx_inv [of ?P, OF refl], blast)
  next
    case (ReleaseHolds k r actor why time)
    have "neutral s t" if "release_earning_holds_tx k r actor why time s = Inr (n, t)" for n t
      using release_holds_held [OF that] neutral_held withinD [OF silent_ops(6) that] by blast
    with ReleaseHolds show ?thesis by (simp only: earn_step.simps) (rule commit_tx_inv [of ?P, OF refl], blast)
  next
    case (OpenDispute k buyer reason time)
    then show ?thesis by (simp only: earn_step.simps) (rule commit_tx_inv [of ?P, OF refl], drule open_dispute_neutral, blast)
  qed (use assms(1) in \<open>simp_all only: earn_step.simps moves_earnings.simps not_True_eq_False\<close>,
      (rule commit_tx_inv [of ?P, OF refl], drule policy_ops_recorded [OF assms(2)], blast)+)
qed

lemma earn_step_evidenced:
  assumes inv: "earn_inv s" "splits_ok s" and ev: "evidenced s"
  shows "evidenced (earn_step T safe c s)"
proof (cases "moves_earnings c")
  case False
  have "terms_ok s" using ev by (simp add: evidenced_def)
  from quiet_step [OF False this, of T safe] show ?thesis
    using neutral_evidenced [OF _ ev] recorded_evidenced [OF _ inv(1) ev] by blast
next
  case True
  then show ?thesis
    by (cases c) (simp_all only: earn_step.simps moves_earnings.simps simp_thms,
      (rule commit_tx_inv [of evidenced, OF ev] when_tx_inv [of evidenced, OF ev],
       erule delivery_ops_evidenced [OF inv ev] unlock_batch_evidenced [OF _ inv(1) ev] resolve_dispute_evidenced [OF _ inv(1) ev])+)
qed

definition audit_inv :: "time_lib \<Rightarrow> 'a market_db_scheme \<Rightarrow> bool" where
  "audit_inv T s \<longleftrightarrow> history_inv T s \<and> fresh_ids s \<and> evidenced s"

interpretation audit: safe_machine "earn_step T safe" "audit_inv T"
proof unfold_locales
  fix s :: "'a market_db_scheme" and c
  assume a: "audit_inv T s"
  then have "history_inv T (earn_step T safe c s)" using history.run_inv [of T s safe "[c]"] by (simp add: audit_inv_def)
  moreover have "fresh_ids (earn_step T safe c s)" using a grown_fresh [OF earn_step_grown] unfolding audit_inv_def by blast
  moreover have "evidenced (earn_step T safe c s)"
    using a earn_step_evidenced by (auto simp: audit_inv_def history_inv_def)
  ultimately show "audit_inv T (earn_step T safe c s)" by (simp add: audit_inv_def)
qed

lemma new_market_audit: "audit_inv T (new_market ids at)"
  using new_market_inv
  by (simp add: audit_inv_def fresh_ids_def evidenced_def terms_ok_def evidence_scope_def new_market_def acct_rows_def)

lemmas reachable_audit = audit.run_inv [OF new_market_audit]

end
