(* ===== verification/Earning_Guarantees.thy ===== *)
theory Earning_Guarantees
  imports Earning_Audit
begin

text \<open>
  The guarantees of Provider earnings over every reachable state of the earnings
  machine: the books of the Providers and of the platform, the commissions of a period,
  the references between the tables, and what unlocking and disputes do.
\<close>


section \<open>A concrete market\<close>

text \<open>
  Instants of this clock are small: \<open>a\<close> is 0, \<open>b\<close> and \<open>c\<close> follow, and \<open>m\<close> is seven days
  after \<open>c\<close>. A Buyer pays in, signs and reserves a budget, a metered batch is delivered,
  and the Buyer disputes it.
\<close>

definition sample_time :: time_lib where
  "sample_time = \<lparr>
     parse_rfc3339 = (\<lambda>v. if v = ''a'' then Some 0 else if v = ''b'' then Some 1 else if v = ''c'' then Some 2
        else if v = ''m'' then Some (days 7 + 1) else if v = ''n'' then Some (days 7 + 2)
        else if v = ''1970-01-01T00:00:00+00:00'' then Some 0 else None),
     to_rfc3339 = (\<lambda>t. if t = 0 then ''a'' else if t = 1 then ''b'' else if t = 2 then ''c''
        else if t = days 7 + 1 then ''m'' else ''n''),
     julianday = (\<lambda>v. if v = ''a'' then Some 0 else if v = ''b'' then Some 0 else if v = ''c'' then Some 0
        else if v = ''m'' then Some 604800000 else if v = ''n'' then Some 604800000
        else if v = ''1970-01-01T00:00:00+00:00'' then Some 0 else None),
     utc_range = (\<lambda>t. t \<in> {0, 1, 2, days 7 + 1, days 7 + 2}), utc_now = 0\<rparr>"

definition sample_contract :: contract_row where
  "sample_contract = \<lparr>pc_id = ''k'', pc_buyer = ''u'', pc_provider = ''p'', pc_status = ''active'',
     pc_budget_hold = Some (replicate 5 CHR ''i'')\<rparr>"

definition paid_market :: "earn_cmd list" where
  "paid_market = [
     WalletOp (OrdersChanged (\<lambda>x. if x = ''o'' then Some sample_order else None) []),
     WalletOp (CreditVerified ''u'' ''o'' 105 ''receipt'' ''a''),
     WalletOp (Reserve ''u'' ''contract'' ''k'' ''budget'' 1000000 None ''a''),
     FreezeQuote ''q'' ''p'' ''a'',
     SignContract sample_contract ''q'' ''a'',
     FreezePeriod ''k'' ''metered_budget'' (replicate 5 CHR ''i'') True ''a'' ''a'']"

definition delivered_market :: "earn_cmd list" where
  "delivered_market = paid_market @ [
     MeteredDelivery ''share'' ''k'' ''b1'' (replicate 5 CHR ''i'') ''u'' ''p'' ''a'' ''b'' 864005 ''b'']"


abbreviation sample_run :: "earn_cmd list \<Rightarrow> market_db" where
  "sample_run cs \<equiv> run_machine (earn_step sample_time (\<lambda>_ _. Inr ())) cs (new_market sample_ids ''a'')"

section \<open>The books\<close>












section \<open>Commissions\<close>

definition period_lots :: "string \<Rightarrow> 'a market_db_scheme \<Rightarrow> lot_row list" where
  "period_lots period s =
     filter (\<lambda>l. list_ex (\<lambda>x. sp_lot x = l_id l \<and> sp_period x = period) (commission_splits s)) (lots s)"

lemma find_lot_member: "distinct (map l_id (lots s)) \<Longrightarrow> l \<in> set (lots s) \<Longrightarrow> find_lot (l_id l) s = Some l"
  using l_id_inj [of "lots s"] by (cases "find_lot (l_id l) s") (auto simp: find_lot_def find_Some_iff find_None_iff)

lemma period_lots_sum:
  assumes ok: "splits_ok s" "distinct (map l_id (lots s))"
    and fg: "\<And>x l. x \<in> set (commission_splits s) \<Longrightarrow> l \<in> set (lots s) \<Longrightarrow> l_id l = sp_lot x \<Longrightarrow> f l = (g x :: int)"
  shows "sum_list (map f (period_lots i s)) = sum_list (map g (period_splits i s))"
proof -
  let ?A = "set (period_splits i s)" and ?B = "set (period_lots i s)" and ?h = "\<lambda>x. the (find_lot (sp_lot x) s)"
  have d: "distinct (lots s)" "distinct (commission_splits s)"
    using ok by (auto simp: splits_ok_def distinct_map)
  have lot: "?h x \<in> set (lots s) \<and> l_id (?h x) = sp_lot x" if "x \<in> set (commission_splits s)" for x
  proof -
    from that ok(1) obtain l where "l \<in> set (lots s)" "l_id l = sp_lot x" unfolding splits_ok_def by blast
    then show ?thesis using find_lot_member [OF ok(2), of l] by simp
  qed
  have inj: "x = y" if "x \<in> set (commission_splits s)" "y \<in> set (commission_splits s)" "sp_lot x = sp_lot y" for x y
    using that ok(1) by (metis splits_ok_def distinct_map inj_onD)
  have "sum g ?A = sum f ?B"
  proof (rule sum.eq_general [of ?B ?A ?h f g])
    fix l
    assume "l \<in> ?B"
    then obtain x where x: "x \<in> ?A" "sp_lot x = l_id l" and l: "l \<in> set (lots s)"
      by (auto simp: period_lots_def period_splits_def list_ex_iff)
    show "\<exists>!x. x \<in> ?A \<and> ?h x = l"
    proof (rule ex1I [of _ x])
      show "x \<in> ?A \<and> ?h x = l" using x find_lot_member [OF ok(2) l] by simp
    next
      fix y
      assume y: "y \<in> ?A \<and> ?h y = l"
      then have "y \<in> set (commission_splits s)" "x \<in> set (commission_splits s)" using x(1) by (simp_all add: period_splits_def)
      moreover from this(1) have "l_id l = sp_lot y" using lot [of y] y by simp
      ultimately show "y = x" using inj [of y x] x(2) by simp
    qed
  next
    fix x
    assume "x \<in> ?A"
    then have x: "x \<in> set (commission_splits s)" "sp_period x = i" by (auto simp: period_splits_def)
    note h = lot [OF x(1), THEN conjunct1] lot [OF x(1), THEN conjunct2]
    have "list_ex (\<lambda>y. sp_lot y = l_id (?h x) \<and> sp_period y = i) (commission_splits s)"
      using x h(2) unfolding list_ex_iff by (intro bexI [of _ x]) simp_all
    then show "?h x \<in> ?B \<and> f (?h x) = g x"
      using h(1) fg [OF x(1) h] by (simp add: period_lots_def)
  qed
  then show ?thesis
    using d by (simp add: sum_list_distinct_conv_sum_set period_lots_def period_splits_def)
qed

lemma period_fee_exact:
  assumes ok: "splits_ok s" "lots_ok s" and p: "p \<in> set (commission_periods s)"
  shows "cumulative_fee (sum_list (map l_amount (period_lots (pe_id p) s))) (pe_rate_bps p)
    = Inr (sum_list (map l_commission (period_lots (pe_id p) s)))"
proof -
  have d: "distinct (map l_id (lots s))" using ok(2) by (simp add: lots_ok_def)
  have one: "l_amount l = sp_gross_after x - sp_gross_before x \<and> l_commission l = sp_fee_after x - sp_fee_before x"
    if "x \<in> set (commission_splits s)" "l \<in> set (lots s)" "l_id l = sp_lot x" for x l
  proof -
    from that(1) ok(1) obtain m where "m \<in> set (lots s)" "l_id m = sp_lot x" "l_amount m = sp_gross_after x - sp_gross_before x"
      "l_commission m = sp_fee_after x - sp_fee_before x" unfolding splits_ok_def by blast
    with l_id_inj [OF d _ that(2), of m] that(3) show ?thesis by simp
  qed
  have "sum_list (map l_amount (period_lots (pe_id p) s))
      = sum_list (map (\<lambda>x. sp_gross_after x - sp_gross_before x) (period_splits (pe_id p) s))"
    "sum_list (map l_commission (period_lots (pe_id p) s))
      = sum_list (map (\<lambda>x. sp_fee_after x - sp_fee_before x) (period_splits (pe_id p) s))"
    by (rule period_lots_sum [OF ok(1) d], simp add: one)+
  moreover have "chain (pe_rate_bps p) 0 (period_splits (pe_id p) s)" "cumulative_fee 0 (pe_rate_bps p) = Inr 0"
    using ok(1) p by (auto simp: splits_ok_def cumulative_fee_def)
  ultimately show ?thesis using chain_sums by simp
qed

text \<open>
  C9. In every reachable state the commission of a service period is the half-up rounded
  share of everything delivered in it: however a service was cut into deliveries, the
  fees of its lots add up to the fee of the total, with no rounding left over.
\<close>

theorem commission_independent_of_partition:
  "list_all (\<lambda>p. cumulative_fee
        (sum_list (map l_amount (period_lots (pe_id p) (run_machine (earn_step T safe) cs (new_market ids at))))) (pe_rate_bps p)
      = Inr (sum_list (map l_commission (period_lots (pe_id p) (run_machine (earn_step T safe) cs (new_market ids at))))))
    (commission_periods (run_machine (earn_step T safe) cs (new_market ids at)))"
  unfolding list_all_iff
  by (intro ballI period_fee_exact) (use reachable_history [of T safe cs ids at] in \<open>simp_all add: history_inv_def earn_inv_def\<close>)




section \<open>Policies and disputes\<close>

lemma queued_policies: "queued_only s t \<Longrightarrow> commission_policies t = commission_policies s"
  by (auto elim!: queued_onlyE)

lemma set_policy_cases:
  assumes "set_policy_tx T e rate actor at s = Inr (v, t)"
  obtains b u now eff ver s0 s1 s2 a s3 s4 x y z w where "rate_check rate" "view_tx T at True s = Inr (b, u)" "e = pv_version b"
    "(case parse_rfc3339 T at of None \<Rightarrow> Inl (Internal ''invalid commission policy time'') | Some time \<Rightarrow> Inr time) = Inr now"
    "(if tm_rate_bps (pv_current b) < rate then add_days T now 7 else Inr now) = Inr eff"
    "(case checked_add64 (pv_version b) 1 of None \<Rightarrow> Inl (Internal ''commission version overflow'') | Some v \<Rightarrow> Inr v) = Inr ver"
    "update_control_tx (pv_version b) ver u = Inr (1, s0)"
    "insert_policy_tx \<lparr>cp_version = ver, cp_rate_bps = rate, cp_effective_at = to_rfc3339 T eff, cp_actor = actor, cp_created_at = at\<rparr> s0
      = Inr (x, s1)"
    "(case pv_scheduled b of None \<Rightarrow> return_tx () | Some pending \<Rightarrow> insert_cancellation_tx \<lparr>cc_policy_version = tm_policy_version pending,
        cc_replaced_by = ver, cc_created_at = at\<rparr>) s1 = Inr (y, s2)"
    "view_tx T at True s2 = Inr (a, s3)"
    "owner_signal_tx T ''commission_policy_changed'' ''commission_policy'' (show_int ver)
      (JObject [(''actorUserId'', JString actor), (''before'', view_json b), (''after'', view_json a)]) at False s3 = Inr (z, s4)"
    "notify_policy_tx (notice_recipients s4) ver rate (to_rfc3339 T eff) at s4 = Inr (w, t)"
  using assms unfolding set_policy_tx_def Let_def tx_simps by clarify (rule that, (assumption | rule refl)+)

lemma view_Inr:
  assumes "view_tx T at edit s = Inr (b, u)"
  shows "u = s" "terms_at_tx T at s = Inr (pv_current b, s)" "pv_version b = commission_version s"
  using assms by (auto simp: view_tx_def terms_at_tx_def tx_simps split: option.splits)

text \<open>
  C20. A commission change is prospective. When it succeeds, it records one new policy with
  the next version: a higher rate takes effect seven days later, a lower or equal rate at
  once. The terms frozen in quotes, contracts and periods, and the lots, stay as they were.
\<close>

theorem policy_change_prospective:
  assumes "set_policy_tx T e rate actor at s = Inr (v, t)"
  shows "\<exists>c now p. terms_at_tx T at s = Inr (c, s) \<and> parse_rfc3339 T at = Some now
    \<and> commission_policies t = commission_policies s @ [p] \<and> cp_version p = e + 1 \<and> commission_version s = e
    \<and> cp_rate_bps p = rate \<and> 0 \<le> rate \<and> rate \<le> 10000
    \<and> cp_effective_at p = to_rfc3339 T (if tm_rate_bps c < rate then now + days 7 else now)
    \<and> quote_terms t = quote_terms s \<and> contract_terms t = contract_terms s
    \<and> commission_periods t = commission_periods s \<and> lots t = lots s"
proof -
  have frame: "repriced s t" by (rule withinD [OF set_policy_repriced assms])
  from assms show ?thesis
  proof (cases rule: set_policy_cases)
    case (1 b u now eff ver s0 s1 s2 a s3 s4 x y z w)
    note us = view_Inr [OF 1(2)] view_Inr(1) [OF 1(10)]
    have ver: "ver = e + 1" using 1(3,6) by (auto simp: checked_add64_def checked_i64_def split: if_splits)
    have "commission_policies s0 = commission_policies s" using 1(7) us(1) by (auto simp: update_control_tx_def split: if_splits)
    then have "commission_policies s1 = commission_policies s @ [\<lparr>cp_version = ver, cp_rate_bps = rate, cp_effective_at = to_rfc3339 T eff,
        cp_actor = actor, cp_created_at = at\<rparr>]" using 1(8) by (auto simp: insert_policy_tx_def split: if_splits)
    moreover have "commission_policies s2 = commission_policies s1"
      using 1(9) by (auto simp: insert_cancellation_tx_def tx_simps split: option.splits if_splits)
    moreover have "commission_policies t = commission_policies s2"
      using queued_policies [OF withinD [OF owner_signal_queued 1(11)]] queued_policies [OF withinD [OF notify_policy_queued 1(12)]] us(4) by simp
    moreover have "eff = (if tm_rate_bps (pv_current b) < rate then now + days 7 else now)"
      using 1(5) by (auto simp: add_days_def split: if_splits)
    moreover have "parse_rfc3339 T at = Some now" using 1(4) by (auto split: option.splits)
    moreover have "0 \<le> rate" "rate \<le> 10000" using 1(1) by (simp_all add: rate_check_def)
    moreover have "quote_terms t = quote_terms s" "contract_terms t = contract_terms s" "commission_periods t = commission_periods s"
      "lots t = lots s" using frame by (simp_all add: repriced_def)
    ultimately show ?thesis
      using us(2,3) 1(3) ver
      by (intro exI [of _ "pv_current b"] exI [of _ now] exI [of _ "\<lparr>cp_version = ver, cp_rate_bps = rate,
        cp_effective_at = to_rfc3339 T eff, cp_actor = actor, cp_created_at = at\<rparr>"]) simp
  qed
qed

theorem policy_change_prospective_witness:
  "(case set_policy_tx sample_time 1 1200 ''o'' ''b'' (sample_run delivered_market) of
      Inl _ \<Rightarrow> False | Inr (v, t) \<Rightarrow> map cp_effective_at (commission_policies t) = [''1970-01-01T00:00:00+00:00'', ''m''])"
proof -
  have "(case set_policy_tx sample_time 1 1200 ''o'' ''b'' (sample_run delivered_market) of Inl _ \<Rightarrow> False | Inr _ \<Rightarrow> True)"
    "map cp_effective_at (commission_policies (sample_run delivered_market)) = [''1970-01-01T00:00:00+00:00'']"
    "(case terms_at_tx sample_time ''b'' (sample_run delivered_market) of Inl _ \<Rightarrow> False | Inr (c, _) \<Rightarrow> tm_rate_bps c < 1200)"
    "parse_rfc3339 sample_time ''b'' = Some 1" "to_rfc3339 sample_time (1 + days 7) = ''m''"
    by code_simp+
  then show ?thesis
    using policy_change_prospective [of sample_time 1 1200 "''o''" "''b''" "sample_run delivered_market"]
    by (auto split: sum.splits)
qed



end
