(* ===== verification/Earning_Unlock.thy ===== *)
theory Earning_Unlock
  imports Earning_Guarantees
begin

text \<open>
  Maturity of earnings (\<open>unlock_due_earnings_isolated\<close> of \<open>src/src/market_finance.rs\<close>).
  The audit that guards every unlock (\<open>lot_evidence_valid_tx\<close> of
  \<open>src/src/market_commission.rs\<close>) accepts every lot the service can have created, and
  posting under fresh identifiers cannot fail; so a batch pays out exactly what is due
  and its failure path, which freezes a lot for review, is never taken.
\<close>


section \<open>Every lot passes its audit\<close>

lemma chain_member:
  assumes "chain rate g xs" "x \<in> set xs"
  shows "cumulative_fee (sp_gross_before x) rate = Inr (sp_fee_before x)"
    "cumulative_fee (sp_gross_after x) rate = Inr (sp_fee_after x)"
    "sp_gross_before x = g \<or> (\<exists>y \<in> set xs. sp_gross_after y = sp_gross_before x \<and> sp_fee_after y = sp_fee_before x)"
  using assms
proof (induction xs arbitrary: g)
  case (Cons y ys)
  {
    case 1
    with Cons.IH(1) show ?case by auto
  next
    case 2
    with Cons.IH(2) show ?case by auto
  next
    case 3
    show ?case
    proof (cases "x = y")
      case False
      then have x: "x \<in> set ys" "chain rate (sp_gross_after y) ys" "cumulative_fee (sp_gross_after y) rate = Inr (sp_fee_after y)"
        using 3 by auto
      from Cons.IH(3) [OF x(2,1)] show ?thesis using Cons.IH(1) [OF x(2,1)] x(3) by force
    qed (use 3 in simp)
  }
qed simp_all

lemma sum_is_single: "in_i64 x \<Longrightarrow> sum_is [x] x"
  by (simp add: sum_is_def sql_sum_def checked_add64_def checked_i64_def)

lemma find_unique: "distinct (map f xs) \<Longrightarrow> x \<in> set xs \<Longrightarrow> P x \<Longrightarrow> (\<And>y. P y \<Longrightarrow> f y = f x) \<Longrightarrow> find P xs = Some x"
proof (induction xs)
  case (Cons y ys)
  show ?case
  proof (cases "P y")
    case True
    then have "f y = f x" by (rule Cons.prems(4))
    with Cons.prems(1,2) have "x = y" by force
    with True show ?thesis by simp
  next
    case False
    then have "x \<in> set ys" "distinct (map f ys)" using Cons.prems(1,2,3) by auto
    from Cons.IH [OF this(2,1) Cons.prems(3,4)] False show ?thesis by simp
  qed
qed simp

lemma split_recorded_origin:
  assumes inv: "earn_inv s" "splits_ok s" "evidenced s" and l: "l \<in> set (lots s)"
    and x: "x \<in> set (commission_splits s)" and p: "p \<in> set (commission_periods s)" and o: "split_origin s l d x p"
  shows "split_recorded l d x p s"
    "cumulative_fee (sp_gross_before x) (pe_rate_bps p) = Inr (sp_fee_before x)"
    "cumulative_fee (sp_gross_after x) (pe_rate_bps p) = Inr (sp_fee_after x)"
proof -
  have ch: "chain (pe_rate_bps p) 0 (period_splits (pe_id p) s)" and z: "cumulative_fee 0 (pe_rate_bps p) = Inr 0"
    using inv(2) p by (auto simp: splits_ok_def cumulative_fee_def)
  have m: "x \<in> set (period_splits (pe_id p) s)" using x o by (simp add: period_splits_def split_origin_def)
  note c = chain_member [OF ch m]
  show "cumulative_fee (sp_gross_before x) (pe_rate_bps p) = Inr (sp_fee_before x)"
    "cumulative_fee (sp_gross_after x) (pe_rate_bps p) = Inr (sp_fee_after x)" by (rule c)+
  have "(sp_gross_before x = 0 \<and> sp_fee_before x = 0) \<or> (\<exists>prev \<in> set (commission_splits s). sp_period prev = sp_period x
      \<and> sp_gross_after prev = sp_gross_before x \<and> sp_fee_after prev = sp_fee_before x)"
    using c(1,3) z m by (auto simp: period_splits_def)
  moreover from x inv(2) obtain k where "k \<in> set (lots s)" "l_id k = sp_lot x" "l_amount k = sp_gross_after x - sp_gross_before x"
    "l_commission k = sp_fee_after x - sp_fee_before x" unfolding splits_ok_def by blast
  moreover from this have "k = l" using l_id_inj [OF _ _ l] inv(1) o by (simp add: earn_inv_def lots_ok_def split_origin_def)
  moreover have "lot_audited s l" "backed s (pe_policy_version p) (pe_rate_bps p)"
    using inv(3) l p by (auto simp: evidenced_def terms_ok_def)
  moreover have "in_i64 (l_amount l)" "0 < l_amount l"
    using \<open>lot_audited s l\<close> inv(1) l by (simp_all add: lot_audited_def lot_origin_def earn_inv_def lots_ok_def lot_check_def)
  then have "in_i64 (- l_amount l)" by (simp add: in_i64_def i64_min_def i64_max_def)
  moreover have "map s_journal (seals s) = map j_id (journals s)"
    using inv(1) by (simp add: earn_inv_def wallet_inv_def ledger_ok_def)
  then have "s_journal ` set (seals s) = j_id ` set (journals s)" by (metis list.set_map)
  ultimately show "split_recorded l d x p s"
    using o sum_is_single [of "- l_amount l"]
    by (simp add: split_recorded_def split_origin_def lot_audited_def lot_refunds_ok_def backed_def)
qed

lemma lot_passes_audit:
  assumes inv: "earn_inv s" "splits_ok s" "evidenced s" and l: "l \<in> set (lots s)"
  shows "lot_evidence_valid_tx (l_id l) s = Inr (True, s)"
proof -
  have d: "distinct (map l_id (lots s))" "distinct (map sp_lot (commission_splits s))" "distinct (map pe_id (commission_periods s))"
    using inv by (simp_all add: earn_inv_def lots_ok_def splits_ok_def)
  have a: "lot_audited s l" "lot_check l" using inv l by (simp_all add: evidenced_def earn_inv_def lots_ok_def)
  from a(1) obtain ds where ds: "ds \<in> set (slices s)" "ds_id ds = l_slice l" "l_amount l = ds_amount ds"
    and u: "if l_id l \<notin> sp_lot ` set (commission_splits s) then l_commission l = 0 \<and> \<not> protected_contract (ds_contract ds) s
      else \<exists>x \<in> set (commission_splits s). \<exists>p \<in> set (commission_periods s). split_origin s l ds x p"
    unfolding lot_audited_def lot_origin_def by auto
  have basics: "lot_basics (l_id l) s \<and> (case split_of (l_id l) s of None \<Rightarrow> True
      | Some (x, p) \<Rightarrow> cumulative_fee (sp_gross_before x) (pe_rate_bps p) = Inr (sp_fee_before x)
          \<and> cumulative_fee (sp_gross_after x) (pe_rate_bps p) = Inr (sp_fee_after x))"
  proof (cases "l_id l \<in> sp_lot ` set (commission_splits s)")
    case True
    with u obtain x p where x: "x \<in> set (commission_splits s)" "p \<in> set (commission_periods s)" and o: "split_origin s l ds x p"
      by auto
    have e: "sp_lot x = l_id l" "pe_id p = sp_period x" using o by (simp_all add: split_origin_def)
    have "find (\<lambda>y. sp_lot y = l_id l \<and> sp_period y \<in> pe_id ` set (commission_periods s)) (commission_splits s) = Some x"
      using x e imageI [OF x(2), of pe_id] by (intro find_unique [OF d(2)]) simp_all
    moreover have "find (\<lambda>q. pe_id q = sp_period x) (commission_periods s) = Some p"
      using e by (intro find_unique [OF d(3) x(2)]) auto
    moreover have "lot_basics (l_id l) s"
      unfolding lot_basics_def using True l ds x e split_recorded_origin(1) [OF inv l x o] by auto
    ultimately show ?thesis
      using split_recorded_origin(2,3) [OF inv l x o] by (simp add: split_of_def)
  next
    case False
    then have none: "find (\<lambda>y. sp_lot y = l_id l \<and> sp_period y \<in> pe_id ` set (commission_periods s)) (commission_splits s) = None"
      unfolding find_None_iff by (metis imageI)
    have "lot_basics (l_id l) s"
      unfolding lot_basics_def using False l ds u a(2)
      by (intro bexI [of _ l] bexI [of _ ds]) (auto simp: unsplit_recorded_def lot_check_def)
    with none show ?thesis by (simp add: split_of_def)
  qed
  moreover have "refund_share_ok l" "\<forall>f \<in> set (lot_refunds (l_id l) s). refund_booked l f s" "liability_booked l s"
    using a(1) by (simp_all add: lot_audited_def lot_refunds_ok_def)
  ultimately show ?thesis
    using find_lot_member [OF d(1) l] by (auto simp: lot_evidence_valid_tx_def tx_simps split: option.splits)
qed

section \<open>Posting under fresh identifiers cannot fail\<close>

definition fresh_supply :: "'a wallet_db_scheme \<Rightarrow> bool" where
  "fresh_supply s \<longleftrightarrow> inj (uuid_supply s) \<and> (\<forall>n. uuid_supply s n \<noteq> []) \<and> fresh_ids s"

lemma next_id_fresh: "inj f \<Longrightarrow> f (n :: nat) \<notin> f ` {..<n}"
  by (simp add: inj_image_mem_iff)

lemma insert_postings_total:
  assumes "inj (uuid_supply s)" "pr_id ` set (postings s) \<subseteq> uuid_supply s ` {..<uuid_drawn s}" "jid \<notin> s_journal ` set (seals s)"
    "\<And>p. p \<in> set ps \<Longrightarrow> p_kind p \<in> set account_kinds \<and> p_units p \<noteq> 0"
  shows "\<exists>rows n. insert_postings_tx jid now ps s = Inr ((), s\<lparr>uuid_drawn := n, postings := postings s @ rows\<rparr>)
    \<and> map row_posting rows = ps \<and> (\<forall>r \<in> set rows. pr_journal r = jid \<and> pr_asset r = ''USD'')"
  using assms
proof (induction ps arbitrary: s)
  case Nil
  show ?case by (rule exI [of _ "[]"], rule exI [of _ "uuid_drawn s"]) (simp add: tx_simps)
next
  case (Cons p ps)
  let ?r = "\<lparr>pr_id = uuid_supply s (uuid_drawn s), pr_journal = jid, pr_kind = p_kind p, pr_subject = p_subject p,
    pr_asset = ''USD'', pr_units = p_units p, pr_created_at = now\<rparr>"
  let ?t = "s\<lparr>uuid_drawn := Suc (uuid_drawn s), postings := postings s @ [?r]\<rparr>"
  have "uuid_supply s (uuid_drawn s) \<notin> pr_id ` set (postings s)"
    using next_id_fresh [OF Cons.prems(1)] Cons.prems(2) by blast
  then have one: "insert_posting_tx ?r (s\<lparr>uuid_drawn := Suc (uuid_drawn s)\<rparr>) = Inr ((), ?t)"
    using Cons.prems(3) Cons.prems(4) [of p] by (simp add: insert_posting_tx_def)
  have "pr_id ` set (postings ?t) \<subseteq> uuid_supply ?t ` {..<uuid_drawn ?t}"
    using Cons.prems(2) by (simp add: lessThan_Suc) blast
  moreover have "inj (uuid_supply ?t)" "jid \<notin> s_journal ` set (seals ?t)" using Cons.prems(1,3) by simp_all
  ultimately obtain rows n where "insert_postings_tx jid now ps ?t = Inr ((), ?t\<lparr>uuid_drawn := n, postings := postings ?t @ rows\<rparr>)"
    "map row_posting rows = ps" "\<forall>r \<in> set rows. pr_journal r = jid \<and> pr_asset r = ''USD''"
    using Cons.IH [of ?t] Cons.prems(4) by fastforce
  then show ?case
    using one by (intro exI [of _ "?r # rows"] exI [of _ n]) (simp add: tx_simps new_v4_def row_posting_def [of ?r])
qed

lemma post_journal_total:
  assumes led: "ledger_ok s" and fresh: "fresh_supply s" and none: "find_journal sk sid act s = None"
    and args: "sk \<noteq> []" "sid \<noteq> []" "act \<noteq> []" "fp \<noteq> []"
    and bal: "postings_balanced ps" "sql_sum (map p_units ps) = Some 0" "\<And>p. p \<in> set ps \<Longrightarrow> p_kind p \<in> set account_kinds"
  shows "\<exists>r t. post_journal_tx sk sid act fp ps now s = Inr (r, t) \<and> jr_inserted r"
proof -
  define jid where "jid = uuid_supply s (uuid_drawn s)"
  define j where "j = \<lparr>j_id = jid, j_source_kind = sk, j_source_id = sid, j_action = act, j_asset = ''USD'',
    j_fingerprint = fp, j_created_at = now\<rparr>"
  let ?s = "s\<lparr>uuid_drawn := Suc (uuid_drawn s), journals := journals s @ [j]\<rparr>"
  have f: "inj (uuid_supply s)" "j_id ` set (journals s) \<subseteq> uuid_supply s ` {..<uuid_drawn s}"
    "pr_id ` set (postings s) \<subseteq> uuid_supply s ` {..<uuid_drawn s}"
    using fresh by (simp_all add: fresh_supply_def fresh_ids_def)
  have new: "jid \<notin> j_id ` set (journals s)" using next_id_fresh [OF f(1)] f(2) unfolding jid_def by blast
  have seals: "s_journal ` set (seals s) = j_id ` set (journals s)" using led by (metis ledger_ok_def list.set_map)
  have units: "p_units p \<noteq> 0" if "p \<in> set ps" for p using bal(1) that by (auto simp: postings_balanced_def)
  have "pr_id ` set (postings ?s) \<subseteq> uuid_supply ?s ` {..<uuid_drawn ?s}" using f(3) by (simp add: lessThan_Suc) blast
  moreover have "inj (uuid_supply ?s)" "jid \<notin> s_journal ` set (seals ?s)" using f(1) new seals by simp_all
  ultimately obtain rows n where rows: "insert_postings_tx jid now ps ?s = Inr ((), ?s\<lparr>uuid_drawn := n, postings := postings s @ rows\<rparr>)"
      "map row_posting rows = ps" "\<forall>r \<in> set rows. pr_journal r = jid \<and> pr_asset r = ''USD''"
    using insert_postings_total [of ?s jid ps now] units bal(3) by fastforce
  let ?t = "?s\<lparr>uuid_drawn := n, postings := postings s @ rows\<rparr>"
  have "filter (\<lambda>p. pr_journal p = jid) (postings s) = []"
    using led new by (auto simp: ledger_ok_def filter_empty_conv)
  then have own: "journal_postings jid ?t = rows" using rows(3) by (simp add: journal_postings_def)
  have "length rows = length ps" "map pr_units rows = map p_units ps"
    using rows(2) by (auto simp: row_posting_def)
  moreover have "2 \<le> length ps" using bal(1) by (simp add: postings_balanced_def)
  moreover have "k \<in> set (journals s) \<Longrightarrow> j_id k \<noteq> jid" for k using new by auto
  ultimately have "insert_seal_tx \<lparr>s_journal = jid, s_count = int (length ps), s_sealed_at = now\<rparr> ?t
      = Inr ((), ?t\<lparr>seals := seals s @ [\<lparr>s_journal = jid, s_count = int (length ps), s_sealed_at = now\<rparr>]\<rparr>)"
    using own rows(3) new seals bal(2) by (auto simp: insert_seal_tx_def Let_def j_def)
  moreover have "insert_journal_tx j (s\<lparr>uuid_drawn := Suc (uuid_drawn s)\<rparr>) = Inr ((), ?s)"
    using new none by (simp add: insert_journal_tx_def j_def find_journal_def)
  ultimately show ?thesis
    using none args bal(1) rows(1) unfolding j_def jid_def
    by (simp add: post_journal_tx_def existing_journal_tx_def tx_simps new_v4_def)
qed

section \<open>The batch\<close>

definition unlock_ready :: "'a market_db_scheme \<Rightarrow> bool" where
  "unlock_ready s \<longleftrightarrow> earn_inv s \<and> splits_ok s \<and> evidenced s \<and> fresh_supply s"

lemma unlock_postings_valid:
  assumes "0 \<le> units" "0 \<le> fee" "0 < units + fee" "in_i64 units" "in_i64 fee" "lot \<noteq> []" "prov \<noteq> []"
  shows "postings_balanced (unlock_postings lot prov units fee)" "sql_sum (map p_units (unlock_postings lot prov units fee)) = Some 0"
    "p \<in> set (unlock_postings lot prov units fee) \<Longrightarrow> p_kind p \<in> set account_kinds"
  using assms
  by (auto simp: unlock_postings_def postings_balanced_def account_kinds_def sql_sum_def checked_add64_def checked_i64_def
      in_i64_def i64_min_def i64_max_def split: if_splits)

lemma unlocked_lot_check: "lot_check l \<Longrightarrow> lot_update_ok l (unlocked_lot l)"
  by (auto simp: lot_update_ok_def lot_check_def unlocked_lot_def pending_net_def pending_fee_def l_net_def)

lemma filter_lot_unique: "distinct (map l_id ls) \<Longrightarrow> l \<in> set ls \<Longrightarrow> P l \<Longrightarrow> filter (\<lambda>x. l_id x = l_id l \<and> P x) ls = [l]"
proof (induction ls)
  case (Cons m ls)
  show ?case
  proof (cases "m = l")
    case True
    then have "l_id x \<noteq> l_id l" if "x \<in> set ls" for x
      using Cons.prems(1) that by (metis distinct.simps(2) imageI list.map(2) list.set_map)
    then have "filter (\<lambda>x. l_id x = l_id l \<and> P x) ls = []" by (simp add: filter_empty_conv)
    with True Cons.prems(3) show ?thesis by simp
  next
    case False
    with Cons.prems(2) have "l \<in> set ls" by simp
    moreover from this have "l_id m \<noteq> l_id l" using Cons.prems(1) by (metis distinct.simps(2) image_eqI list.map(2) list.set_map)
    ultimately show ?thesis using Cons by simp
  qed
qed simp

lemma unlock_lot_total:
  assumes ready: "unlock_ready s" and l: "l \<in> set (lots s)" "\<not> l_disputed l" "0 < pending_net l + pending_fee l"
  shows "\<exists>t. unlock_lot_tx (l_id l) (l_provider l) (pending_net l) mat at s = Inr ((), t)"
proof -
  have inv: "earn_inv s" "splits_ok s" "evidenced s" "fresh_supply s" and led: "ledger_ok s"
    and d: "distinct (map l_id (lots s))" and chk: "lot_check l" and a: "lot_audited s l"
    using ready l(1) by (auto simp: unlock_ready_def earn_inv_def wallet_inv_def lots_ok_def evidenced_def)
  have amt: "in_i64 (l_amount l)" "l_provider l \<noteq> []" "l_id l \<in> range (uuid_supply s)"
    using a by (simp_all add: lot_audited_def lot_origin_def)
  from amt(3) inv(4) have id_set: "l_id l \<noteq> []" unfolding fresh_supply_def by (metis imageE)
  have nn: "0 \<le> pending_net l" "0 \<le> pending_fee l" "in_i64 (pending_net l)" "in_i64 (pending_fee l)"
    using chk amt(1) by (auto simp: lot_check_def lot_amounts in_i64_def i64_min_def)
  have "find_journal ''earning_lot'' (l_id l) ''unlock'' s = None"
    using a l(3) by (auto simp: find_journal_None_key lot_audited_def unlocked_once_def)
  from post_journal_total [OF led inv(4) this _ id_set _ _ unlock_postings_valid(1,2) [OF nn(1,2) l(3) nn(3,4) id_set amt(2)]
      unlock_postings_valid(3) [OF nn(1,2) l(3) nn(3,4) id_set amt(2)],
      of "l_provider l @ '':'' @ show_int (pending_net l) @ '':'' @ mat @ '':commission='' @ show_int (pending_fee l)" at]
  obtain r u where post: "post_journal_tx ''earning_lot'' (l_id l) ''unlock''
      (l_provider l @ '':'' @ show_int (pending_net l) @ '':'' @ mat @ '':commission='' @ show_int (pending_fee l))
      (unlock_postings (l_id l) (l_provider l) (pending_net l) (pending_fee l)) at s = Inr (r, u)" "jr_inserted r" by auto
  let ?g = "\<lambda>x. l_id x = l_id l \<and> \<not> l_disputed x \<and> pending_net x = pending_net l \<and> pending_fee x = pending_fee l"
  from post(1) have "wallet_db.more u = wallet_db.more s" by (cases rule: post_journal_tx_cases) (simp_all add: posted_frame(5))
  then have lots: "lots u = lots s" using more_fields by blast
  have one: "filter ?g (lots s) = [l]" using filter_lot_unique [OF d l(1), of "\<lambda>x. \<not> l_disputed x \<and> pending_net x = pending_net l \<and> pending_fee x = pending_fee l"] l(2) by simp
  have "x = l" if "x \<in> set (lots s)" "?g x" for x using l_id_inj [OF d that(1) l(1)] that(2) by blast
  then have "\<not> (\<exists>x \<in> set (lots s). ?g x \<and> \<not> lot_update_ok x (x\<lparr>l_unlocked := l_unlocked x + pending_net l,
      l_commission_unlocked := l_commission_unlocked x + pending_fee l\<rparr>))"
    using unlocked_lot_check [OF chk] unfolding unlocked_lot_def by blast
  with one lots post find_lot_member [OF d l(1)] lot_passes_audit [OF inv(1-3) l(1)] show ?thesis
    by (simp add: unlock_lot_tx_def update_lots_tx_def tx_simps) blast
qed

lemma unlock_lot_next:
  assumes op: "unlock_lot_tx (l_id l) (l_provider l) (pending_net l) mat at s = Inr (x, t)"
    and ready: "unlock_ready s" and l: "l \<in> set (lots s)"
  shows "unlock_ready t" "lots t = put_lot (unlocked_lot l) (lots s)" "earning_holds t = earning_holds s"
proof -
  have inv: "earn_inv s" "splits_ok s" "evidenced s" "fresh_supply s" and d: "distinct (map l_id (lots s))"
    using ready by (auto simp: unlock_ready_def earn_inv_def lots_ok_def)
  have prov: "l_provider m = l_provider l" if "m \<in> set (lots s)" "l_id m = l_id l" for m
    using l_id_inj [OF d that(1) l that(2)] by simp
  note i = unlock_lot_inv [OF op inv(1) prov]
  note g = withinD [OF unlock_lot_grown op]
  have "fresh_ids t" "uuid_supply t = uuid_supply s"
    using grown_fresh [OF g] g inv(4) by (simp_all add: fresh_supply_def grown_def)
  moreover have "evidenced t"
    using unlock_evidence [OF op inv(1) prov] terms_ok_kept [OF i(2)] inv(3) by (simp add: evidenced_def)
  ultimately show "unlock_ready t"
    using i(1) splits_ok_same [OF kept_evidence [OF i(2)] inv(2)] inv(4) by (simp add: unlock_ready_def fresh_supply_def)
  from unlock_lot_cases [OF op d] obtain m j t1 where m: "m \<in> set (lots s)" "l_id m = l_id l"
    and post: "posted s j (unlock_postings (l_id l) (l_provider l) (pending_net l) (pending_fee m)) t1"
    and t: "t = t1\<lparr>lots := put_lot (unlocked_lot m) (lots s)\<rparr>" by metis
  have "m = l" by (rule l_id_inj [OF d m(1) l m(2)])
  with t show "lots t = put_lot (unlocked_lot l) (lots s)" by simp
  show "earning_holds t = earning_holds s" using t more_fields [OF posted_frame(5) [OF post]] by simp
qed

definition matured :: "time_lib \<Rightarrow> int \<Rightarrow> lot_row \<Rightarrow> bool" where
  "matured T now l \<longleftrightarrow> (case parse_rfc3339 T (l_unlock_at l) of None \<Rightarrow> False | Some m \<Rightarrow> m \<le> now)"

definition pays_out :: "lot_row list \<Rightarrow> 'a market_db_scheme \<Rightarrow> 'a market_db_scheme \<Rightarrow> bool" where
  "pays_out ls s t \<longleftrightarrow>
     lots t = map (\<lambda>l. if l \<in> set ls then unlocked_lot l else l) (lots s) \<and> earning_holds t = earning_holds s"

lemma pays_out_Cons:
  assumes "lots u = put_lot (unlocked_lot l) (lots s)" "earning_holds u = earning_holds s" "pays_out ls u t"
    and l: "l \<in> set (lots s)" "distinct (map l_id (lots s))" "l_id l \<notin> l_id ` set ls"
  shows "pays_out (l # ls) s t"
proof -
  have "(if put \<in> set ls then unlocked_lot put else put) = (if x \<in> set (l # ls) then unlocked_lot x else x)"
    if x: "x \<in> set (lots s)" and put: "put = (if l_id x = l_id (unlocked_lot l) then unlocked_lot l else x)" for x put
  proof (cases "x = l")
    case True
    have "unlocked_lot l \<notin> set ls"
    proof
      assume "unlocked_lot l \<in> set ls"
      then have "l_id (unlocked_lot l) \<in> l_id ` set ls" by (rule imageI)
      with l(3) show False by (simp add: unlocked_lot_def)
    qed
    with True show ?thesis by (simp add: put unlocked_lot_def)
  next
    case False
    then have "l_id x \<noteq> l_id l" using l_id_inj [OF l(2) x l(1)] by blast
    with False show ?thesis by (simp add: put unlocked_lot_def)
  qed
  then have "lots t = map (\<lambda>x. if x \<in> set (l # ls) then unlocked_lot x else x) (lots s)"
    using assms(1,3) unfolding pays_out_def put_lot_def by simp
  with assms(2,3) show ?thesis by (simp add: pays_out_def)
qed

lemma unlock_rows_exact:
  assumes "unlock_ready s" "set ls \<subseteq> set (lots s)" "distinct (map l_id ls)"
    "\<And>l. l \<in> set ls \<Longrightarrow> \<not> l_disputed l \<and> 0 < pending_net l + pending_fee l \<and> parse_rfc3339 T (l_unlock_at l) \<noteq> None"
  shows "\<exists>t. unlock_rows_tx T ls now at s = Inr (length (filter (matured T now) ls), t) \<and> pays_out (filter (matured T now) ls) s t"
  using assms
proof (induction ls arbitrary: s)
  case Nil
  show ?case by (simp add: return_tx_def pays_out_def)
next
  case (Cons l ls)
  note elig = Cons.prems(4) [of l, simplified] and rest = Cons.prems(4) [OF list.set_intros(2)]
  from elig obtain m where m: "parse_rfc3339 T (l_unlock_at l) = Some m" by blast
  then have p: "parse_utc T (l_unlock_at l) = Inr m" by (simp add: parse_utc_def)
  show ?case
  proof (cases "now < m")
    case True
    then have "\<not> matured T now l" using m by (simp add: matured_def)
    moreover have "set ls \<subseteq> set (lots s)" "distinct (map l_id ls)" using Cons.prems(2,3) by simp_all
    ultimately show ?thesis using Cons.IH [OF Cons.prems(1) _ _ rest] True p by (simp add: tx_simps)
  next
    case False
    then have mat: "matured T now l" using m by (simp add: matured_def)
    have l: "l \<in> set (lots s)" "l_id l \<notin> l_id ` set ls" and ls: "set ls \<subseteq> set (lots s)" "distinct (map l_id ls)"
      using Cons.prems(2,3) by simp_all
    from unlock_lot_total [OF Cons.prems(1) l(1)] elig obtain u
      where op: "unlock_lot_tx (l_id l) (l_provider l) (pending_net l) (l_unlock_at l) at s = Inr ((), u)" by blast
    note u = unlock_lot_next [OF op Cons.prems(1) l(1)]
    have "x \<in> set (lots u)" if "x \<in> set ls" for x
    proof -
      have "l_id x \<noteq> l_id l" using that l(2) by (metis imageI)
      then show ?thesis using that ls(1) set_put_lot [OF l(1), of "unlocked_lot l" x] by (auto simp: u(2) unlocked_lot_def)
    qed
    then have "set ls \<subseteq> set (lots u)" by blast
    from Cons.IH [OF u(1) this ls(2) rest] obtain t
      where t: "unlock_rows_tx T ls now at u = Inr (length (filter (matured T now) ls), t)" "pays_out (filter (matured T now) ls) u t"
      by blast
    have "l_id l \<notin> l_id ` set (filter (matured T now) ls)" using l(2) by (meson filter_is_subset image_mono subsetD)
    moreover have "distinct (map l_id (lots s))" using Cons.prems(1) by (simp add: unlock_ready_def earn_inv_def lots_ok_def)
    ultimately have "pays_out (l # filter (matured T now) ls) s t" using pays_out_Cons [OF u(2,3) t(2) l(1)] by blast
    then show ?thesis using mat False p op t(1) by (simp add: tx_simps try_unlock_tx_def)
  qed
qed

lemma run_supply: "uuid_supply (run_machine (earn_step T safe) cs s) = uuid_supply s"
proof (induction cs arbitrary: s)
  case (Cons c cs)
  have "uuid_supply (earn_step T safe c s) = uuid_supply s" using earn_step_grown [of s T safe c] by (simp add: grown_def)
  with Cons show ?case by simp
qed simp

lemma due_lots_eligible:
  assumes "l \<in> set (due_lots limit s)"
  shows "l \<in> set (lots s)" "\<not> l_disputed l" "0 < pending_net l + pending_fee l"
  using assms by (auto simp: due_lots_def dest!: in_set_takeD)

lemma due_lots_distinct:
  assumes "distinct (map l_id (lots s))"
  shows "distinct (map l_id (due_lots limit s))"
proof -
  have "distinct (due_lots limit s)" using assms by (simp add: due_lots_def distinct_map distinct_take)
  moreover have "inj_on l_id (set (due_lots limit s))"
    using assms due_lots_eligible(1) by (meson distinct_map inj_on_subset subsetI)
  ultimately show ?thesis by (simp add: distinct_map)
qed

lemma reachable_ready:
  assumes "inj ids" "\<And>n. ids n \<noteq> []" "s = run_machine (earn_step T safe) cs (new_market ids at)"
  shows "unlock_ready s"
proof -
  have "uuid_supply s = ids" unfolding assms(3) run_supply by (simp add: new_market_def)
  moreover have "audit_inv T s" unfolding assms(3) by (rule reachable_audit)
  ultimately show ?thesis using assms(1,2) by (simp add: unlock_ready_def fresh_supply_def audit_inv_def history_inv_def)
qed

lemma unlock_at_parses:
  assumes "\<And>t. utc_range T t \<Longrightarrow> parse_rfc3339 T (to_rfc3339 T t) = Some t" "unlock_at T d f = Inr u"
  shows "parse_rfc3339 T u \<noteq> None"
  using assms by (auto simp: unlock_at_def split: sum.splits if_splits)


section \<open>Guarantees\<close>

text \<open>
  C4. Every lot of every reachable state passes the audit that recomputes it from its
  slice, its commission split and period, the policy in force, the journals and the
  refunds: the audit returns, and it returns true.
\<close>

theorem every_lot_passes_its_audit:
  "(let s = run_machine (earn_step T safe) cs (new_market ids at)
    in list_all (\<lambda>l. lot_evidence_valid_tx (l_id l) s = Inr (True, s)) (lots s))"
  using reachable_audit [of T safe cs ids at] lot_passes_audit
  unfolding Let_def list_all_iff audit_inv_def history_inv_def by blast

text \<open>
  C3. When identifiers do not repeat and timestamps the service writes can be read back,
  the unlock batch returns in every reachable state, and it pays out exactly the due lots
  of the batch that are mature: their pending net becomes available and their pending
  commission is earned, every other lot stays as it is, and no lot is frozen for review.
\<close>

theorem unlock_batch_exact:
  assumes clock: "\<And>t. utc_range T t \<Longrightarrow> parse_rfc3339 T (to_rfc3339 T t) = Some t"
    and ids: "inj ids" "\<And>n. ids n \<noteq> []" and now: "parse_rfc3339 T at = Some now"
    and s: "s = run_machine (earn_step T safe) cs (new_market ids installed)"
  shows "\<exists>t. unlock_due_earnings_isolated T at limit s = Inr (length (filter (matured T now) (due_lots limit s)), t)
    \<and> pays_out (filter (matured T now) (due_lots limit s)) s t"
proof -
  have ready: "unlock_ready s" by (rule reachable_ready [OF ids s])
  then have d: "distinct (map l_id (lots s))" by (simp add: unlock_ready_def earn_inv_def lots_ok_def)
  have "matured_ok T s" using reachable_audit [of T safe cs ids installed] by (simp add: s audit_inv_def history_inv_def)
  then have "parse_rfc3339 T (l_unlock_at l) \<noteq> None" if "l \<in> set (lots s)" for l
    using that unlock_at_parses [OF clock] unfolding matured_ok_def by blast
  then obtain t where "unlock_rows_tx T (due_lots limit s) now at s = Inr (length (filter (matured T now) (due_lots limit s)), t)"
    "pays_out (filter (matured T now) (due_lots limit s)) s t"
    using unlock_rows_exact [OF ready _ due_lots_distinct [OF d], of limit T now at] due_lots_eligible by blast
  then show ?thesis using now by (simp add: unlock_due_earnings_isolated_def parse_utc_def tx_simps)
qed

theorem unlock_batch_exact_witness:
  "\<exists>t. unlock_due_earnings_isolated sample_time ''m'' 10 (sample_run delivered_market) = Inr (1, t)
     \<and> map l_unlocked (lots t) = [777604] \<and> earning_holds t = []"
proof -
  have e: "length (filter (matured sample_time (days 7 + 1)) (due_lots 10 (sample_run delivered_market))) = 1"
    "map (\<lambda>l. l_unlocked (if l \<in> set (filter (matured sample_time (days 7 + 1)) (due_lots 10 (sample_run delivered_market)))
      then unlocked_lot l else l)) (lots (sample_run delivered_market)) = [777604]"
    "earning_holds (sample_run delivered_market) = []"
    by code_simp+
  have "\<exists>t. unlock_due_earnings_isolated sample_time ''m'' 10 (sample_run delivered_market)
      = Inr (length (filter (matured sample_time (days 7 + 1)) (due_lots 10 (sample_run delivered_market))), t)
    \<and> pays_out (filter (matured sample_time (days 7 + 1)) (due_lots 10 (sample_run delivered_market))) (sample_run delivered_market) t"
    by (rule unlock_batch_exact [where ids = sample_ids]) (auto simp: sample_time_def sample_ids_def inj_def)
  then obtain t where "unlock_due_earnings_isolated sample_time ''m'' 10 (sample_run delivered_market) = Inr (1, t)"
    "pays_out (filter (matured sample_time (days 7 + 1)) (due_lots 10 (sample_run delivered_market))) (sample_run delivered_market) t"
    unfolding e(1) by blast
  with e(2,3) show ?thesis by (intro exI [of _ t]) (simp add: pays_out_def comp_def)
qed

end
