(* ===== verification/Provider_Account.thy ===== *)
theory Provider_Account
  imports Earning_Unlock
begin

text \<open>
  The contract of a Provider's account, and that the service keeps it. The abstract account
  has a pending and an available balance; deliveries are the only thing that adds to it,
  the unlock batch only moves pending money to available money, and a dispute takes away
  at most what it refunds. The detailed operations of \<open>src/src/market_finance.rs\<close>,
  \<open>src/src/market_commission.rs\<close> and \<open>src/src/market_service_disputes.rs\<close>, read through
  the journal's two Provider accounts, refine it.
\<close>


section \<open>The abstract account\<close>

type_synonym accounts = "string \<Rightarrow> int \<times> int"

fun delivery_of :: "earn_cmd \<Rightarrow> (string \<times> int) option" where
  "delivery_of (MeteredDelivery ck c batch h buyer prov st en amt now) = Some (prov, amt)"
| "delivery_of (MonthlyDelivery ck c per src buyer prov st en amt dj deb now) = Some (prov, amt)"
| "delivery_of (QuotaDelivery e units at) = Some (te_provider e, units)"
| "delivery_of _ = None"

inductive account_step :: "earn_cmd \<Rightarrow> accounts \<Rightarrow> accounts \<Rightarrow> bool" where
  quiet: "account_step c a a"
| earn: "delivery_of c = Some (p, amt) \<Longrightarrow> 0 \<le> n \<Longrightarrow> n \<le> amt
    \<Longrightarrow> account_step c a (a(p := (fst (a p) + n, snd (a p))))"
| mature: "(\<And>p. 0 \<le> m p \<and> m p \<le> fst (a p))
    \<Longrightarrow> account_step (UnlockBatch at limit) a (\<lambda>p. (fst (a p) - m p, snd (a p) + m p))"
| refund: "0 \<le> m \<Longrightarrow> m \<le> fst (a p) \<Longrightarrow> 0 \<le> n \<Longrightarrow> n \<le> snd (a p) \<Longrightarrow> m + n \<le> units
    \<Longrightarrow> account_step (ResolveDispute d owner ver resolution units time) a (a(p := (fst (a p) - m, snd (a p) - n)))"

inductive_cases account_stepE: "account_step c a b"

text \<open>The account as the journal has it, and as the lots have it.\<close>

definition accounts_of :: "'a wallet_db_scheme \<Rightarrow> accounts" where
  "accounts_of s = (\<lambda>p. (- acct_sum ''provider_pending'' p s, - acct_sum ''provider_available'' p s))"

lemma accounts_of_lots:
  "earn_inv s \<Longrightarrow> accounts_of s = (\<lambda>p. (lots_sum l_provider pending_net p (lots s), lots_sum l_provider available_net p (lots s)))"
  by (simp add: accounts_of_def earn_inv_def books_ok_def)

lemma lots_sum_nonneg: "(\<And>l. l \<in> set ls \<Longrightarrow> 0 \<le> f l) \<Longrightarrow> 0 \<le> lots_sum key f x ls"
  unfolding lots_sum_def by (rule sum_list_nonneg) auto

lemma accounts_nonneg:
  assumes "earn_inv s"
  shows "0 \<le> fst (accounts_of s p)" "0 \<le> snd (accounts_of s p)"
proof -
  have "0 \<le> pending_net l" "0 \<le> available_net l" if "l \<in> set (lots s)" for l
    using assms that by (auto simp: earn_inv_def lots_ok_def lot_check_def lot_amounts)
  then show "0 \<le> fst (accounts_of s p)" "0 \<le> snd (accounts_of s p)"
    unfolding accounts_of_lots [OF assms] by (simp_all add: lots_sum_nonneg)
qed

lemma lots_sum_money:
  assumes "map lot_money (lots t) = map lot_money (lots s)" "\<And>l. f (lot_money l) = f l"
  shows "lots_sum l_provider f p (lots t) = lots_sum l_provider f p (lots s)"
proof -
  have "lots_sum l_provider f p ls = lots_sum l_provider f p (map lot_money ls)" for ls
    unfolding lots_sum_def map_map comp_def assms(2) by (simp add: lot_money_def)
  with assms(1) show ?thesis by metis
qed

lemma accounts_money:
  assumes "map lot_money (lots t) = map lot_money (lots s)" "earn_inv s" "earn_inv t"
  shows "accounts_of t = accounts_of s"
  unfolding accounts_of_lots [OF assms(2)] accounts_of_lots [OF assms(3)]
  using lots_sum_money [OF assms(1), of pending_net] lots_sum_money [OF assms(1), of available_net]
  by (simp add: lot_money_def lot_amounts)


lemma accounts_neutral: "neutral s t \<Longrightarrow> earn_inv s \<Longrightarrow> earn_inv t \<Longrightarrow> accounts_of t = accounts_of s"
  by (simp add: neutral_def accounts_money [of t s])


section \<open>Deliveries\<close>

lemma deliver_account:
  assumes f: "funded prov amt ej s s1"
    and op: "insert_slice_and_lot_tx T ck c sk sid per buyer prov st en amt dj ej deb now s1 = Inr (r, t)"
    and inv: "earn_inv s" "earn_inv t" and cmd: "delivery_of k = Some (prov, amt)"
  shows "account_step k (accounts_of s) (accounts_of t)"
  using op
proof (cases rule: insert_slice_and_lot_cases)
  case (1 n d l a xs u)
  let ?s = "s1\<lparr>uuid_drawn := n, slices := slices s1 @ [d]\<rparr>"
  have "wallet_inv ?s" "wallet_db.more s1 = wallet_db.more s" using f wallet_inv_cong [of ?s s1] by (simp_all add: funded_def)
  then have "lots u = lots s" using more_fields [OF allocation_books(2) [OF 1(1) _ 1(8)]] more_fields [of s1 s] by simp
  then have t: "lots t = lots s @ [l]" using 1(2) by (auto simp: delivered_def split: option.splits)
  have l: "l_provider l = prov" "pending_net l = amt - l_commission l" "available_net l = 0" "0 \<le> l_commission l" "l_commission l \<le> amt"
    using 1(3,6) by (auto simp: fresh_lot_def lot_amounts lot_check_def)
  have "accounts_of t = (accounts_of s)(prov := (fst (accounts_of s prov) + pending_net l, snd (accounts_of s prov)))"
    unfolding accounts_of_lots [OF inv(1)] accounts_of_lots [OF inv(2)] t by (rule ext) (simp add: l)
  then show ?thesis using account_step.earn [OF cmd, of "pending_net l" "accounts_of s"] l by simp
qed

lemma delivery_ops_account:
  assumes inv: "earn_inv s" "earn_inv t"
  shows "record_captured_metered_delivery_tx T ck c batch h buyer prov st en amt now s = Inr (x, t) \<Longrightarrow>
      account_step (MeteredDelivery ck c batch h buyer prov st en amt now) (accounts_of s) (accounts_of t)"
    "record_monthly_delivery_tx T ck c per src buyer prov st en amt dj deb now s = Inr (y, t) \<Longrightarrow>
      account_step (MonthlyDelivery ck c per src buyer prov st en amt dj deb now) (accounts_of s) (accounts_of t)"
    "record_share_quota_delivery_tx T e units at s = Inr (z, t) \<Longrightarrow>
      account_step (QuotaDelivery e units at) (accounts_of s) (accounts_of t)"
proof -
  have w: "wallet_inv s" using inv(1) by (simp add: earn_inv_def)
  assume "record_captured_metered_delivery_tx T ck c batch h buyer prov st en amt now s = Inr (x, t)"
  then show "account_step (MeteredDelivery ck c batch h buyer prov st en amt now) (accounts_of s) (accounts_of t)"
  proof (cases rule: metered_delivery_cases)
    case (1 j s1)
    have "funded prov amt (jr_id j) s s1" by (rule capture_funded [OF 1(1,2) w]) simp
    then show ?thesis by (rule deliver_account [OF _ 1(3) inv]) simp
  qed
next
  have w: "wallet_inv s" using inv(1) by (simp add: earn_inv_def)
  assume "record_monthly_delivery_tx T ck c per src buyer prov st en amt dj deb now s = Inr (y, t)"
  then show "account_step (MonthlyDelivery ck c per src buyer prov st en amt dj deb now) (accounts_of s) (accounts_of t)"
  proof (cases rule: monthly_delivery_cases)
    case (earned fp j s1)
    have "funded prov amt (jr_id j) s s1" by (rule post_funded [OF earned(1,2) w _ earned(4)]) simp
    then show ?thesis by (rule deliver_account [OF _ earned(3) inv]) simp
  qed (simp add: account_step.quiet)
next
  have w: "wallet_inv s" using inv(1) by (simp add: earn_inv_def)
  assume "record_share_quota_delivery_tx T e units at s = Inr (z, t)"
  then show "account_step (QuotaDelivery e units at) (accounts_of s) (accounts_of t)"
  proof (cases rule: quota_delivery_cases)
    case (earned c per fp j s1 sid p)
    have "funded (te_provider e) units (jr_id j) s s1" by (rule post_funded [OF earned(3,4) w _ earned(6)]) simp
    then show ?thesis by (rule deliver_account [OF _ earned(5) inv]) simp
  qed (simp add: account_step.quiet)
qed


section \<open>Maturity\<close>

definition moved :: "'a wallet_db_scheme \<Rightarrow> 'a wallet_db_scheme \<Rightarrow> bool" where
  "moved s t \<longleftrightarrow>
     (\<forall>p. snd (accounts_of s p) \<le> snd (accounts_of t p)
        \<and> fst (accounts_of t p) + snd (accounts_of t p) = fst (accounts_of s p) + snd (accounts_of s p))"

lemma unlock_lot_moved:
  assumes op: "unlock_lot_tx lot prov units mat at s = Inr (x, t)" and inv: "earn_inv s" "earn_inv t"
  shows "moved s t"
proof -
  have d: "distinct (map l_id (lots s))" using inv(1) by (simp add: earn_inv_def lots_ok_def)
  from unlock_lot_cases [OF op d] obtain l t1 where l: "l \<in> set (lots s)" and t: "lots t = put_lot (unlocked_lot l) (lots s)"
    by (metis market_db.select_convs market_db.surjective market_db.update_convs)
  have u: "l_id (unlocked_lot l) = l_id l" "l_provider (unlocked_lot l) = l_provider l"
    "pending_net (unlocked_lot l) = 0" "available_net (unlocked_lot l) = available_net l + pending_net l" "0 \<le> pending_net l"
    using inv(1) l by (auto simp: unlocked_lot_def lot_amounts earn_inv_def lots_ok_def lot_check_def)
  show ?thesis
    unfolding moved_def accounts_of_lots [OF inv(1)] accounts_of_lots [OF inv(2)] t
    using u by (simp add: lots_sum_put [OF d l])
qed

lemma try_unlock_moved:
  assumes op: "try_unlock_tx T l at u = Inr (n, t)" and inv: "earn_inv u" and m: "moved s u"
    and l: "lot_ident l \<in> lot_ident ` set (lots u)"
  shows "moved s t"
proof -
  have t: "earn_inv t" using try_unlock_inv [OF op inv l] by simp
  have "moved u t"
  proof (cases "unlock_lot_tx (l_id l) (l_provider l) (pending_net l) (l_unlock_at l) at u")
    case (Inr z)
    with op have "unlock_lot_tx (l_id l) (l_provider l) (pending_net l) (l_unlock_at l) at u = Inr (fst z, t)"
      by (auto simp: try_unlock_tx_def split: prod.splits)
    then show ?thesis using inv t by (rule unlock_lot_moved)
  next
    case (Inl e)
    with op obtain x where h: "hold_failed_unlock_tx T (l_id l) at u = Inr (x, t)" by (auto simp: try_unlock_tx_def tx_simps)
    from neutral_held [OF hold_failed_unlock_held [OF h] withinD [OF silent_ops(7) h]]
    have "accounts_of t = accounts_of u" using inv t by (rule accounts_neutral)
    then show ?thesis by (simp add: moved_def)
  qed
  with m show ?thesis unfolding moved_def by (metis order_trans)
qed

lemma unlock_batch_account:
  assumes op: "unlock_due_earnings_isolated T at limit s = Inr (n, t)" and inv: "earn_inv s"
  shows "account_step (UnlockBatch at limit) (accounts_of s) (accounts_of t)"
proof -
  have "moved s s" by (simp add: moved_def)
  with op inv have m: "moved s t" by (rule unlock_batch_rule) (rule try_unlock_moved)
  have "earn_inv t" by (rule unlock_batch_inv(1) [OF op inv])
  note nn = accounts_nonneg(1) [OF this]
  define m' where "m' = (\<lambda>p. snd (accounts_of t p) - snd (accounts_of s p))"
  have e: "snd (accounts_of s p) \<le> snd (accounts_of t p)"
    "fst (accounts_of t p) + snd (accounts_of t p) = fst (accounts_of s p) + snd (accounts_of s p)" for p
    using m unfolding moved_def by simp_all
  have "accounts_of t = (\<lambda>p. (fst (accounts_of s p) - m' p, snd (accounts_of s p) + m' p))"
  proof
    show "accounts_of t p = (fst (accounts_of s p) - m' p, snd (accounts_of s p) + m' p)" for p
      using e(2) [of p] by (intro prod_eqI) (simp_all add: m'_def)
  qed
  moreover have "0 \<le> m' p \<and> m' p \<le> fst (accounts_of s p)" for p
    using e(1) [of p] e(2) [of p] nn [of p] unfolding m'_def by linarith
  ultimately show ?thesis using account_step.mature [of m' "accounts_of s" at limit] by simp
qed


section \<open>Refunds\<close>

definition refunded_by :: "string \<Rightarrow> string \<Rightarrow> 'a wallet_db_scheme \<Rightarrow> 'a wallet_db_scheme \<Rightarrow> bool" where
  "refunded_by buyer p s t \<longleftrightarrow>
     (\<exists>m n. 0 \<le> m \<and> 0 \<le> n \<and> m + n \<le> posted_of buyer t - posted_of buyer s
        \<and> accounts_of t = (accounts_of s)(p := (fst (accounts_of s p) - m, snd (accounts_of s p) - n)))"

lemma refund_lot_refunded_by:
  assumes op: "refund_lot_tx d (refundable_of l) taken time u = Inr (x, t)" and inv: "earn_inv u" and q: "refunded_by (sd_buyer d) (sd_provider d) s u"
    and l: "l \<in> set (lots u)" "l_provider l = sd_provider d" "l_buyer l = sd_buyer d" "refund_share_ok l"
    and g: "0 < taken" "taken \<le> refundable_gross (refundable_of l)"
  shows "refunded_by (sd_buyer d) (sd_provider d) s t"
proof -
  have ids: "distinct (map l_id (lots u))" and chk: "lot_check l" using inv l(1) by (auto simp: earn_inv_def lots_ok_def)
  have g0: "0 \<le> taken" using g(1) by simp
  have t: "earn_inv t" "posted_of (sd_buyer d) t = posted_of (sd_buyer d) u + taken"
    by (rule refund_lot_inv [OF op inv l(1,2,4) g0 g(2)], simp)+
  obtain n f fp cp l' where parts: "0 \<le> fp" "0 \<le> n - fp" "0 \<le> f" "n + f = taken" "fp = min n (pending_net l)"
    and l': "l' = refunded_lot l n (n - fp) f (f - cp)" and lots: "lots t = put_lot l' (lots u)"
  proof (rule refund_lot_shape [OF op ids l(1) chk l(4) g0 g(2)])
    fix n f fp cp s1 s2 s3 s4
    assume a: "0 \<le> fp" "0 \<le> n - fp" "0 \<le> cp" "0 \<le> f - cp" "n + f = taken" "fp = min n (pending_net l)"
      "t = s4\<lparr>lots := put_lot (refunded_lot l n (n - fp) f (f - cp)) (lots u),
       commission_refunds := commission_refunds u @ [\<lparr>rf_dispute = sd_id d, rf_lot = l_id l, rf_gross = taken, rf_net = n,
           rf_fee = f, rf_created_at = time\<rparr>]\<rparr>"
    show thesis by (rule that [of fp n f "refunded_lot l n (n - fp) f (f - cp)" cp]) (use a in simp_all)
  qed
  have p: "l_id l' = l_id l" "l_provider l' = l_provider l" "pending_net l' = pending_net l - fp" "available_net l' = available_net l - (n - fp)"
    by (simp_all add: l' refunded_lot_def lot_amounts)
  have acc: "accounts_of t = (accounts_of u)(sd_provider d := (fst (accounts_of u (sd_provider d)) - fp, snd (accounts_of u (sd_provider d)) - (n - fp)))"
    unfolding accounts_of_lots [OF inv] accounts_of_lots [OF t(1)] lots lots_sum_put [of "lots u" l l' l_provider, OF ids l(1) p(1,2)]
    using l(2) p(3,4) by (auto simp: fun_eq_iff)
  from q obtain a b where q: "0 \<le> a" "0 \<le> b" "a + b \<le> posted_of (sd_buyer d) u - posted_of (sd_buyer d) s"
    "accounts_of u = (accounts_of s)(sd_provider d := (fst (accounts_of s (sd_provider d)) - a, snd (accounts_of s (sd_provider d)) - b))"
    unfolding refunded_by_def by blast
  show ?thesis
    unfolding refunded_by_def acc q(4)
    by (rule exI [of _ "a + fp"], rule exI [of _ "b + (n - fp)"]) (use q(1-3) parts t(2) in \<open>simp add: diff_diff_eq\<close>)
qed

lemma resolve_dispute_account:
  assumes op: "resolve_dispute_tx safe did owner ver resolution units time s = Inr (v, t)" and inv: "earn_inv s"
  shows "account_step (ResolveDispute did owner ver resolution units time) (accounts_of s) (accounts_of t)"
proof (rule resolve_dispute_rule [OF op inv])
  fix d s1
  assume s1: "earn_inv s1" "neutral s1 t" "\<And>w. posted_of w s1 = posted_of w s + (if w = sd_buyer d then units else 0)"
    and rule: "\<And>Q. Q s \<Longrightarrow> (\<And>s l taken x t. refund_lot_tx d (refundable_of l) taken time s = Inr (x, t)
      \<Longrightarrow> earn_inv s \<Longrightarrow> Q s \<Longrightarrow> l \<in> set (lots s) \<Longrightarrow> l_provider l = sd_provider d \<Longrightarrow> l_buyer l = sd_buyer d \<Longrightarrow> refund_share_ok l
      \<Longrightarrow> 0 < taken \<Longrightarrow> taken \<le> refundable_gross (refundable_of l) \<Longrightarrow> Q t) \<Longrightarrow> Q s1"
  have "refunded_by (sd_buyer d) (sd_provider d) s s"
    unfolding refunded_by_def by (rule exI [of _ 0], rule exI [of _ 0]) simp
  then have "refunded_by (sd_buyer d) (sd_provider d) s s1"
    by (rule rule [of "refunded_by (sd_buyer d) (sd_provider d) s"]) (rule refund_lot_refunded_by)
  then obtain m n where mn: "0 \<le> m" "0 \<le> n" "m + n \<le> units"
    "accounts_of s1 = (accounts_of s)(sd_provider d := (fst (accounts_of s (sd_provider d)) - m, snd (accounts_of s (sd_provider d)) - n))"
    using s1(3) unfolding refunded_by_def by auto
  have "m \<le> fst (accounts_of s (sd_provider d))" "n \<le> snd (accounts_of s (sd_provider d))"
    using accounts_nonneg [OF s1(1), of "sd_provider d"] mn(4) by simp_all
  moreover have "accounts_of t = accounts_of s1"
    by (rule accounts_neutral [OF s1(2,1) resolve_dispute_inv(1) [OF op inv]])
  ultimately show ?thesis using account_step.refund mn by simp
qed

section \<open>The refinement\<close>

lemma commit_account:
  assumes "\<And>x t. m s = Inr (x, t) \<Longrightarrow> earn_inv t \<Longrightarrow> account_step c (accounts_of s) (accounts_of t)"
  shows "earn_inv (commit_tx m s) \<Longrightarrow> account_step c (accounts_of s) (accounts_of (commit_tx m s))"
    "earn_inv (when_tx guard m s) \<Longrightarrow> account_step c (accounts_of s) (accounts_of (when_tx guard m s))"
  using assms by (auto simp: when_tx_def commit_tx_def account_step.quiet split: sum.splits prod.splits)

lemma earn_step_account:
  assumes inv: "earn_inv s" and ok: "terms_ok s"
  shows "account_step c (accounts_of s) (accounts_of (earn_step T safe c s))"
proof (cases "moves_earnings c")
  case False
  have t: "earn_inv (earn_step T safe c s)" by (rule earn_step_inv [OF inv])
  from quiet_step [OF False ok, of T safe] have "accounts_of (earn_step T safe c s) = accounts_of s"
    using accounts_neutral [OF _ inv t] accounts_money [OF _ inv t] unfolding recorded_def by auto
  then show ?thesis by (simp add: account_step.quiet)
next
  case True
  have t: "earn_inv (earn_step T safe c s)" by (rule earn_step_inv [OF inv])
  show ?thesis
    using True t
    by (cases c) (simp_all only: earn_step.simps moves_earnings.simps simp_thms,
      (erule commit_account [rotated],
       (erule (1) delivery_ops_account [OF inv, rotated] | erule unlock_batch_account [OF _ inv] | erule resolve_dispute_account [OF _ inv]))+)
qed

inductive account_run :: "earn_cmd list \<Rightarrow> accounts \<Rightarrow> accounts \<Rightarrow> bool" where
  start: "account_run [] a a"
| one: "account_step c a b \<Longrightarrow> account_run cs b d \<Longrightarrow> account_run (c # cs) a d"

inductive_simps account_run_Nil: "account_run [] a b"

inductive_simps account_run_Cons: "account_run (c # cs) a b"




lemma machine_account_run:
  "audit_inv T s \<Longrightarrow> account_run cs (accounts_of s) (accounts_of (run_machine (earn_step T safe) cs s))"
proof (induction cs arbitrary: s)
  case (Cons c cs)
  have "audit_inv T (earn_step T safe c s)" using audit.run_inv [OF Cons.prems, of safe "[c]"] by simp
  moreover have "account_step c (accounts_of s) (accounts_of (earn_step T safe c s))"
    using Cons.prems by (intro earn_step_account) (simp_all add: audit_inv_def history_inv_def evidenced_def)
  ultimately show ?case using Cons.IH by (simp add: account_run.one)
qed (simp add: account_run.start)

lemma new_market_accounts: "accounts_of (new_market ids at) = (\<lambda>_. (0, 0))"
  by (simp add: accounts_of_def acct_rows_def new_market_def)

text \<open>
  C2. The service refines the abstract account: whatever sequence of wallet operations,
  policy changes, contracts, deliveries, holds, unlock batches and disputes it executes,
  the Provider balances of its journal go through a run of the abstract account that
  makes the same commands, starting with empty accounts.
\<close>

theorem provider_account_refinement:
  "account_run cs (\<lambda>_. (0, 0)) (accounts_of (run_machine (earn_step T safe) cs (new_market ids at)))"
  using machine_account_run [OF new_market_audit, of cs ids at T safe] by (simp only: new_market_accounts)


end
