(* ===== verification/Wallet_Transfers.thy ===== *)
theory Wallet_Transfers
  imports Market_Outbox Wallet_Properties "HOL-Library.List_Lexorder" "HOL-Library.Char_ord"
begin

text \<open>
  Transfers of wallet credit between users (\<open>src/src/market_wallet_transfers.rs\<close>): the
  transfer policy, the capacity of a sender, quotes, and the confirmation that moves the
  money. The finance-safety check (\<open>ensure_finance_scopes_safe_tx\<close> of
  \<open>src/src/market_reconcile.rs\<close>) and the claims that are due before a transfer are
  arguments, as are SQLite's and the \<open>chrono\<close> crate's calendar dates.
\<close>


section \<open>Tables\<close>

record user_row =
  u_id :: string
  u_email_normalized :: string
  u_status :: string
  u_email_verified_at :: "string option"

record wallet_policy =
  wp_version :: int
  wp_maintenance_fee_bps :: int
  wp_transfers_enabled :: bool
  wp_transfers_paused :: bool
  wp_transfer_max_minor :: int
  wp_transfer_daily_max_minor :: int

record policy_event =
  ve_id :: string
  ve_actor :: string
  ve_before :: wallet_policy
  ve_after :: wallet_policy
  ve_created_at :: string

record transfer_quote =
  tq_id :: string
  tq_sender :: string
  tq_recipient :: string
  tq_sender_email :: string
  tq_recipient_email :: string
  tq_amount :: int
  tq_expires_at :: string
  tq_created_at :: string

record transfer_attempt =
  ta_id :: string
  ta_sender :: string
  ta_ip :: string
  ta_created_at :: string

record authorization =
  az_id :: string
  az_actor :: string
  az_session :: string
  az_source_kind :: string
  az_authenticated_at :: string
  az_expires_at :: string
  az_operation :: string
  az_object :: string
  az_counterparty :: string
  az_amount :: int
  az_expected_version :: int
  az_fingerprint :: string
  az_acknowledgement :: string
  az_created_at :: string

record transfer_row =
  tr_id :: string
  tr_sender :: string
  tr_recipient :: string
  tr_sender_email :: string
  tr_recipient_email :: string
  tr_amount :: int
  tr_quote :: string
  tr_authorization :: string
  tr_idempotency_key :: string
  tr_fingerprint :: string
  tr_journal :: string
  tr_created_at :: string

record c2c_order =
  co_seller :: string
  co_amount :: int
  co_status :: string
  co_released_at :: "string option"

record transfer_db = notice_db +
  users :: "user_row list"
  wallet_policy_row :: wallet_policy
  policy_events :: "policy_event list"
  transfer_quotes :: "transfer_quote list"
  transfer_attempts :: "transfer_attempt list"
  authorizations :: "authorization list"
  transfers :: "transfer_row list"
  c2c_orders :: "c2c_order list"
  challenge_quotes :: "string list"
  conversion_quotes :: "(string \<times> string) list"
  converted_quotes :: "string list"
  topup_quotes :: "(string \<times> string) list"
  ordered_quotes :: "string list"

text \<open>
  The last five are what pruning reads and deletes: the quotes of old email challenges,
  the quotes (identifier and expiry) of conversions and of top-ups, and those of them
  that a conversion or a top-up order uses.
\<close>

record auth_session =
  session_id :: string
  user_id :: string
  auth_source_kind :: string
  access_expires_at :: int
  created_at :: int

text \<open>What the transfers use of their surroundings.\<close>

record 's transfer_env =
  clock :: time_lib
  sql_date :: "string \<Rightarrow> string option"
  utc_date :: "int \<Rightarrow> string"
  due_claims :: "string \<Rightarrow> string \<Rightarrow> 's \<Rightarrow> (string \<times> int) list result"
  users_safe :: "string list \<Rightarrow> 's \<Rightarrow> unit result"


section \<open>Policy\<close>

definition policy_tx :: "('a transfer_db_scheme, wallet_policy) tx" where
  "policy_tx = gets_tx wallet_policy_row"

definition policy_check :: "wallet_policy \<Rightarrow> bool" where
  "policy_check p \<longleftrightarrow> 0 < wp_version p \<and> 0 \<le> wp_maintenance_fee_bps p \<and> wp_maintenance_fee_bps p \<le> 10000
     \<and> 1 \<le> wp_transfer_max_minor p \<and> wp_transfer_max_minor p \<le> 10000000
     \<and> 1 \<le> wp_transfer_daily_max_minor p \<and> wp_transfer_daily_max_minor p \<le> 10000000"

definition update_policy_tx :: "int \<Rightarrow> wallet_policy \<Rightarrow> ('a transfer_db_scheme, nat) tx" where
  "update_policy_tx expected p s =
     (if wp_version (wallet_policy_row s) \<noteq> expected then Inr (0, s)
      else if \<not> policy_check p then Inl (db_error ''update wallet policy'' (Database ''market_wallet_policy''))
      else Inr (1, s\<lparr>wallet_policy_row := p\<rparr>))"

definition policy_json :: "wallet_policy \<Rightarrow> json" where
  "policy_json p = JObject [(''version'', JNumber (wp_version p)), (''maintenanceFeeBps'', JNumber (wp_maintenance_fee_bps p)),
     (''transfersEnabled'', JBool (wp_transfers_enabled p)), (''transfersPaused'', JBool (wp_transfers_paused p)),
     (''transferMaxMinor'', JNumber (wp_transfer_max_minor p)), (''transferDailyMaxMinor'', JNumber (wp_transfer_daily_max_minor p)),
     (''balanceRefundable'', JBool False)]"

definition insert_policy_event_tx :: "policy_event \<Rightarrow> ('a transfer_db_scheme, unit) tx" where
  "insert_policy_event_tx e s =
     (if ve_id e \<in> ve_id ` set (policy_events s)
      then Inl (db_error ''audit wallet policy'' (Database ''market_wallet_policy_events''))
      else Inr ((), s\<lparr>policy_events := policy_events s @ [e]\<rparr>))"

text \<open>\<open>set_policy\<close> after the Owner's session is resolved; \<open>p\<close> holds the requested values.\<close>

definition set_wallet_policy ::
  "time_lib \<Rightarrow> string \<Rightarrow> int \<Rightarrow> wallet_policy \<Rightarrow> string \<Rightarrow> ('a transfer_db_scheme, wallet_policy) tx"
where
  "set_wallet_policy T actor expected p time =
     bind_tx (require_tx (0 \<le> wp_maintenance_fee_bps p \<and> wp_maintenance_fee_bps p \<le> 10000
         \<and> 1 \<le> wp_transfer_max_minor p \<and> wp_transfer_max_minor p \<le> 10000000
         \<and> wp_transfer_max_minor p \<le> wp_transfer_daily_max_minor p \<and> wp_transfer_daily_max_minor p \<le> 10000000)
       (BadRequest ''invalid wallet policy limits'')) (\<lambda>_.
     bind_tx policy_tx (\<lambda>previous.
     bind_tx (update_policy_tx expected (p\<lparr>wp_version := wp_version previous + 1\<rparr>)) (\<lambda>changed.
     bind_tx (require_tx (changed = 1) (Conflict ''wallet policy version changed; reload before saving'')) (\<lambda>_.
     bind_tx policy_tx (\<lambda>current.
     bind_tx (owner_signal_tx T ''wallet_policy_changed'' ''wallet_policy'' (show_int (wp_version current))
         (JObject [(''actorUserId'', JString actor), (''before'', policy_json previous), (''after'', policy_json current)])
         time False) (\<lambda>_.
     bind_tx new_v4 (\<lambda>eid.
     bind_tx (insert_policy_event_tx \<lparr>ve_id = eid, ve_actor = actor, ve_before = previous, ve_after = current,
         ve_created_at = time\<rparr>) (\<lambda>_.
     return_tx current))))))))"


section \<open>Capacity\<close>

definition problem :: "string \<Rightarrow> string \<Rightarrow> app_error" where
  "problem code message = Coded 409 code message (JObject [])"

definition require_user_tx :: "string \<Rightarrow> ('a transfer_db_scheme, string) tx" where
  "require_user_tx user = read_tx (\<lambda>s.
     case find (\<lambda>u. u_id u = user \<and> u_status u = ''active'' \<and> u_email_verified_at u \<noteq> None) (users s) of
       None \<Rightarrow> Inl (problem ''WALLET_TRANSFER_USER_UNVERIFIED''
                ''both users must sign in with a verified email before transferring'')
     | Some u \<Rightarrow> Inr (u_email_normalized u))"

definition committed_transfer_units_tx ::
  "'a transfer_db_scheme transfer_env \<Rightarrow> string \<Rightarrow> string \<Rightarrow> ('a transfer_db_scheme, int) tx"
where
  "committed_transfer_units_tx E user time =
     bind_tx (lift_tx (case parse_rfc3339 (clock E) time of
         None \<Rightarrow> Inl (Internal ''invalid C2C time'') | Some t \<Rightarrow> Inr (utc_date E t))) (\<lambda>day.
     read_tx (\<lambda>s. case sql_sum (map co_amount (filter (\<lambda>o'. co_seller o' = user
           \<and> (co_status o' \<in> {''awaiting_seller'', ''awaiting_payment'', ''paid'', ''disputed''}
              \<or> (co_status o' = ''released''
                 \<and> (case Option.bind (co_released_at o') (sql_date E) of None \<Rightarrow> False | Some d \<Rightarrow> day \<le> d))))
         (c2c_orders s))) of
       None \<Rightarrow> Inl (db_error ''sum C2C transfer commitments'' (Database ''integer overflow''))
     | Some v \<Rightarrow> Inr v))"

definition sent_since :: "string \<Rightarrow> string \<Rightarrow> 'a transfer_db_scheme \<Rightarrow> int list" where
  "sent_since user day s = map tr_amount (filter (\<lambda>t. tr_sender t = user \<and> day \<le> tr_created_at t) (transfers s))"

record capacity =
  ca_transferable :: int
  ca_committed :: int
  ca_daily_remaining :: int
  ca_enabled :: bool
  ca_verified :: bool
  ca_blockers :: "string list"

text \<open>Slicing the first ten bytes of a shorter timestamp panics.\<close>

definition day_of :: "string \<Rightarrow> string result" where
  "day_of time = (if length time < 10 then Inl (Internal ''panic'') else Inr (take 10 time @ ''T00:00:00+00:00''))"

definition capacity_tx ::
  "'a transfer_db_scheme transfer_env \<Rightarrow> string \<Rightarrow> string \<Rightarrow> ('a transfer_db_scheme, capacity) tx"
where
  "capacity_tx E user time =
     bind_tx policy_tx (\<lambda>policy.
     bind_tx (gets_tx (\<lambda>s. ws_available (wallet_snapshot_tx user s))) (\<lambda>available.
     bind_tx (read_tx (\<lambda>s. case due_claims E user time s of Inl e \<Rightarrow> Inl e | Inr cs \<Rightarrow> prior_due_funding_units cs None)) (\<lambda>committed.
     bind_tx (lift_tx (day_of time)) (\<lambda>day.
     bind_tx (read_tx (\<lambda>s. case sql_sum (sent_since user day s) of
         None \<Rightarrow> Inl (db_error ''sum daily wallet transfers'' (Database ''integer overflow'')) | Some v \<Rightarrow> Inr v)) (\<lambda>sent.
     bind_tx (lift_tx (units_from_minor (wp_transfer_daily_max_minor policy))) (\<lambda>daily.
     bind_tx (committed_transfer_units_tx E user time) (\<lambda>c2c.
     let remaining = max (saturating_sub64 (saturating_sub64 daily sent) c2c) 0 in
     bind_tx (read_tx (\<lambda>s. case require_user_tx user s of
         Inr _ \<Rightarrow> Inr True
       | Inl e \<Rightarrow> if app_error_code e = Some ''WALLET_TRANSFER_USER_UNVERIFIED'' then Inr False else Inl e)) (\<lambda>verified.
     bind_tx (read_tx (\<lambda>s. case users_safe E [user] s of
         Inr _ \<Rightarrow> Inr []
       | Inl e \<Rightarrow> if app_error_code e = Some ''MARKET_FINANCE_HOLD'' then Inr [''finance_hold''] else Inl e)) (\<lambda>hold.
     let blockers = (if wp_transfers_enabled policy then [] else [''disabled''])
           @ (if wp_transfers_paused policy then [''paused''] else [])
           @ (if verified then [] else [''identity'']) @ hold in
     bind_tx (lift_tx (units_from_minor (wp_transfer_max_minor policy))) (\<lambda>most.
     return_tx \<lparr>ca_transferable = min (min (max (saturating_sub64 available committed) 0) most) remaining,
       ca_committed = committed, ca_daily_remaining = remaining, ca_enabled = (blockers = []), ca_verified = verified,
       ca_blockers = blockers\<rparr>))))))))))"

definition require_transfer_tx ::
  "'a transfer_db_scheme transfer_env \<Rightarrow> string \<Rightarrow> string \<Rightarrow> int \<Rightarrow> string \<Rightarrow> ('a transfer_db_scheme, unit) tx"
where
  "require_transfer_tx E sender recipient amount time =
     bind_tx (require_tx (sender \<noteq> recipient \<and> 0 < amount) (BadRequest ''invalid wallet transfer'')) (\<lambda>_.
     bind_tx (require_user_tx sender) (\<lambda>_.
     bind_tx (require_user_tx recipient) (\<lambda>_.
     bind_tx (read_tx (users_safe E [sender, recipient])) (\<lambda>_.
     bind_tx (capacity_tx E sender time) (\<lambda>free.
     bind_tx (require_tx (ca_enabled free) (problem ''WALLET_TRANSFER_PAUSED'' ''wallet transfers are not available'')) (\<lambda>_.
     require_tx (amount \<le> ca_transferable free) (problem ''WALLET_TRANSFER_INSUFFICIENT''
       ''transfer exceeds available balance or daily limit; review the amount'')))))))"


section \<open>Quotes\<close>

definition shift_time :: "time_lib \<Rightarrow> int \<Rightarrow> int \<Rightarrow> int result" where
  "shift_time T t n = (if utc_range T (t + n) then Inr (t + n) else Inl (Internal ''panic''))"

abbreviation minutes :: "int \<Rightarrow> int" where
  "minutes n \<equiv> n * 60000000000"

definition insert_attempt_tx :: "transfer_attempt \<Rightarrow> ('a transfer_db_scheme, unit) tx" where
  "insert_attempt_tx a s =
     (if ta_id a \<in> ta_id ` set (transfer_attempts s)
      then Inl (db_error ''record recipient lookup'' (Database ''market_wallet_transfer_attempts''))
      else Inr ((), s\<lparr>transfer_attempts := transfer_attempts s @ [a]\<rparr>))"

definition insert_transfer_quote_tx :: "transfer_quote \<Rightarrow> ('a transfer_db_scheme, unit) tx" where
  "insert_transfer_quote_tx q s =
     (if tq_id q \<in> tq_id ` set (transfer_quotes s) \<or> tq_amount q \<le> 0 \<or> tq_sender q = tq_recipient q
      then Inl (db_error ''save transfer quote'' (Database ''market_wallet_transfer_quotes''))
      else Inr ((), s\<lparr>transfer_quotes := transfer_quotes s @ [q]\<rparr>))"

text \<open>
  The first half of \<open>create_quote\<close> runs in its own statements and is kept even when no
  quote follows; \<open>since\<close>, \<open>recorded_at\<close> and \<open>at\<close> are the three readings of the clock.
\<close>

definition record_lookup_tx ::
  "time_lib \<Rightarrow> string \<Rightarrow> string \<Rightarrow> int \<Rightarrow> int \<Rightarrow> ('a transfer_db_scheme, unit) tx"
where
  "record_lookup_tx T user ip since recorded_at =
     bind_tx (lift_tx (shift_time T since (- minutes 60))) (\<lambda>cutoff.
     bind_tx (gets_tx (\<lambda>s. length (filter (\<lambda>a. (ta_sender a = user \<or> ta_ip a = ip) \<and> to_rfc3339 T cutoff \<le> ta_created_at a)
         (transfer_attempts s)))) (\<lambda>attempts.
     bind_tx (require_tx (attempts < 30) (TooManyRequests ''transfer quote limit reached; try later'')) (\<lambda>_.
     bind_tx new_v4 (\<lambda>aid.
     insert_attempt_tx \<lparr>ta_id = aid, ta_sender = user, ta_ip = ip, ta_created_at = to_rfc3339 T recorded_at\<rparr>))))"

definition quote_tx ::
  "'a transfer_db_scheme transfer_env \<Rightarrow> string \<Rightarrow> string \<Rightarrow> int option \<Rightarrow> int \<Rightarrow> ('a transfer_db_scheme, transfer_quote) tx"
where
  "quote_tx E user email amount_minor at =
     (let T = clock E; time = to_rfc3339 T at in
     bind_tx (lift_tx (shift_time T at (- minutes 60))) (\<lambda>cutoff.
     bind_tx (gets_tx (\<lambda>s. length (filter (\<lambda>q. tq_sender q = user \<and> to_rfc3339 T cutoff \<le> tq_created_at q) (transfer_quotes s)))) (\<lambda>recent.
     bind_tx (require_tx (recent < 30) (TooManyRequests ''transfer quote limit reached; try later'')) (\<lambda>_.
     bind_tx (require_user_tx user) (\<lambda>sender_email.
     bind_tx (read_tx (\<lambda>s.
         case find (\<lambda>u. u_email_normalized u = email \<and> u_status u = ''active'' \<and> u_email_verified_at u \<noteq> None) (users s) of
           None \<Rightarrow> Inl (problem ''WALLET_TRANSFER_RECIPIENT_UNAVAILABLE''
                    ''recipient must first sign in to this Router with this email'')
         | Some u \<Rightarrow> Inr (u_id u))) (\<lambda>recipient.
     bind_tx (case amount_minor of Some v \<Rightarrow> lift_tx (units_from_minor v)
         | None \<Rightarrow> bind_tx (capacity_tx E user time) (\<lambda>c. return_tx (ca_transferable c))) (\<lambda>amount.
     bind_tx (require_transfer_tx E user recipient amount time) (\<lambda>_.
     bind_tx new_v4 (\<lambda>qid.
     bind_tx (lift_tx (shift_time T at (minutes 15))) (\<lambda>expires.
     let quote = \<lparr>tq_id = qid, tq_sender = user, tq_recipient = recipient, tq_sender_email = sender_email,
         tq_recipient_email = email, tq_amount = amount, tq_expires_at = to_rfc3339 T expires, tq_created_at = time\<rparr> in
     bind_tx (insert_transfer_quote_tx quote) (\<lambda>_. return_tx quote)))))))))))"

text \<open>The request after the session is resolved; \<open>email\<close> is trimmed and in lower case.\<close>

definition create_quote ::
  "'a transfer_db_scheme transfer_env \<Rightarrow> string \<Rightarrow> string \<Rightarrow> string \<Rightarrow> int option \<Rightarrow> bool \<Rightarrow> int \<Rightarrow> int \<Rightarrow> int
     \<Rightarrow> 'a transfer_db_scheme \<Rightarrow> transfer_quote result \<times> 'a transfer_db_scheme"
where
  "create_quote E user ip email amount_minor all since recorded_at at s =
     (if 254 < length email \<or> CHR ''@'' \<notin> set email then (Inl (BadRequest ''valid recipient email required''), s)
      else if all = (amount_minor \<noteq> None) then (Inl (BadRequest ''choose an amount or transfer all''), s)
      else case record_lookup_tx (clock E) user ip since recorded_at s of
        Inl e \<Rightarrow> (Inl e, s)
      | Inr (_, u) \<Rightarrow>
         (case quote_tx E user email amount_minor at u of
            Inl e \<Rightarrow> (Inl e, u)
          | Inr (q, t) \<Rightarrow> (Inr q, t)))"

definition read_quote_tx :: "string \<Rightarrow> string \<Rightarrow> ('a transfer_db_scheme, transfer_quote) tx" where
  "read_quote_tx sender qid = read_tx (\<lambda>s.
     case find (\<lambda>q. tq_id q = qid \<and> tq_sender q = sender) (transfer_quotes s) of
       None \<Rightarrow> Inl (NotFound ''wallet transfer quote not found'') | Some q \<Rightarrow> Inr q)"


section \<open>Authorization and confirmation\<close>

definition authorization_check :: "time_lib \<Rightarrow> authorization \<Rightarrow> bool" where
  "authorization_check T a \<longleftrightarrow>
     az_session a \<noteq> [] \<and> az_operation a \<in> {''wallet_transfer'', ''c2c_release''} \<and> 0 < az_amount a
     \<and> 0 \<le> az_expected_version a \<and> az_acknowledgement a \<in> {''transfer_confirmed'', ''receipt_confirmed''}
     \<and> az_actor a \<noteq> az_counterparty a
     \<and> (case (julianday T (az_authenticated_at a), julianday T (az_expires_at a), julianday T (az_created_at a)) of
          (Some b, Some x, Some c) \<Rightarrow> b \<le> c \<and> c < x | _ \<Rightarrow> False)"

definition insert_authorization_tx :: "time_lib \<Rightarrow> authorization \<Rightarrow> ('a transfer_db_scheme, unit) tx" where
  "insert_authorization_tx T a s =
     (if az_id a \<in> az_id ` set (authorizations s)
         \<or> (az_operation a, az_object a) \<in> (\<lambda>b. (az_operation b, az_object b)) ` set (authorizations s)
         \<or> \<not> authorization_check T a
      then Inl (Internal ''record financial authorization failed'')
      else Inr ((), s\<lparr>authorizations := authorizations s @ [a]\<rparr>))"

definition record_tx ::
  "time_lib \<Rightarrow> auth_session \<Rightarrow> string \<Rightarrow> string \<Rightarrow> string \<Rightarrow> string \<Rightarrow> int \<Rightarrow> int \<Rightarrow> string \<Rightarrow> string \<Rightarrow> string
     \<Rightarrow> ('a transfer_db_scheme, string) tx"
where
  "record_tx T session actor operation object counterparty amount version fingerprint acknowledgement time =
     bind_tx (lift_tx (case parse_rfc3339 T time of
         None \<Rightarrow> Inl (Internal ''invalid authorization time'') | Some t \<Rightarrow> Inr t)) (\<lambda>at.
     bind_tx (require_tx (\<not> (user_id session \<noteq> actor \<or> session_id session = [] \<or> at < created_at session
         \<or> access_expires_at session \<le> at)) (Unauthorized ''valid login session required'')) (\<lambda>_.
     bind_tx new_v4 (\<lambda>aid.
     bind_tx (insert_authorization_tx T \<lparr>az_id = aid, az_actor = actor, az_session = session_id session,
         az_source_kind = auth_source_kind session, az_authenticated_at = to_rfc3339 T (created_at session),
         az_expires_at = to_rfc3339 T (access_expires_at session), az_operation = operation, az_object = object,
         az_counterparty = counterparty, az_amount = amount, az_expected_version = version,
         az_fingerprint = fingerprint, az_acknowledgement = acknowledgement, az_created_at = time\<rparr>) (\<lambda>_.
     return_tx aid))))"

definition insert_transfer_tx :: "transfer_row \<Rightarrow> ('a transfer_db_scheme, unit) tx" where
  "insert_transfer_tx x s =
     (if tr_id x \<in> tr_id ` set (transfers s) \<or> tr_quote x \<in> tr_quote ` set (transfers s)
         \<or> tr_authorization x \<in> tr_authorization ` set (transfers s) \<or> tr_journal x \<in> tr_journal ` set (transfers s)
         \<or> (tr_sender x, tr_idempotency_key x) \<in> (\<lambda>t. (tr_sender t, tr_idempotency_key t)) ` set (transfers s)
         \<or> tr_amount x \<le> 0 \<or> tr_sender x = tr_recipient x
      then Inl (db_error ''save wallet transfer'' (Database ''market_wallet_transfers''))
      else Inr ((), s\<lparr>transfers := transfers s @ [x]\<rparr>))"

record transfer =
  tf_id :: string
  tf_sender_email :: string
  tf_recipient_email :: string
  tf_amount :: int
  tf_journal :: string
  tf_created_at :: string

definition transfer_of :: "transfer_row \<Rightarrow> transfer" where
  "transfer_of x = \<lparr>tf_id = tr_id x, tf_sender_email = tr_sender_email x, tf_recipient_email = tr_recipient_email x,
     tf_amount = tr_amount x, tf_journal = tr_journal x, tf_created_at = tr_created_at x\<rparr>"

text \<open>The prior transfer of the sender with this key, else with this quote.\<close>

definition prior_transfer :: "string \<Rightarrow> string \<Rightarrow> string \<Rightarrow> 'a transfer_db_scheme \<Rightarrow> transfer_row option" where
  "prior_transfer sender idem quote s =
     (case find (\<lambda>t. tr_sender t = sender \<and> tr_idempotency_key t = idem) (transfers s) of
        Some t \<Rightarrow> Some t
      | None \<Rightarrow> find (\<lambda>t. tr_sender t = sender \<and> tr_quote t = quote) (transfers s))"

definition transfer_fingerprint :: "transfer_quote \<Rightarrow> string" where
  "transfer_fingerprint q = tq_sender q @ '':'' @ tq_recipient q @ '':'' @ show_int (tq_amount q) @ '':'' @ tq_id q"

definition transfer_postings :: "transfer_quote \<Rightarrow> posting list" where
  "transfer_postings q =
     [\<lparr>p_kind = ''wallet_available'', p_subject = tq_sender q, p_units = tq_amount q\<rparr>,
      \<lparr>p_kind = ''wallet_available'', p_subject = tq_recipient q, p_units = - tq_amount q\<rparr>]"

definition notify_transfer_tx :: "string \<Rightarrow> string \<Rightarrow> string \<Rightarrow> transfer_quote \<Rightarrow> string \<Rightarrow> ('a transfer_db_scheme, unit) tx" where
  "notify_transfer_tx recipient event tid q time =
     enqueue_user_notification_tx ''buyer'' recipient event ''wallet_transfer'' tid (event @ '':'' @ tid)
       (JObject [(''transferId'', JString tid), (''amountUnits'', JString (show_int (tq_amount q))),
          (''senderEmail'', JString (tq_sender_email q)), (''recipientEmail'', JString (tq_recipient_email q))]) time"

text \<open>The transfer itself, once the quote is checked.\<close>

definition execute_transfer_tx ::
  "time_lib \<Rightarrow> auth_session \<Rightarrow> string \<Rightarrow> transfer_quote \<Rightarrow> string \<Rightarrow> ('a transfer_db_scheme, transfer) tx"
where
  "execute_transfer_tx T session idem q time =
     bind_tx (ensure_wallet_tx (tq_recipient q) time) (\<lambda>_.
     bind_tx (gets_tx (\<lambda>s. checked_add64 (ws_posted (wallet_snapshot_tx (tq_recipient q) s)) (tq_amount q))) (\<lambda>sum.
     bind_tx (require_tx (sum \<noteq> None) (Conflict ''recipient wallet balance limit exceeded'')) (\<lambda>_.
     bind_tx new_v4 (\<lambda>tid.
     bind_tx (record_tx T session (tq_sender q) ''wallet_transfer'' tid (tq_recipient q) (tq_amount q) 0
         (transfer_fingerprint q) ''transfer_confirmed'' time) (\<lambda>aid.
     bind_tx (post_journal_tx ''wallet_transfer'' tid ''transfer'' (transfer_fingerprint q) (transfer_postings q) time) (\<lambda>journal.
     bind_tx (sub_posted_tx ''debit wallet transfer'' (tq_sender q) (tq_amount q) time) (\<lambda>changed.
     bind_tx (require_tx (changed = 1) (problem ''WALLET_TRANSFER_INSUFFICIENT''
         ''available balance changed; review the transfer again'')) (\<lambda>_.
     bind_tx (update_wallet_tx ''credit wallet transfer'' (tq_recipient q) (\<lambda>_. True)
         (\<lambda>w. w\<lparr>w_posted := w_posted w + tq_amount q, w_version := w_version w + 1, w_updated_at := time\<rparr>)) (\<lambda>_.
     let x = \<lparr>tr_id = tid, tr_sender = tq_sender q, tr_recipient = tq_recipient q, tr_sender_email = tq_sender_email q,
         tr_recipient_email = tq_recipient_email q, tr_amount = tq_amount q, tr_quote = tq_id q, tr_authorization = aid,
         tr_idempotency_key = idem, tr_fingerprint = transfer_fingerprint q, tr_journal = jr_id journal, tr_created_at = time\<rparr> in
     bind_tx (insert_transfer_tx x) (\<lambda>_.
     bind_tx (notify_transfer_tx (tq_sender q) ''wallet_transfer_sent'' tid q time) (\<lambda>_.
     bind_tx (notify_transfer_tx (tq_recipient q) ''wallet_transfer_received'' tid q time) (\<lambda>_.
     return_tx (transfer_of x)))))))))))))"

definition confirm_tx ::
  "'a transfer_db_scheme transfer_env \<Rightarrow> auth_session \<Rightarrow> string \<Rightarrow> string \<Rightarrow> string \<Rightarrow> string
     \<Rightarrow> ('a transfer_db_scheme, transfer) tx"
where
  "confirm_tx E session sender idem quote_id time =
     bind_tx (require_tx (user_id session = sender) (Forbidden ''transfer session does not own the sender'')) (\<lambda>_.
     bind_tx (gets_tx (prior_transfer sender idem quote_id)) (\<lambda>prior.
     case prior of
       Some x \<Rightarrow> bind_tx (require_tx (tr_quote x = quote_id) (Conflict ''wallet transfer idempotency conflict''))
                  (\<lambda>_. return_tx (transfer_of x))
     | None \<Rightarrow>
        bind_tx (read_quote_tx sender quote_id) (\<lambda>q.
        bind_tx (require_tx (time < tq_expires_at q) (problem ''WALLET_TRANSFER_QUOTE_EXPIRED''
            ''transfer quote expired; review the transfer again'')) (\<lambda>_.
        bind_tx (require_transfer_tx E sender (tq_recipient q) (tq_amount q) time) (\<lambda>_.
        bind_tx (require_user_tx sender) (\<lambda>sender_email.
        bind_tx (if sender_email \<noteq> tq_sender_email q then return_tx False
            else bind_tx (require_user_tx (tq_recipient q)) (\<lambda>email. return_tx (email = tq_recipient_email q))) (\<lambda>same.
        bind_tx (require_tx same (problem ''WALLET_TRANSFER_QUOTE_EXPIRED''
            ''recipient details changed; review the transfer again'')) (\<lambda>_.
        execute_transfer_tx (clock E) session idem q time))))))))"

definition valid_idempotency_key :: "string \<Rightarrow> bool" where
  "valid_idempotency_key v \<longleftrightarrow> 8 \<le> length v \<and> length v \<le> 128
     \<and> list_all (\<lambda>c. (CHR ''0'' \<le> c \<and> c \<le> CHR ''9'') \<or> (CHR ''a'' \<le> c \<and> c \<le> CHR ''z'') \<or> (CHR ''A'' \<le> c \<and> c \<le> CHR ''Z'')
          \<or> c = CHR ''-'' \<or> c = CHR ''_'') v"

text \<open>\<open>confirm\<close> after the session is resolved.\<close>

definition confirm ::
  "'a transfer_db_scheme transfer_env \<Rightarrow> auth_session \<Rightarrow> string option \<Rightarrow> string \<Rightarrow> string
     \<Rightarrow> ('a transfer_db_scheme, transfer) tx"
where
  "confirm E session key quote_id time =
     (case key of
        Some idem \<Rightarrow> if valid_idempotency_key idem then confirm_tx E session (user_id session) idem quote_id time
                    else fail_tx (BadRequest ''valid Idempotency-Key required'')
      | None \<Rightarrow> fail_tx (BadRequest ''valid Idempotency-Key required''))"


section \<open>Pruning\<close>

text \<open>Deleting at most \<open>n\<close> matching rows; the statement leaves open which, here the first ones.\<close>

fun prune_up_to :: "nat \<Rightarrow> ('r \<Rightarrow> bool) \<Rightarrow> 'r list \<Rightarrow> 'r list" where
  "prune_up_to n old [] = []"
| "prune_up_to n old (x # xs) = (if 0 < n \<and> old x then prune_up_to (n - 1) old xs else x # prune_up_to n old xs)"

definition prune_unused_tx :: "time_lib \<Rightarrow> int \<Rightarrow> ('a transfer_db_scheme, unit) tx" where
  "prune_unused_tx T time =
     bind_tx (lift_tx (shift_time T time (- days 30))) (\<lambda>month.
     let old = to_rfc3339 T month in
     bind_tx (write_tx (\<lambda>s. s\<lparr>conversion_quotes :=
         prune_up_to 2000 (\<lambda>q. snd q < old \<and> fst q \<notin> set (converted_quotes s)) (conversion_quotes s)\<rparr>)) (\<lambda>_.
     bind_tx (lift_tx (shift_time T time (- days 1))) (\<lambda>day.
     bind_tx (write_tx (\<lambda>s. s\<lparr>transfer_attempts :=
         prune_up_to 2000 (\<lambda>a. ta_created_at a < to_rfc3339 T day) (transfer_attempts s)\<rparr>)) (\<lambda>_.
     bind_tx (write_tx (\<lambda>s. s\<lparr>transfer_quotes :=
         prune_up_to 2000 (\<lambda>q. tq_expires_at q < old \<and> tq_id q \<notin> set (challenge_quotes s)
           \<and> tq_id q \<notin> tr_quote ` set (transfers s)) (transfer_quotes s)\<rparr>)) (\<lambda>_.
     write_tx (\<lambda>s. s\<lparr>topup_quotes :=
         prune_up_to 2000 (\<lambda>q. snd q < old \<and> fst q \<notin> set (ordered_quotes s)) (topup_quotes s)\<rparr>))))))"


section \<open>The evidence of a transfer\<close>

text \<open>The view \<open>market_verified_wallet_transfer_evidence\<close>, for transfers with a login authorization.\<close>

definition transfer_verified :: "'a transfer_db_scheme \<Rightarrow> transfer_row \<Rightarrow> bool" where
  "transfer_verified s x \<longleftrightarrow>
     (\<exists>q \<in> set (transfer_quotes s). tq_id q = tr_quote x \<and> tq_sender q = tr_sender x \<and> tq_recipient q = tr_recipient x
        \<and> tq_sender_email q = tr_sender_email x \<and> tq_recipient_email q = tr_recipient_email x \<and> tq_amount q = tr_amount x
        \<and> tr_created_at x < tq_expires_at q)
     \<and> tr_fingerprint x = tr_sender x @ '':'' @ tr_recipient x @ '':'' @ show_int (tr_amount x) @ '':'' @ tr_quote x
     \<and> (\<exists>j \<in> set (journals s). j_id j = tr_journal x \<and> j_source_kind j = ''wallet_transfer'' \<and> j_source_id j = tr_id x
        \<and> j_action j = ''transfer'' \<and> j_asset j = ''USD'' \<and> j_fingerprint j = tr_fingerprint x)
     \<and> (\<exists>z \<in> set (seals s). s_journal z = tr_journal x \<and> s_count z = 2)
     \<and> (\<exists>a \<in> set (authorizations s). az_id a = tr_authorization x \<and> az_actor a = tr_sender x
        \<and> az_counterparty a = tr_recipient x \<and> az_operation a = ''wallet_transfer'' \<and> az_object a = tr_id x
        \<and> az_amount a = tr_amount x \<and> az_expected_version a = 0 \<and> az_fingerprint a = tr_fingerprint x
        \<and> az_acknowledgement a = ''transfer_confirmed'' \<and> az_created_at a = tr_created_at x)
     \<and> length (journal_postings (tr_journal x) s) = 2
     \<and> (\<exists>p \<in> set (journal_postings (tr_journal x) s). pr_kind p = ''wallet_available'' \<and> pr_subject p = tr_sender x
        \<and> pr_units p = tr_amount x \<and> pr_asset p = ''USD'')
     \<and> (\<exists>p \<in> set (journal_postings (tr_journal x) s). pr_kind p = ''wallet_available'' \<and> pr_subject p = tr_recipient x
        \<and> pr_units p = - tr_amount x \<and> pr_asset p = ''USD'')"


section \<open>Reading transfers\<close>

definition transfers_of :: "string \<Rightarrow> 'a transfer_db_scheme \<Rightarrow> transfer_row list" where
  "transfers_of user s = filter (\<lambda>t. tr_sender t = user \<or> tr_recipient t = user) (transfers s)"

definition transfer_list ::
  "string \<Rightarrow> int option \<Rightarrow> int option \<Rightarrow> 'a transfer_db_scheme \<Rightarrow> transfer list \<times> int \<times> int \<times> int"
where
  "transfer_list user offset_arg limit_arg s =
     (let skip = max (case offset_arg of None \<Rightarrow> 0 | Some v \<Rightarrow> v) 0;
          limit = max 1 (min (case limit_arg of None \<Rightarrow> 20 | Some v \<Rightarrow> v) 100);
          rows = rev (sort_key tr_created_at (sort_key tr_id (transfers_of user s)))
      in (map transfer_of (take (nat limit) (drop (nat skip) rows)), int (length (transfers_of user s)), skip, limit))"

definition transfer_detail :: "string \<Rightarrow> string \<Rightarrow> 'a transfer_db_scheme \<Rightarrow> transfer result" where
  "transfer_detail user tid s =
     (case find (\<lambda>t. tr_id t = tid) (transfers_of user s) of
        None \<Rightarrow> Inl (NotFound ''wallet transfer not found'') | Some x \<Rightarrow> Inr (transfer_of x))"

end
