(* ===== verification/Transfer_Properties.thy ===== *)
theory Transfer_Properties
  imports Wallet_Transfers Ledger_Growth
begin

text \<open>
  What wallet transfers guarantee (\<open>src/src/market_wallet_transfers.rs\<close>): a confirmation
  moves exactly the quoted amount within the sender's limits, a retry changes nothing,
  and every transfer of every reachable state has the complete evidence that the
  reconciliation demands, with no journal left without its transfer.
\<close>


section \<open>Executing a transfer\<close>

lemma execute_transfer_cases:
  assumes "execute_transfer_tx T session idem q time s = Inr (r, t)"
  obtains s1 s2 tid aid s3 j s4 s5 n s6 s7 s8 x y z where
    "ensure_wallet_tx (tq_recipient q) time s = Inr (y, s1)"
    "checked_add64 (posted_of (tq_recipient q) s1) (tq_amount q) \<noteq> None"
    "new_v4 s1 = Inr (tid, s2)"
    "record_tx T session (tq_sender q) ''wallet_transfer'' tid (tq_recipient q) (tq_amount q) 0
       (transfer_fingerprint q) ''transfer_confirmed'' time s2 = Inr (aid, s3)"
    "post_journal_tx ''wallet_transfer'' tid ''transfer'' (transfer_fingerprint q) (transfer_postings q) time s3 = Inr (j, s4)"
    "sub_posted_tx ''debit wallet transfer'' (tq_sender q) (tq_amount q) time s4 = Inr (1, s5)"
    "update_wallet_tx ''credit wallet transfer'' (tq_recipient q) (\<lambda>_. True)
       (\<lambda>w. w\<lparr>w_posted := w_posted w + tq_amount q, w_version := w_version w + 1, w_updated_at := time\<rparr>) s5 = Inr (n, s6)"
    "x = \<lparr>tr_id = tid, tr_sender = tq_sender q, tr_recipient = tq_recipient q, tr_sender_email = tq_sender_email q,
         tr_recipient_email = tq_recipient_email q, tr_amount = tq_amount q, tr_quote = tq_id q, tr_authorization = aid,
         tr_idempotency_key = idem, tr_fingerprint = transfer_fingerprint q, tr_journal = jr_id j, tr_created_at = time\<rparr>"
    "insert_transfer_tx x s6 = Inr (z, s7)"
    "queued_only s7 s8" "queued_only s8 t" "r = transfer_of x"
proof -
  note result = that
  from assms obtain y s1 tid s2 aid s3 j s4 s5 n s6 z s7 a s8 b where
    c: "ensure_wallet_tx (tq_recipient q) time s = Inr (y, s1)"
    "checked_add64 (posted_of (tq_recipient q) s1) (tq_amount q) \<noteq> None"
    "new_v4 s1 = Inr (tid, s2)"
    "record_tx T session (tq_sender q) ''wallet_transfer'' tid (tq_recipient q) (tq_amount q) 0
       (transfer_fingerprint q) ''transfer_confirmed'' time s2 = Inr (aid, s3)"
    "post_journal_tx ''wallet_transfer'' tid ''transfer'' (transfer_fingerprint q) (transfer_postings q) time s3 = Inr (j, s4)"
    "sub_posted_tx ''debit wallet transfer'' (tq_sender q) (tq_amount q) time s4 = Inr (1, s5)"
    "update_wallet_tx ''credit wallet transfer'' (tq_recipient q) (\<lambda>_. True)
       (\<lambda>w. w\<lparr>w_posted := w_posted w + tq_amount q, w_version := w_version w + 1, w_updated_at := time\<rparr>) s5 = Inr (n, s6)"
    "insert_transfer_tx \<lparr>tr_id = tid, tr_sender = tq_sender q, tr_recipient = tq_recipient q, tr_sender_email = tq_sender_email q,
         tr_recipient_email = tq_recipient_email q, tr_amount = tq_amount q, tr_quote = tq_id q, tr_authorization = aid,
         tr_idempotency_key = idem, tr_fingerprint = transfer_fingerprint q, tr_journal = jr_id j, tr_created_at = time\<rparr> s6 = Inr (z, s7)"
    "notify_transfer_tx (tq_sender q) ''wallet_transfer_sent'' tid q time s7 = Inr (a, s8)"
    "notify_transfer_tx (tq_recipient q) ''wallet_transfer_received'' tid q time s8 = Inr (b, t)"
    "r = transfer_of \<lparr>tr_id = tid, tr_sender = tq_sender q, tr_recipient = tq_recipient q, tr_sender_email = tq_sender_email q,
         tr_recipient_email = tq_recipient_email q, tr_amount = tq_amount q, tr_quote = tq_id q, tr_authorization = aid,
         tr_idempotency_key = idem, tr_fingerprint = transfer_fingerprint q, tr_journal = jr_id j, tr_created_at = time\<rparr>"
    unfolding execute_transfer_tx_def Let_def tx_simps wallet_snapshot_of by blast
  have "within queued_only (notify_transfer_tx p e i q time)" for p e i
    unfolding notify_transfer_tx_def by (rule enqueue_user_notification_queued)
  from withinD [OF this c(9)] withinD [OF this c(10)] show thesis
    by (intro result [OF c(1-7) refl c(8) _ _ c(11)])
qed

lemma record_authorized:
  assumes "record_tx T session actor op object cp amt ver fp ack time s = Inr (aid, t)"
  obtains a n where "t = s\<lparr>uuid_drawn := n, authorizations := authorizations s @ [a]\<rparr>" "az_id a = aid" "az_actor a = actor"
    "az_counterparty a = cp" "az_operation a = op" "az_object a = object" "az_amount a = amt" "az_expected_version a = ver"
    "az_fingerprint a = fp" "az_acknowledgement a = ack" "az_created_at a = time" "user_id session = actor" "uuid_drawn s \<le> n"
proof -
  define a where "a = \<lparr>az_id = uuid_supply s (uuid_drawn s), az_actor = actor, az_session = session_id session,
    az_source_kind = auth_source_kind session, az_authenticated_at = to_rfc3339 T (created_at session),
    az_expires_at = to_rfc3339 T (access_expires_at session), az_operation = op, az_object = object,
    az_counterparty = cp, az_amount = amt, az_expected_version = ver,
    az_fingerprint = fp, az_acknowledgement = ack, az_created_at = time\<rparr>"
  from assms have "t = s\<lparr>uuid_drawn := Suc (uuid_drawn s), authorizations := authorizations s @ [a]\<rparr>"
    "aid = uuid_supply s (uuid_drawn s)" "user_id session = actor"
    by (auto simp: a_def record_tx_def tx_simps new_v4_def insert_authorization_tx_def split: if_splits)
  then show thesis by (intro that [of a "Suc (uuid_drawn s)"]) (simp_all add: a_def)
qed

section \<open>The wallets\<close>

lemma wallet_inv_transfer:
  assumes inv: "wallet_inv s" and p: "posted s j [\<lparr>p_kind = ''wallet_available'', p_subject = a, p_units = amt\<rparr>,
      \<lparr>p_kind = ''wallet_available'', p_subject = b, p_units = - amt\<rparr>] t1"
    and pos: "0 < amt" "a \<noteq> b"
    and w: "wallets s a = Some wa" "wallets s b = Some wb" "wallet_check wa'" "wallet_check wb'"
      "w_posted wa' = w_posted wa - amt" "w_held wa' = w_held wa" "w_posted wb' = w_posted wb + amt" "w_held wb' = w_held wb"
      "w_posted wb' \<le> i64_max"
    and t: "journals t = journals t1" "postings t = postings t1" "seals t = seals t1" "holds t = holds s"
      "wallets t = (wallets s)(a \<mapsto> wa', b \<mapsto> wb')"
  shows "wallet_inv t"
proof -
  have led: "ledger_ok t"
    using ledger_ok_posted [OF p] ledger_ok_cong [OF t(1-3)] inv by (simp add: wallet_inv_def)
  have rows: "acct_rows k v t = acct_rows k v s @ acct_units k v [\<lparr>p_kind = ''wallet_available'', p_subject = a, p_units = amt\<rparr>,
      \<lparr>p_kind = ''wallet_available'', p_subject = b, p_units = - amt\<rparr>]" for k v
    using acct_rows_posted [OF p] acct_rows_cong [OF t(2)] by simp
  have res: "reserved v t = reserved v s" for v by (rule reserved_cong [OF t(4)])
  have usr: "user_ok v t" for v
  proof (rule user_ok_move [where s = s and dp = "if v = a then - amt else if v = b then amt else 0" and dh = 0])
    show ok: "user_ok v s" using inv by (simp add: wallet_inv_def)
    show "posted_of v t = posted_of v s + (if v = a then - amt else if v = b then amt else 0)" "held_of v t = held_of v s + 0"
      using w t(5) pos by (simp_all add: posted_of_def held_of_def)
    show "0 \<le> held_of v t" "held_of v t \<le> posted_of v t" "posted_of v t \<le> i64_max"
      using w t(5) ok pos wallet_inv_row [OF inv w(1)]
      by (auto simp: posted_of_def held_of_def wallet_check_def user_ok_def split: if_splits)
    show "acct_rows ''wallet_available'' v t = acct_rows ''wallet_available'' v s
        @ (if 0 = (if v = a then - amt else if v = b then amt else 0) then [] else [0 - (if v = a then - amt else if v = b then amt else 0)])"
      using rows pos by (auto simp: acct_units_def)
    show "acct_rows ''wallet_held'' v t = acct_rows ''wallet_held'' v s @ (if (0::int) = 0 then [] else [- 0])"
      using rows by (simp add: acct_units_def)
  qed (use res in simp)
  show ?thesis using led usr inv w t(4,5) by (auto simp: wallet_inv_def)
qed

text \<open>No journal of a transfer without its transfer.\<close>

definition no_orphans :: "'a transfer_db_scheme \<Rightarrow> bool" where
  "no_orphans s \<longleftrightarrow>
     (\<forall>j \<in> set (journals s). j_source_kind j = ''wallet_transfer'' \<longrightarrow> j_id j \<in> tr_journal ` set (transfers s))"

lemma ensure_wallet_shape:
  assumes "ensure_wallet_tx u now s = Inr (y, t)"
  obtains W where "t = s\<lparr>wallets := W\<rparr>" "W u \<noteq> None"
  using assms by (auto simp: ensure_wallet_tx_def split: option.splits intro: that [of "wallets s"] that)

lemma post_rows_usd:
  assumes "post_journal_tx sk sid act fp ps now s = Inr (r, t)"
  shows "\<exists>rows. postings t = postings s @ rows \<and> (\<forall>p \<in> set rows. pr_asset p = ''USD'')"
proof -
  have ins: "\<exists>rows. postings t = postings s @ rows \<and> (\<forall>p \<in> set rows. pr_asset p = ''USD'')"
    if "insert_postings_tx jid now ps s = Inr (x, t)" for jid ps x and s t :: "'a wallet_db_scheme"
    using that
  proof (induction ps arbitrary: s)
    case (Cons p ps)
    then obtain u v pid where u: "new_v4 s = Inr (pid, v)" "insert_posting_tx \<lparr>pr_id = pid, pr_journal = jid, pr_kind = p_kind p,
        pr_subject = p_subject p, pr_asset = ''USD'', pr_units = p_units p, pr_created_at = now\<rparr> v = Inr ((), u)"
      and rest: "insert_postings_tx jid now ps u = Inr (x, t)" by (auto simp: tx_simps)
    from u have "postings u = postings s @ [\<lparr>pr_id = pid, pr_journal = jid, pr_kind = p_kind p,
        pr_subject = p_subject p, pr_asset = ''USD'', pr_units = p_units p, pr_created_at = now\<rparr>]"
      by (auto simp: new_v4_def insert_posting_tx_def split: if_splits)
    with Cons.IH [OF rest] show ?case by auto
  qed (simp add: tx_simps)
  show ?thesis
  proof (cases "find_journal sk sid act s")
    case (Some j)
    then show ?thesis using assms by (auto simp: post_journal_tx_def existing_journal_tx_def tx_simps split: if_splits)
  next
    case None
    with assms obtain jid u v w x y z where "new_v4 s = Inr (jid, u)" "insert_journal_tx x u = Inr ((), v)"
      "insert_postings_tx jid now ps v = Inr ((), w)" "insert_seal_tx y w = Inr (z, t)"
      by (auto simp: post_journal_tx_def existing_journal_tx_def tx_simps split: if_splits)
    then have "postings v = postings s" "postings t = postings w" and i: "insert_postings_tx jid now ps v = Inr ((), w)"
      by (auto simp: new_v4_def insert_journal_tx_def insert_seal_tx_def Let_def split: if_splits)
    with ins [OF i] show ?thesis by simp
  qed
qed

lemma transfer_funds:
  assumes inv: "wallet_inv s" and post: "posted s j (transfer_postings q) s4" and pos: "0 < tq_amount q" "tq_sender q \<noteq> tq_recipient q"
    and room: "wallets s (tq_recipient q) \<noteq> None" "posted_of (tq_recipient q) s + tq_amount q \<le> i64_max"
    and debit: "sub_posted_tx ctx (tq_sender q) (tq_amount q) time s4 = Inr (1, s5)"
    and credit: "update_wallet_tx ctx' (tq_recipient q) (\<lambda>_. True)
       (\<lambda>w. w\<lparr>w_posted := w_posted w + tq_amount q, w_version := w_version w + 1, w_updated_at := time\<rparr>) s5 = Inr (n, s6)"
  obtains W where "s6 = s4\<lparr>wallets := W\<rparr>" "wallet_inv s6" "tq_amount q \<le> posted_of (tq_sender q) s - held_of (tq_sender q) s"
    "\<And>v. posted_of v s6 = posted_of v s + (if v = tq_sender q then - tq_amount q else if v = tq_recipient q then tq_amount q else 0)"
    "\<And>v. held_of v s6 = held_of v s"
proof -
  note f = posted_frame [OF post]
  from debit obtain wa where wa: "wallets s (tq_sender q) = Some wa" "tq_amount q \<le> w_posted wa - w_held wa"
    "wallet_check (wa\<lparr>w_posted := w_posted wa - tq_amount q, w_version := w_version wa + 1, w_updated_at := time\<rparr>)"
    and s5: "s5 = s4\<lparr>wallets := (wallets s)(tq_sender q \<mapsto> wa\<lparr>w_posted := w_posted wa - tq_amount q,
      w_version := w_version wa + 1, w_updated_at := time\<rparr>)\<rparr>"
    by (auto simp: sub_posted_tx_def update_wallet_tx_1 f)
  from room(1) obtain wb where wb: "wallets s (tq_recipient q) = Some wb" by blast
  let ?wb = "wb\<lparr>w_posted := w_posted wb + tq_amount q, w_version := w_version wb + 1, w_updated_at := time\<rparr>"
  let ?wa = "wa\<lparr>w_posted := w_posted wa - tq_amount q, w_version := w_version wa + 1, w_updated_at := time\<rparr>"
  have "wallets s5 (tq_recipient q) = Some wb" using wb pos(2) by (simp add: s5)
  with credit have chk: "wallet_check ?wb" and s6: "s6 = s4\<lparr>wallets := (wallets s)(tq_sender q \<mapsto> ?wa, tq_recipient q \<mapsto> ?wb)\<rparr>"
    by (auto simp: update_wallet_tx_def s5 split: if_splits)
  have "wallet_inv s6"
    by (rule wallet_inv_transfer [OF inv post [unfolded transfer_postings_def] pos, of wa wb ?wa ?wb])
      (use wa wb chk room(2) in \<open>simp_all add: s6 f posted_of_def\<close>)
  moreover have "posted_of v s6 = posted_of v s + (if v = tq_sender q then - tq_amount q else if v = tq_recipient q then tq_amount q else 0)"
    "held_of v s6 = held_of v s" for v
    using pos(2) wa(1) wb by (simp_all add: s6 posted_of_def held_of_def)
  moreover have "tq_amount q \<le> posted_of (tq_sender q) s - held_of (tq_sender q) s"
    using wa(1,2) by (simp add: posted_of_def held_of_def)
  ultimately show thesis using s6 that by blast
qed

lemma execute_transfer_shape:
  assumes op: "execute_transfer_tx T session idem q time s = Inr (r, t)" and inv: "wallet_inv s" and orphans: "no_orphans s"
    and pos: "0 < tq_amount q" "tq_sender q \<noteq> tq_recipient q"
  obtains x tid aid a j z rows W n no oo where
    "t = s\<lparr>uuid_drawn := n, wallets := W, journals := journals s @ [j], postings := postings s @ rows, seals := seals s @ [z],
       notification_outbox := no, operator_outbox := oo, authorizations := authorizations s @ [a], transfers := transfers s @ [x]\<rparr>"
    "wallet_inv t" "r = transfer_of x"
    "x = \<lparr>tr_id = tid, tr_sender = tq_sender q, tr_recipient = tq_recipient q, tr_sender_email = tq_sender_email q,
         tr_recipient_email = tq_recipient_email q, tr_amount = tq_amount q, tr_quote = tq_id q, tr_authorization = aid,
         tr_idempotency_key = idem, tr_fingerprint = transfer_fingerprint q, tr_journal = j_id j, tr_created_at = time\<rparr>"
    "map row_posting rows = transfer_postings q" "\<And>p. p \<in> set rows \<Longrightarrow> pr_journal p = j_id j \<and> pr_asset p = ''USD''"
    "journal_postings (j_id j) s = []" "j_id j \<notin> j_id ` set (journals s)"
    "j_source_kind j = ''wallet_transfer''" "j_source_id j = tid" "j_action j = ''transfer''" "j_asset j = ''USD''"
    "j_fingerprint j = transfer_fingerprint q" "s_journal z = j_id j" "s_count z = 2"
    "az_id a = aid" "az_actor a = tq_sender q" "az_counterparty a = tq_recipient q" "az_operation a = ''wallet_transfer''"
    "az_object a = tid" "az_amount a = tq_amount q" "az_expected_version a = 0" "az_fingerprint a = transfer_fingerprint q"
    "az_acknowledgement a = ''transfer_confirmed''" "az_created_at a = time"
    "\<And>v. posted_of v t = posted_of v s + (if v = tq_sender q then - tq_amount q else if v = tq_recipient q then tq_amount q else 0)"
    "\<And>v. held_of v t = held_of v s" "user_id session = tq_sender q"
    "tq_amount q \<le> posted_of (tq_sender q) s - held_of (tq_sender q) s"
proof -
  note result = that
  from op show thesis
  proof (cases rule: execute_transfer_cases)
    case (1 s1 s2 tid aid s3 jr s4 s5 n s6 s7 s8 x y z)
    from 1(1) obtain W1 where s1: "s1 = s\<lparr>wallets := W1\<rparr>" and W1: "W1 (tq_recipient q) \<noteq> None" by (rule ensure_wallet_shape)
    from 1(4) obtain a n3 where s3: "s3 = s2\<lparr>uuid_drawn := n3, authorizations := authorizations s2 @ [a]\<rparr>"
      and a: "az_id a = aid" "az_actor a = tq_sender q" "az_counterparty a = tq_recipient q" "az_operation a = ''wallet_transfer''"
        "az_object a = tid" "az_amount a = tq_amount q" "az_expected_version a = 0" "az_fingerprint a = transfer_fingerprint q"
        "az_acknowledgement a = ''transfer_confirmed''" "az_created_at a = time" "user_id session = tq_sender q"
      by (rule record_authorized)
    have s3: "s3 = s\<lparr>wallets := W1, uuid_drawn := n3, authorizations := authorizations s @ [a]\<rparr>"
      using 1(3) by (auto simp: new_v4_def s1 s3)
    have e: "posted_of v s3 = posted_of v s" "held_of v s3 = held_of v s" for v
      using ensure_wallet_tx_Inr(7,8) [OF 1(1), of v] by (simp_all add: s1 s3 posted_of_def held_of_def)
    have inv3: "wallet_inv s3" using wallet_inv_ensure [OF 1(1) inv] wallet_inv_cong [of s3 s1] by (simp add: s3 s1)
    have room: "posted_of (tq_recipient q) s3 + tq_amount q \<le> i64_max" "wallets s3 (tq_recipient q) \<noteq> None"
      using 1(2) W1 by (auto simp: checked_add64_def checked_i64_def in_i64_def s1 s3 posted_of_def split: if_splits)
    from 1(5) show thesis
    proof (cases rule: post_journal_tx_cases)
      case (replay j)
      then have "j \<in> set (journals s)" "j_source_kind j = ''wallet_transfer''"
        by (auto simp: find_journal_def find_Some_iff s3)
      then have "jr_id jr \<in> tr_journal ` set (transfers s)" using orphans replay(3) by (auto simp: no_orphans_def)
      moreover have "transfers s6 = transfers s"
        using 1(6,7) replay(4) by (auto simp: s3 sub_posted_tx_def update_wallet_tx_def split: option.splits if_splits)
      ultimately show thesis using 1(9) by (simp add: insert_transfer_tx_def 1(8))
    next
      case (fresh j)
      from fresh(10) obtain m rows where s4: "s4 = s3\<lparr>uuid_drawn := m, journals := journals s3 @ [j], postings := postings s3 @ rows,
          seals := seals s3 @ [\<lparr>s_journal = j_id j, s_count = int (length (transfer_postings q)), s_sealed_at = j_created_at j\<rparr>]\<rparr>"
        and rows: "map row_posting rows = transfer_postings q" "\<forall>p \<in> set rows. pr_journal p = j_id j"
        and new: "j_id j \<notin> j_id ` set (journals s3)" "journal_postings (j_id j) s3 = []"
        unfolding posted_def by blast
      from post_rows_usd [OF 1(5)] have usd: "\<forall>p \<in> set rows. pr_asset p = ''USD''" by (auto simp: s4)
      from transfer_funds [OF inv3 fresh(10) pos room(2,1) 1(6,7)] obtain W where s6: "s6 = s4\<lparr>wallets := W\<rparr>" and f: "wallet_inv s6"
        "tq_amount q \<le> posted_of (tq_sender q) s - held_of (tq_sender q) s"
        "\<And>v. posted_of v s6 = posted_of v s + (if v = tq_sender q then - tq_amount q else if v = tq_recipient q then tq_amount q else 0)"
        "\<And>v. held_of v s6 = held_of v s" unfolding e by blast
      have s7: "s7 = s6\<lparr>transfers := transfers s @ [x]\<rparr>"
        using 1(9) by (auto simp: insert_transfer_tx_def s6 s4 s3 split: if_splits)
      from 1(10,11) obtain k no oo where t: "t = s7\<lparr>uuid_drawn := k, notification_outbox := no, operator_outbox := oo\<rparr>"
        by (auto elim!: queued_onlyE)
      have g: "wallet_inv t" "\<And>v. posted_of v t = posted_of v s6" "\<And>v. held_of v t = held_of v s6"
        using f(1) wallet_inv_cong [of t s6] by (simp_all add: t s7 posted_of_def held_of_def)
      show thesis
        by (rule result [where x = x and tid = tid and aid = aid and a = a and j = j and rows = rows and W = W and n = k and no = no and oo = oo
            and z = "\<lparr>s_journal = j_id j, s_count = int (length (transfer_postings q)), s_sealed_at = j_created_at j\<rparr>"])
          (use g f(2-4) a rows new usd fresh(3-9) 1(8,12) in \<open>simp_all add: t s7 s6 s4 s3 transfer_postings_def journal_postings_def\<close>)
    qed
  qed
qed

section \<open>Confirmation\<close>

lemma sql_sum_range: "sql_sum xs = Some n \<Longrightarrow> in_i64 n"
proof -
  have "in_i64 acc \<Longrightarrow> sql_sum_from acc xs = Some n \<Longrightarrow> in_i64 n" for acc
    by (induction xs arbitrary: acc) (auto simp: checked_add64_def checked_i64_def split: option.splits if_splits)
  from this [of 0] show "sql_sum xs = Some n \<Longrightarrow> in_i64 n" by (simp add: sql_sum_def in_i64_def i64_min_def i64_max_def)
qed

lemma minor_units_exact: "units_from_minor n = Inr u \<Longrightarrow> u = n * 86400 \<and> 0 < u \<and> u \<le> i64_max"
  by (auto simp: units_from_minor_def checked_mul64_def checked_i64_def in_i64_def MONEY_UNITS_PER_MINOR_def
      split: if_splits option.splits)

lemma capacity_cases:
  assumes "capacity_tx E user time s = Inr (c, t)"
  obtains committed day sent daily c2c verified hold most where "t = s"
    "(case due_claims E user time s of Inl e \<Rightarrow> Inl e | Inr cs \<Rightarrow> prior_due_funding_units cs None) = Inr committed"
    "day_of time = Inr day" "sql_sum (sent_since user day s) = Some sent"
    "units_from_minor (wp_transfer_daily_max_minor (wallet_policy_row s)) = Inr daily"
    "committed_transfer_units_tx E user time s = Inr (c2c, s)"
    "units_from_minor (wp_transfer_max_minor (wallet_policy_row s)) = Inr most"
    "c = \<lparr>ca_transferable = min (min (max (saturating_sub64 (posted_of user s - held_of user s) committed) 0) most)
        (max (saturating_sub64 (saturating_sub64 daily sent) c2c) 0),
       ca_committed = committed, ca_daily_remaining = max (saturating_sub64 (saturating_sub64 daily sent) c2c) 0,
       ca_enabled = ((if wp_transfers_enabled (wallet_policy_row s) then [] else [''disabled''])
           @ (if wp_transfers_paused (wallet_policy_row s) then [''paused''] else [])
           @ (if verified then [] else [''identity'']) @ hold = []), ca_verified = verified,
       ca_blockers = (if wp_transfers_enabled (wallet_policy_row s) then [] else [''disabled''])
           @ (if wp_transfers_paused (wallet_policy_row s) then [''paused''] else [])
           @ (if verified then [] else [''identity'']) @ hold\<rparr>"
proof -
  have same: "u = s" if "committed_transfer_units_tx E user time s = Inr (c2c, u)" for c2c u
    using that by (auto simp: committed_transfer_units_tx_def tx_simps)
  have sum: "(case sql_sum xs of None \<Rightarrow> Inl e | Some v \<Rightarrow> Inr v) = Inr w \<longleftrightarrow> sql_sum xs = Some w" for xs w and e :: app_error
    by (simp split: option.splits)
  from assms show thesis
    unfolding capacity_tx_def policy_tx_def Let_def tx_simps wallet_snapshot_of sum by (elim exE conjE) (hypsubst, frule same, hypsubst, rule that, (assumption | rule refl)+)
qed

text \<open>A positive capacity respects the limit per transfer, the limit per day and the funds that are due.\<close>

lemma capacity_limits:
  assumes "capacity_tx E user time s = Inr (c, t)" "0 < amount" "amount \<le> ca_transferable c"
  obtains committed day c2c where "t = s" "day_of time = Inr day" "committed_transfer_units_tx E user time s = Inr (c2c, s)"
    "(case due_claims E user time s of Inl e \<Rightarrow> Inl e | Inr cs \<Rightarrow> prior_due_funding_units cs None) = Inr committed"
    "amount \<le> wp_transfer_max_minor (wallet_policy_row s) * 86400"
    "sum_list (sent_since user day s) + c2c + amount \<le> wp_transfer_daily_max_minor (wallet_policy_row s) * 86400"
    "committed + amount \<le> posted_of user s - held_of user s"
    "ca_enabled c \<Longrightarrow> wp_transfers_enabled (wallet_policy_row s) \<and> \<not> wp_transfers_paused (wallet_policy_row s)"
  using assms(1)
proof (cases rule: capacity_cases)
  case (1 committed day sent daily c2c verified hold most)
  have sent: "sent = sum_list (sent_since user day s)" "in_i64 sent" using sql_sum_Some [OF 1(4)] sql_sum_range [OF 1(4)] by simp_all
  have d: "daily = wp_transfer_daily_max_minor (wallet_policy_row s) * 86400" "0 < daily" using minor_units_exact [OF 1(5)] by simp_all
  have m: "amount \<le> wp_transfer_max_minor (wallet_policy_row s) * 86400" using minor_units_exact [OF 1(7)] assms(3) 1(8) by simp
  have "amount \<le> saturating_sub64 (saturating_sub64 daily sent) c2c" using assms(2,3) 1(8) by (simp add: le_max_iff_disj)
  then have "sent + c2c + amount \<le> daily"
    using assms(2) sent(2) d(2) by (auto simp: saturating_sub64_def in_i64_def i64_min_def i64_max_def)
  moreover have "amount \<le> saturating_sub64 (posted_of user s - held_of user s) committed" using assms(2,3) 1(8) by (simp add: le_max_iff_disj)
  then have "committed + amount \<le> posted_of user s - held_of user s"
    using assms(2) by (auto simp: saturating_sub64_def i64_min_def i64_max_def)
  ultimately show thesis
    using that [OF 1(1,3,6,2) m] d(1) sent(1) 1(8) by (auto split: if_splits)
qed

lemma require_user_same: "require_user_tx u s = Inr (e, t) \<Longrightarrow> t = s"
  by (simp add: require_user_tx_def tx_simps)

lemma require_transfer_Inr:
  assumes "require_transfer_tx E sender recipient amount time s = Inr (x, t)"
  obtains c where "t = s" "sender \<noteq> recipient" "0 < amount" "capacity_tx E sender time s = Inr (c, s)" "ca_enabled c"
    "amount \<le> ca_transferable c"
proof -
  from assms obtain e1 e2 s1 s2 c s3 where *: "sender \<noteq> recipient" "0 < amount" "require_user_tx sender s = Inr (e1, s1)"
    "require_user_tx recipient s1 = Inr (e2, s2)" "capacity_tx E sender time s2 = Inr (c, s3)" "ca_enabled c"
    "amount \<le> ca_transferable c" "t = s3"
    unfolding require_transfer_tx_def tx_simps by blast
  note same = require_user_same [OF *(3)] require_user_same [OF *(4)]
  from *(5) have "s3 = s2" by (rule capacity_cases)
  with * same show thesis using that by simp
qed

lemma confirm_cases:
  assumes "confirm_tx E session sender idem qid time s = Inr (r, t)"
  obtains (replay) x where "prior_transfer sender idem qid s = Some x" "tr_quote x = qid" "r = transfer_of x" "t = s" "user_id session = sender"
  | (fresh) q c where "prior_transfer sender idem qid s = None" "q \<in> set (transfer_quotes s)" "tq_id q = qid" "tq_sender q = sender"
      "time < tq_expires_at q" "tq_sender q \<noteq> tq_recipient q" "0 < tq_amount q" "capacity_tx E sender time s = Inr (c, s)"
      "ca_enabled c" "tq_amount q \<le> ca_transferable c" "execute_transfer_tx (clock E) session idem q time s = Inr (r, t)"
      "user_id session = sender"
proof (cases "prior_transfer sender idem qid s")
  case (Some x)
  with assms replay show thesis by (auto simp: confirm_tx_def tx_simps)
next
  case None
  with assms obtain q s1 x s2 e s3 b s4 where *: "user_id session = sender" "read_quote_tx sender qid s = Inr (q, s1)" "time < tq_expires_at q"
    "require_transfer_tx E sender (tq_recipient q) (tq_amount q) time s1 = Inr (x, s2)"
    "require_user_tx sender s2 = Inr (e, s3)"
    "(if e \<noteq> tq_sender_email q then return_tx False
      else bind_tx (require_user_tx (tq_recipient q)) (\<lambda>email. return_tx (email = tq_recipient_email q))) s3 = Inr (b, s4)"
    "execute_transfer_tx (clock E) session idem q time s4 = Inr (r, t)"
    by (auto simp: confirm_tx_def tx_simps)
  from *(2) have q: "q \<in> set (transfer_quotes s)" "tq_id q = qid" "tq_sender q = sender" "s1 = s"
    by (auto simp: read_quote_tx_def tx_simps find_Some_iff split: option.splits)
  from *(6) have "s4 = s3" by (auto simp: tx_simps dest: require_user_same split: if_splits)
  with require_user_same [OF *(5)] have s4: "s4 = s2" by simp
  from *(4) show thesis
  proof (cases rule: require_transfer_Inr)
    case (1 c)
    then show thesis using fresh [OF None q(1-3) *(3)] *(1,7) q(3,4) s4 by simp
  qed
qed

lemma prior_None:
  "prior_transfer sender idem qid s = None \<Longrightarrow> x \<in> set (transfers s) \<Longrightarrow> tr_sender x = sender \<Longrightarrow> tr_idempotency_key x \<noteq> idem \<and> tr_quote x \<noteq> qid"
  by (auto simp: prior_transfer_def find_None_iff split: option.splits)



section \<open>The machine\<close>

text \<open>
  Any interleaving of wallet operations, changes of users, C2C orders and the policy, quotes,
  confirmations and pruning. Other components never post under the source of a transfer.
\<close>

datatype transfer_cmd =
    TWallet wallet_cmd
  | TUsers "user_row list"
  | TOrders "c2c_order list"
  | TPolicy string int wallet_policy string
  | TQuote string string string "int option" bool int int int
  | TConfirm auth_session "string option" string string
  | TPrune int

fun spares_transfers :: "wallet_cmd \<Rightarrow> bool" where
  "spares_transfers (Capture i amt tk tid ak aid now) \<longleftrightarrow> ak \<noteq> ''wallet_transfer''"
| "spares_transfers (Debit u amt tk tid sk sid act now) \<longleftrightarrow> sk \<noteq> ''wallet_transfer''"
| "spares_transfers (Refund u amt lk lid sk sid act now) \<longleftrightarrow> sk \<noteq> ''wallet_transfer''"
| "spares_transfers (PostOther sk sid act fp ps now) \<longleftrightarrow> sk \<noteq> ''wallet_transfer''"
| "spares_transfers (Reserve u sk sid pp amt ex now) \<longleftrightarrow> sk \<noteq> ''wallet_transfer''"
| "spares_transfers _ \<longleftrightarrow> True"

fun transfer_step :: "'a transfer_db_scheme transfer_env \<Rightarrow> transfer_cmd \<Rightarrow> 'a transfer_db_scheme \<Rightarrow> 'a transfer_db_scheme" where
  "transfer_step E (TWallet c) = (if spares_transfers c then wallet_step c else (\<lambda>s. s))"
| "transfer_step E (TUsers us) = (\<lambda>s. s\<lparr>users := us\<rparr>)"
| "transfer_step E (TOrders os) = (\<lambda>s. s\<lparr>c2c_orders := os\<rparr>)"
| "transfer_step E (TPolicy actor expected p time) = commit_tx (set_wallet_policy (clock E) actor expected p time)"
| "transfer_step E (TQuote user ip email amount all since recorded_at at) =
     (\<lambda>s. snd (create_quote E user ip email amount all since recorded_at at s))"
| "transfer_step E (TConfirm session key qid time) = commit_tx (confirm E session key qid time)"
| "transfer_step E (TPrune time) = commit_tx (prune_unused_tx (clock E) time)"

text \<open>Steps of the other components.\<close>

definition elsewhere :: "'a wallet_db_scheme \<Rightarrow> 'a wallet_db_scheme \<Rightarrow> bool" where
  "elsewhere s t \<longleftrightarrow> wallet_db.more t = wallet_db.more s \<and> grown (\<lambda>j. j_source_kind j \<noteq> ''wallet_transfer'') s t"

interpretation elsewhere: tx_preorder elsewhere
proof unfold_locales
  fix s t u :: "'a wallet_db_scheme"
  show "elsewhere s s" by (simp add: elsewhere_def growth.R_refl)
  assume "elsewhere s t" "elsewhere t u"
  then show "elsewhere s u" unfolding elsewhere_def by (auto intro: growth.R_trans)
qed

lemma elsewhere_silent: "within silent m \<Longrightarrow> within spared m \<Longrightarrow> within elsewhere m"
  by (rule withinI) (auto simp: elsewhere_def spared_def dest: withinD intro: silent_grown)

lemma elsewhere_post:
  assumes "sk \<noteq> ''wallet_transfer''"
  shows "within elsewhere (post_journal_tx sk sid act fp ps now)"
proof (rule withinI)
  fix s r and t :: "'a wallet_db_scheme"
  assume op: "post_journal_tx sk sid act fp ps now s = Inr (r, t)"
  then have "wallet_db.more t = wallet_db.more s" by (cases rule: post_journal_tx_cases) (simp_all add: posted_frame(5))
  moreover have "grown (\<lambda>j. j_source_kind j \<noteq> ''wallet_transfer'') s t"
    by (rule withinD [OF post_journal_grown op]) (simp add: assms)
  ultimately show "elsewhere s t" by (simp add: elsewhere_def)
qed

lemmas elsewhere_rules = elsewhere.within_rules elsewhere_post
  elsewhere_silent [OF silent_wallet_tables(1) spared_tables(1)] elsewhere_silent [OF silent_wallet_tables(2) spared_tables(2)]
  elsewhere_silent [OF silent_wallet_tables(3) spared_tables(3)] elsewhere_silent [OF silent_wallet_tables(4) spared_tables(4)]
  elsewhere_silent [OF silent_wallet_tables(5) spared_tables(5)] elsewhere_silent [OF silent_wallet_tables(6) spared_tables(6)]

lemma wallet_ops_elsewhere:
  "within elsewhere (credit_verified_topup_tx u oid amt rf now)"
  "within elsewhere (credit_manual_topup_tx u oid amt rf now)"
  "within elsewhere (reverse_topup_credit_tx u oid amt rf now)"
  "within elsewhere (release_hold_tx i now)"
  "ak \<noteq> ''wallet_transfer'' \<Longrightarrow> within elsewhere (reserve_wallet_tx u ak sid pp amt ex now)"
  "ak \<noteq> ''wallet_transfer'' \<Longrightarrow> within elsewhere (capture_hold_tx i amt tk tid ak aid now)"
  "ak \<noteq> ''wallet_transfer'' \<Longrightarrow> within elsewhere (debit_available_tx u amt tk tid ak sid act now)"
  "ak \<noteq> ''wallet_transfer'' \<Longrightarrow> within elsewhere (credit_wallet_from_liability_tx u amt tk tid ak sid act now)"
  unfolding credit_verified_topup_tx_def credit_manual_topup_tx_def reverse_topup_credit_tx_def
    reserve_wallet_tx_def capture_hold_tx_def debit_available_tx_def
    credit_wallet_from_liability_tx_def release_hold_tx_def
    add_posted_tx_def sub_posted_tx_def add_held_tx_def
  by (intro elsewhere_rules; auto)+

lemma wallet_step_elsewhere: "spares_transfers c \<Longrightarrow> elsewhere s (wallet_step c s)"
proof (cases c)
  case (OrdersChanged orders actions)
  then show ?thesis by (simp add: elsewhere_def silent_grown silent_def)
qed (auto intro!: elsewhere.commit_within wallet_ops_elsewhere elsewhere_post simp: elsewhere.R_refl)

section \<open>The invariant\<close>

definition transfer_inv :: "'a transfer_db_scheme \<Rightarrow> bool" where
  "transfer_inv s \<longleftrightarrow> wallet_inv s \<and> no_orphans s \<and> list_all (transfer_verified s) (transfers s)"

lemma verified_stays:
  assumes x: "transfer_verified s x"
    and q: "\<And>q. q \<in> set (transfer_quotes s) \<Longrightarrow> tq_id q = tr_quote x \<Longrightarrow> q \<in> set (transfer_quotes t)"
    and sub: "set (authorizations s) \<subseteq> set (authorizations t)" "set (journals s) \<subseteq> set (journals t)" "set (seals s) \<subseteq> set (seals t)"
    and rows: "\<And>i. i \<in> j_id ` set (journals s) \<Longrightarrow> journal_postings i t = journal_postings i s"
  shows "transfer_verified t x"
proof -
  from x have "tr_journal x \<in> j_id ` set (journals s)" unfolding transfer_verified_def by force
  from rows [OF this] have r: "journal_postings (tr_journal x) t = journal_postings (tr_journal x) s" .
  show ?thesis
    using x unfolding transfer_verified_def r
    by (elim conjE, intro conjI) (assumption | blast intro: q sub(1) [THEN subsetD] sub(2) [THEN subsetD] sub(3) [THEN subsetD])+
qed

lemma grown_journal_postings:
  assumes "grown P s t" "i \<in> j_id ` set (journals s)"
  shows "journal_postings i t = journal_postings i s"
  using assms(1)
proof (cases rule: grownE)
  case (1 js rows sl)
  have "pr_journal r \<noteq> i" if "r \<in> set rows" for r using 1(6) [OF that] 1(5) assms(2) by (metis imageE)
  then have "filter (\<lambda>p. pr_journal p = i) rows = []" by (auto simp: filter_empty_conv)
  then show ?thesis by (simp add: journal_postings_def 1(2))
qed

lemma transfer_more:
  fixes s t :: "'a transfer_db_scheme"
  assumes "wallet_db.more t = wallet_db.more s"
  shows "transfers t = transfers s" "transfer_quotes t = transfer_quotes s" "authorizations t = authorizations s"
  using assms by (cases s, cases t, simp)+

lemma transfer_inv_elsewhere:
  assumes "elsewhere s t" "wallet_inv t" "transfer_inv s"
  shows "transfer_inv t"
proof -
  from assms(1) have g: "grown (\<lambda>j. j_source_kind j \<noteq> ''wallet_transfer'') s t" and m: "wallet_db.more t = wallet_db.more s"
    by (auto simp: elsewhere_def)
  note f = transfer_more [OF m]
  have sub: "set (journals s) \<subseteq> set (journals t)" "set (seals s) \<subseteq> set (seals t)" using g by (auto simp: grown_def)
  have "no_orphans t" using assms(3) g by (auto simp: transfer_inv_def no_orphans_def f grown_def)
  moreover have "transfer_verified t x" if "x \<in> set (transfers s)" for x
  proof (rule verified_stays [where s = s])
    show "transfer_verified s x" using assms(3) that by (simp add: transfer_inv_def list_all_iff)
  qed (use f sub grown_journal_postings [OF g] in simp_all)
  ultimately show ?thesis using assms(2) by (simp add: transfer_inv_def list_all_iff f)
qed

text \<open>Operations that touch neither the money nor the records of transfers.\<close>

definition apart :: "'a transfer_db_scheme \<Rightarrow> 'a transfer_db_scheme \<Rightarrow> bool" where
  "apart s t \<longleftrightarrow> journals t = journals s \<and> postings t = postings s \<and> seals t = seals s \<and> holds t = holds s \<and> wallets t = wallets s
     \<and> authorizations t = authorizations s \<and> transfers t = transfers s \<and> set (transfer_quotes s) \<subseteq> set (transfer_quotes t)"

interpretation apart: tx_preorder apart
  by unfold_locales (auto simp: apart_def)

lemma transfer_inv_kept:
  assumes "transfer_inv s" "journals t = journals s" "postings t = postings s" "seals t = seals s" "holds t = holds s"
    "wallets t = wallets s" "authorizations t = authorizations s" "transfers t = transfers s"
    and q: "\<And>q. q \<in> set (transfer_quotes s) \<Longrightarrow> tq_id q \<in> tr_quote ` set (transfers s) \<Longrightarrow> q \<in> set (transfer_quotes t)"
  shows "transfer_inv t"
proof -
  have "transfer_verified t x" if "x \<in> set (transfers s)" for x
  proof (rule verified_stays [where s = s])
    show "transfer_verified s x" using assms(1) that by (simp add: transfer_inv_def list_all_iff)
    show "q \<in> set (transfer_quotes t)" if "q \<in> set (transfer_quotes s)" "tq_id q = tr_quote x" for q
      using q [OF that(1)] that(2) \<open>x \<in> set (transfers s)\<close> by simp
  qed (use assms(2-8) in \<open>simp_all add: journal_postings_def\<close>)
  moreover have "wallet_inv t" using wallet_inv_cong [of t s] assms by (simp add: transfer_inv_def)
  ultimately show ?thesis using assms(1,2,8) by (simp add: transfer_inv_def no_orphans_def list_all_iff)
qed

lemma transfer_inv_apart: "apart s t \<Longrightarrow> transfer_inv s \<Longrightarrow> transfer_inv t"
  by (erule transfer_inv_kept) (auto simp: apart_def)

lemma queued_apart: "within queued_only m \<Longrightarrow> within apart m"
  by (rule withinI, drule (1) withinD) (auto simp: apart_def elim!: queued_onlyE)

lemma apart_tables:
  "within apart (update_policy_tx e p)" "within apart (insert_policy_event_tx ev)" "within apart (insert_attempt_tx a)"
  "within apart (insert_transfer_quote_tx q)" "within apart (new_v4 :: ('a transfer_db_scheme, string) tx)"
  by (rule withinI, auto simp: apart_def update_policy_tx_def insert_policy_event_tx_def insert_attempt_tx_def
      insert_transfer_quote_tx_def new_v4_def split: if_splits)+

lemma apart_ops:
  "within apart (set_wallet_policy T actor expected p time)"
  "within apart (record_lookup_tx T user ip since recorded_at)"
  "within apart (quote_tx E user email amount at)"
proof -
  have cap: "within apart (capacity_tx E user time)" for user time
    by (rule withinI) (auto elim: capacity_cases simp: apart.R_refl)
  have req: "within apart (require_transfer_tx E a b amt time)" for a b amt time
    by (rule withinI) (auto elim: require_transfer_Inr simp: apart.R_refl)
  have usr: "within apart (require_user_tx u)" for u
    by (rule withinI) (auto dest: require_user_same simp: apart.R_refl)
  show "within apart (set_wallet_policy T actor expected p time)"
    unfolding set_wallet_policy_def policy_tx_def by (intro apart.within_rules apart_tables queued_apart [OF owner_signal_queued])
  show "within apart (record_lookup_tx T user ip since recorded_at)"
    unfolding record_lookup_tx_def by (intro apart.within_rules apart_tables)
  show "within apart (quote_tx E user email amount at)"
    unfolding quote_tx_def Let_def by (intro apart.within_rules apart_tables cap req usr)
qed

lemma create_quote_apart: "apart s (snd (create_quote E user ip email amount all since recorded_at at s))"
proof -
  have "apart s v" if "record_lookup_tx (clock E) user ip since recorded_at s = Inr (x, u)" "quote_tx E user email amount at u = Inr (y, v)" for x u y v
    using withinD [OF apart_ops(2) that(1)] withinD [OF apart_ops(3) that(2)] by (rule apart.R_trans)
  moreover have "apart s u" if "record_lookup_tx (clock E) user ip since recorded_at s = Inr (x, u)" for x u
    by (rule withinD [OF apart_ops(2) that])
  ultimately show ?thesis by (auto simp: create_quote_def apart.R_refl split: sum.splits prod.splits)
qed

lemma prune_up_to_keeps: "x \<in> set xs \<Longrightarrow> \<not> old x \<Longrightarrow> x \<in> set (prune_up_to n old xs)"
  by (induction n old xs rule: prune_up_to.induct) auto

lemma prune_inv:
  assumes "prune_unused_tx T time s = Inr (x, t)" "transfer_inv s"
  shows "transfer_inv t"
proof -
  from assms(1) obtain old where q: "transfer_quotes t = prune_up_to 2000 (\<lambda>q. tq_expires_at q < old \<and> tq_id q \<notin> set (challenge_quotes s)
        \<and> tq_id q \<notin> tr_quote ` set (transfers s)) (transfer_quotes s)"
    and same: "journals t = journals s" "postings t = postings s" "seals t = seals s" "holds t = holds s"
      "wallets t = wallets s" "authorizations t = authorizations s" "transfers t = transfers s"
    by (auto simp: prune_unused_tx_def tx_simps Let_def)
  show ?thesis by (rule transfer_inv_kept [OF assms(2) same]) (simp add: q prune_up_to_keeps)
qed

lemma execute_transfer_inv:
  assumes op: "execute_transfer_tx T session idem q time s = Inr (r, t)" and inv: "transfer_inv s"
    and pos: "0 < tq_amount q" "tq_sender q \<noteq> tq_recipient q" and q: "q \<in> set (transfer_quotes s)" "time < tq_expires_at q"
  shows "transfer_inv t"
proof (rule execute_transfer_shape [OF op _ _ pos])
  show "wallet_inv s" "no_orphans s" using inv by (simp_all add: transfer_inv_def)
next
  fix x tid aid a j z rows W n no oo
  assume t: "t = s\<lparr>uuid_drawn := n, wallets := W, journals := journals s @ [j], postings := postings s @ rows, seals := seals s @ [z],
       notification_outbox := no, operator_outbox := oo, authorizations := authorizations s @ [a], transfers := transfers s @ [x]\<rparr>"
    and invt: "wallet_inv t"
    and x: "x = \<lparr>tr_id = tid, tr_sender = tq_sender q, tr_recipient = tq_recipient q, tr_sender_email = tq_sender_email q,
         tr_recipient_email = tq_recipient_email q, tr_amount = tq_amount q, tr_quote = tq_id q, tr_authorization = aid,
         tr_idempotency_key = idem, tr_fingerprint = transfer_fingerprint q, tr_journal = j_id j, tr_created_at = time\<rparr>"
    and rows: "map row_posting rows = transfer_postings q" "\<And>p. p \<in> set rows \<Longrightarrow> pr_journal p = j_id j \<and> pr_asset p = ''USD''"
    and j: "journal_postings (j_id j) s = []" "j_id j \<notin> j_id ` set (journals s)"
      "j_source_kind j = ''wallet_transfer''" "j_source_id j = tid" "j_action j = ''transfer''" "j_asset j = ''USD''"
      "j_fingerprint j = transfer_fingerprint q" "s_journal z = j_id j" "s_count z = 2"
    and a: "az_id a = aid" "az_actor a = tq_sender q" "az_counterparty a = tq_recipient q" "az_operation a = ''wallet_transfer''"
      "az_object a = tid" "az_amount a = tq_amount q" "az_expected_version a = 0" "az_fingerprint a = transfer_fingerprint q"
      "az_acknowledgement a = ''transfer_confirmed''" "az_created_at a = time"
  have own: "journal_postings (j_id j) t = rows" using j(1) rows(2) by (simp add: t journal_postings_def)
  from rows(1) obtain p1 p2 where p: "rows = [p1, p2]" "row_posting p1 = \<lparr>p_kind = ''wallet_available'', p_subject = tq_sender q, p_units = tq_amount q\<rparr>"
    "row_posting p2 = \<lparr>p_kind = ''wallet_available'', p_subject = tq_recipient q, p_units = - tq_amount q\<rparr>"
    by (auto simp: transfer_postings_def map_eq_Cons_conv)
  have "transfer_verified t x"
    unfolding transfer_verified_def
    using q j(3-9) a own p rows(2) by (auto simp: x t row_posting_def transfer_fingerprint_def)
  moreover have "transfer_verified t y" if "y \<in> set (transfers s)" for y
  proof (rule verified_stays [where s = s])
    show "transfer_verified s y" using inv that by (simp add: transfer_inv_def list_all_iff)
    show "journal_postings i t = journal_postings i s" if "i \<in> j_id ` set (journals s)" for i
    proof -
      have "i \<noteq> j_id j" using that j(2) by blast
      then have "filter (\<lambda>p. pr_journal p = i) rows = []" using rows(2) by (auto simp: filter_empty_conv)
      then show ?thesis by (simp add: t journal_postings_def)
    qed
  qed (auto simp: t)
  moreover have "no_orphans t" using inv by (auto simp: transfer_inv_def no_orphans_def t x)
  ultimately show ?thesis using invt by (simp add: transfer_inv_def list_all_iff t)
qed

lemma confirm_inv:
  assumes "confirm E session key qid time s = Inr (r, t)" "transfer_inv s"
  shows "transfer_inv t"
proof -
  from assms(1) obtain idem where "confirm_tx E session (user_id session) idem qid time s = Inr (r, t)"
    by (auto simp: confirm_def tx_simps split: option.splits if_splits)
  then show ?thesis
  proof (cases rule: confirm_cases)
    case (fresh q c)
    show ?thesis by (rule execute_transfer_inv [OF fresh(11) assms(2) fresh(7,6,2,5)])
  qed (use assms(2) in simp)
qed

interpretation transferring: safe_machine "transfer_step E" transfer_inv
proof unfold_locales
  fix s :: "'a transfer_db_scheme" and c
  assume inv: "transfer_inv s"
  then have w: "wallet_inv s" by (simp add: transfer_inv_def)
  show "transfer_inv (transfer_step E c s)"
  proof (cases c)
    case (TWallet w)
    have "wallet_inv (wallet_step w s)" using wallet.run_inv [OF w, of "[w]"] by simp
    with TWallet inv show ?thesis using transfer_inv_elsewhere [OF wallet_step_elsewhere, of w s] by simp
  next
    case (TPolicy actor expected p time)
    then show ?thesis
      by (simp only: transfer_step.simps) (rule commit_tx_inv [of transfer_inv, OF inv], rule transfer_inv_apart [OF withinD [OF apart_ops(1)] inv])
  next
    case (TQuote user ip email amount all since recorded_at at)
    then show ?thesis by (simp only: transfer_step.simps) (rule transfer_inv_apart [OF create_quote_apart inv])
  next
    case (TConfirm session key qid time)
    then show ?thesis by (simp only: transfer_step.simps) (rule commit_tx_inv [of transfer_inv, OF inv], rule confirm_inv [OF _ inv])
  next
    case (TPrune time)
    then show ?thesis by (simp only: transfer_step.simps) (rule commit_tx_inv [of transfer_inv, OF inv], rule prune_inv [OF _ inv])
  qed (auto intro!: transfer_inv_apart [OF _ inv] simp: apart_def)
qed

text \<open>The tables as the migrations leave them.\<close>

definition default_policy :: wallet_policy where
  "default_policy = \<lparr>wp_version = 1, wp_maintenance_fee_bps = 500, wp_transfers_enabled = True, wp_transfers_paused = False,
     wp_transfer_max_minor = 500000, wp_transfer_daily_max_minor = 500000\<rparr>"

definition new_transfer_db :: "(nat \<Rightarrow> string) \<Rightarrow> transfer_db" where
  "new_transfer_db ids = \<lparr>uuid_supply = ids, uuid_drawn = 0, wallets = (\<lambda>_. None), journals = [], postings = [], seals = [],
     holds = [], topup_orders = (\<lambda>_. None), owner_actions = [], notification_outbox = [], operator_outbox = [],
     users = [], wallet_policy_row = default_policy, policy_events = [], transfer_quotes = [], transfer_attempts = [],
     authorizations = [], transfers = [], c2c_orders = [], challenge_quotes = [], conversion_quotes = [], converted_quotes = [],
     topup_quotes = [], ordered_quotes = []\<rparr>"

lemma new_transfer_db_inv: "transfer_inv (new_transfer_db ids)"
proof -
  have "wallet_inv (new_transfer_db ids)"
    by (simp add: new_transfer_db_def wallet_inv_def ledger_ok_def journal_total_def holds_ok_def user_ok_def posted_of_def held_of_def
        acct_rows_def reserved_def credit_range_def i64_max_def)
  then show ?thesis by (simp add: transfer_inv_def no_orphans_def new_transfer_db_def)
qed

lemmas reachable_transfers = transferring.run_inv [OF new_transfer_db_inv]


section \<open>A concrete transfer\<close>

definition transfer_clock :: time_lib where
  "transfer_clock = \<lparr>
     parse_rfc3339 = (\<lambda>v. if v = ''2026-10-01/0'' then Some 0 else if v = ''2026-10-01/1'' then Some (minutes 60)
        else if v = ''2026-10-01/2'' then Some (minutes 75) else None),
     to_rfc3339 = (\<lambda>t. if t = 0 then ''2026-10-01/0'' else if t = minutes 60 then ''2026-10-01/1'' else ''2026-10-01/2''),
     julianday = (\<lambda>v. if v = ''2026-10-01/0'' then Some 0 else if v = ''2026-10-01/1'' then Some 3600000
        else if v = ''2026-10-01/2'' then Some 4500000 else None),
     utc_range = (\<lambda>t. 0 \<le> t), utc_now = 0\<rparr>"

definition sample_env :: "transfer_db transfer_env" where
  "sample_env = \<lparr>clock = transfer_clock, sql_date = Some, utc_date = (\<lambda>_. ''2026-10-01''),
     due_claims = (\<lambda>_ _ _. Inr []), users_safe = (\<lambda>_ _. Inr ())\<rparr>"

definition sample_session :: auth_session where
  "sample_session = \<lparr>session_id = ''s'', user_id = ''a'', auth_source_kind = ''email'',
     access_expires_at = minutes 75, created_at = 0\<rparr>"

definition quoted_transfer :: "transfer_cmd list" where
  "quoted_transfer = [
     TUsers [\<lparr>u_id = ''a'', u_email_normalized = ''a@x'', u_status = ''active'', u_email_verified_at = Some ''t''\<rparr>,
             \<lparr>u_id = ''b'', u_email_normalized = ''b@x'', u_status = ''active'', u_email_verified_at = Some ''t''\<rparr>],
     TWallet (OrdersChanged (\<lambda>x. if x = ''o'' then Some sample_order else None) []),
     TWallet (CreditVerified ''a'' ''o'' 105 ''receipt'' ''2026-10-01/1''),
     TQuote ''a'' ''ip'' ''b@x'' (Some 50) False (minutes 60) (minutes 60) (minutes 60)]"

abbreviation quoted_db :: transfer_db where
  "quoted_db \<equiv> run_machine (transfer_step sample_env) quoted_transfer (new_transfer_db sample_ids)"

abbreviation first_confirm :: "(transfer_db, transfer) tx" where
  "first_confirm \<equiv> confirm sample_env sample_session (Some ''key-0001'') (replicate 6 CHR ''i'') ''2026-10-01/1''"

lemma quoted_db_facts:
  "\<not> isl (first_confirm quoted_db)" "transfers quoted_db = []"
  "map (\<lambda>q. (tq_id q, tq_amount q, tq_recipient q)) (transfer_quotes quoted_db) = [(replicate 6 CHR ''i'', 4320000, ''b'')]"
  by code_simp+

lemma first_confirm_returns: obtains r t where "first_confirm quoted_db = Inr (r, t)"
  using quoted_db_facts(1) by (metis not_isl_Inr)

lemma quoted_amount: "q \<in> set (transfer_quotes quoted_db) \<Longrightarrow> tq_amount q = 4320000 \<and> tq_recipient q = ''b''"
  using quoted_db_facts(3) by (cases "transfer_quotes quoted_db") auto


section \<open>Guarantees\<close>

text \<open>
  C5. Every transfer of every reachable state has its complete evidence: the unexpired quote
  it executes, the login authorization, and a sealed journal of exactly the two postings
  that move the amount from the sender to the recipient. No journal of a transfer is left
  without its transfer. These are the two conditions whose violation stops the market.
\<close>

theorem transfers_always_evidenced:
  "(let s = run_machine (transfer_step E) cs (new_transfer_db ids)
    in list_all (transfer_verified s) (transfers s) \<and> no_orphans s)"
  using reachable_transfers [of E cs ids] by (simp add: transfer_inv_def Let_def)

text \<open>
  C6. A confirmation moves exactly the amount of the quote. Either it repeats an earlier one
  and changes nothing, or it takes the amount from what the sender had available, gives it
  to the recipient, and leaves every other balance and every reserved amount as it was;
  the quote was the sender's own, was not expired and had not been used.
\<close>

theorem transfer_moves_exact_amount:
  assumes s: "s = run_machine (transfer_step E) cs (new_transfer_db ids)"
    and op: "confirm E session key qid time s = Inr (r, t)"
  shows "(t = s \<and> (\<exists>x \<in> set (transfers s). tr_sender x = user_id session \<and> tr_quote x = qid \<and> r = transfer_of x))
    \<or> (\<exists>q \<in> set (transfer_quotes s). tq_id q = qid \<and> tq_sender q = user_id session \<and> time < tq_expires_at q
        \<and> (\<forall>x \<in> set (transfers s). tr_sender x = user_id session \<longrightarrow> tr_quote x \<noteq> qid)
        \<and> tf_amount r = tq_amount q \<and> 0 < tq_amount q
        \<and> tq_amount q \<le> posted_of (user_id session) s - held_of (user_id session) s
        \<and> (\<forall>v. held_of v t = held_of v s
            \<and> posted_of v t = posted_of v s + (if v = user_id session then - tq_amount q else if v = tq_recipient q then tq_amount q else 0)))"
proof -
  have inv: "wallet_inv s" "no_orphans s" using reachable_transfers [of E cs ids] by (simp_all add: s transfer_inv_def)
  from op obtain idem where "confirm_tx E session (user_id session) idem qid time s = Inr (r, t)"
    by (auto simp: confirm_def tx_simps split: option.splits if_splits)
  then show ?thesis
  proof (cases rule: confirm_cases)
    case (replay x)
    then have "x \<in> set (transfers s)" "tr_sender x = user_id session"
      by (auto simp: prior_transfer_def find_Some_iff split: option.splits)
    with replay show ?thesis by blast
  next
    case (fresh q c)
    show ?thesis
    proof (rule execute_transfer_shape [OF fresh(11) inv fresh(7,6)])
      fix x tid aid j
      assume r: "r = transfer_of x" and x: "x = \<lparr>tr_id = tid, tr_sender = tq_sender q, tr_recipient = tq_recipient q,
          tr_sender_email = tq_sender_email q, tr_recipient_email = tq_recipient_email q, tr_amount = tq_amount q, tr_quote = tq_id q,
          tr_authorization = aid, tr_idempotency_key = idem, tr_fingerprint = transfer_fingerprint q, tr_journal = j_id j, tr_created_at = time\<rparr>"
        and p: "\<And>v. posted_of v t = posted_of v s + (if v = tq_sender q then - tq_amount q else if v = tq_recipient q then tq_amount q else 0)"
          "\<And>v. held_of v t = held_of v s" "tq_amount q \<le> posted_of (tq_sender q) s - held_of (tq_sender q) s"
      have "tf_amount r = tq_amount q" by (simp add: r x transfer_of_def)
      with p prior_None [OF fresh(1)] fresh(2-7) show ?thesis by (intro disjI2 bexI [of _ q]) auto
    qed
  qed
qed

theorem transfer_moves_exact_amount_witness:
  "(case first_confirm quoted_db of Inl _ \<Rightarrow> False
    | Inr (r, t) \<Rightarrow> tf_amount r = 4320000 \<and> posted_of ''a'' t = posted_of ''a'' quoted_db - 4320000
        \<and> posted_of ''b'' t = posted_of ''b'' quoted_db + 4320000)"
proof -
  obtain r t where op: "first_confirm quoted_db = Inr (r, t)" by (rule first_confirm_returns)
  have user: "user_id sample_session = ''a''" by (simp add: sample_session_def)
  from transfer_moves_exact_amount [OF refl op] quoted_db_facts(2) show ?thesis
    unfolding op user by (auto dest!: quoted_amount)
qed

text \<open>
  C16. A new transfer stays within the policy in force: transfers are enabled and not paused,
  the amount is at most the limit per transfer, and what the sender has sent since the start
  of the day, what the sender's C2C orders commit and the amount together are at most the
  limit per day; the funds that are already due stay covered.
\<close>

theorem transfer_respects_limits:
  assumes "confirm_tx E session sender idem qid time s = Inr (r, t)" "prior_transfer sender idem qid s = None"
  shows "\<exists>q \<in> set (transfer_quotes s). \<exists>day c2c due. tq_id q = qid \<and> day_of time = Inr day
    \<and> committed_transfer_units_tx E sender time s = Inr (c2c, s)
    \<and> (case due_claims E sender time s of Inl e \<Rightarrow> Inl e | Inr cs \<Rightarrow> prior_due_funding_units cs None) = Inr due
    \<and> wp_transfers_enabled (wallet_policy_row s) \<and> \<not> wp_transfers_paused (wallet_policy_row s)
    \<and> tq_amount q \<le> wp_transfer_max_minor (wallet_policy_row s) * 86400
    \<and> sum_list (sent_since sender day s) + c2c + tq_amount q \<le> wp_transfer_daily_max_minor (wallet_policy_row s) * 86400
    \<and> due + tq_amount q \<le> posted_of sender s - held_of sender s"
  using assms(1)
proof (cases rule: confirm_cases)
  case (fresh q c)
  show ?thesis
    by (rule capacity_limits [OF fresh(8,7,10)], rule bexI [OF _ fresh(2)]) (use fresh(3,9) in blast)
qed (simp add: assms(2))

theorem transfer_respects_limits_witness:
  "4320000 \<le> wp_transfer_max_minor (wallet_policy_row quoted_db) * 86400
   \<and> sum_list (sent_since ''a'' ''2026-10-01T00:00:00+00:00'' quoted_db) + 4320000
      \<le> wp_transfer_daily_max_minor (wallet_policy_row quoted_db) * 86400
   \<and> 4320000 \<le> posted_of ''a'' quoted_db - held_of ''a'' quoted_db"
proof -
  have "\<not> isl (confirm_tx sample_env sample_session ''a'' ''key-0001'' (replicate 6 CHR ''i'') ''2026-10-01/1'' quoted_db)" by code_simp
  then obtain r t where op: "confirm_tx sample_env sample_session ''a'' ''key-0001'' (replicate 6 CHR ''i'') ''2026-10-01/1'' quoted_db = Inr (r, t)"
    by (metis not_isl_Inr)
  have "prior_transfer ''a'' ''key-0001'' (replicate 6 CHR ''i'') quoted_db = None" by (simp add: prior_transfer_def quoted_db_facts(2))
  from transfer_respects_limits [OF op this] obtain q day c2c due where
    q: "q \<in> set (transfer_quotes quoted_db)" and day: "day_of ''2026-10-01/1'' = Inr day"
    and c: "committed_transfer_units_tx sample_env ''a'' ''2026-10-01/1'' quoted_db = Inr (c2c, quoted_db)"
    and d: "(case due_claims sample_env ''a'' ''2026-10-01/1'' quoted_db of Inl e \<Rightarrow> Inl e | Inr cs \<Rightarrow> prior_due_funding_units cs None) = Inr due"
    and lim: "tq_amount q \<le> wp_transfer_max_minor (wallet_policy_row quoted_db) * 86400"
      "sum_list (sent_since ''a'' day quoted_db) + c2c + tq_amount q \<le> wp_transfer_daily_max_minor (wallet_policy_row quoted_db) * 86400"
      "due + tq_amount q \<le> posted_of ''a'' quoted_db - held_of ''a'' quoted_db"
    by blast
  have "day_of ''2026-10-01/1'' = Inr ''2026-10-01T00:00:00+00:00''"
    "(case committed_transfer_units_tx sample_env ''a'' ''2026-10-01/1'' quoted_db of Inl _ \<Rightarrow> False | Inr (n, _) \<Rightarrow> n = 0)"
    "(case due_claims sample_env ''a'' ''2026-10-01/1'' quoted_db of Inl e \<Rightarrow> Inl e | Inr cs \<Rightarrow> prior_due_funding_units cs None) = Inr 0"
    by code_simp+
  then have "day = ''2026-10-01T00:00:00+00:00''" "c2c = 0" "due = 0" unfolding day c d by simp_all
  with lim quoted_amount [OF q] show ?thesis by simp
qed



end
