(* ===== verification/Spec2Isabelle.thy ===== *)
theory Spec2Isabelle
  imports Wallet_Properties Route_Breaker Route_Runtime Abuse_Tracker Market_Common Value_Pricing
    Notification_Kinds Provider_Account Transfer_Properties
begin

text \<open>
  A verification library for the market router service (\<open>src/src\<close>, in Rust; its
  tables in \<open>src/schema\<close>).
\<close>

end
